theory Spec2Isabelle
  imports Main "HOL-Library.Word"
begin

section \<open>RSim: a shallow embedding of the simulation core and its save format\<close>

text \<open>
  The Python sources modelled here are \<^verbatim>\<open>map.py\<close>, \<^verbatim>\<open>element.py\<close>, \<^verbatim>\<open>food.py\<close>,
  \<^verbatim>\<open>entity.py\<close>, \<^verbatim>\<open>save.py\<close>, \<^verbatim>\<open>simulation.py\<close> (\<^verbatim>\<open>RSim.step\<close>) and \<^verbatim>\<open>cmd.py\<close>
  (\<^verbatim>\<open>Cmd.processCmd\<close>, \<^verbatim>\<open>Cmd._spawn\<close>).

  Python integers are unbounded: they are \<open>int\<close>. Every \<^verbatim>\<open>raise\<close> is a value of
  \<open>error\<close>. The class-level lists \<^verbatim>\<open>Food.list\<close> and \<^verbatim>\<open>Entity.list\<close>, the counter
  \<^verbatim>\<open>Entity.nEntities\<close>, \<^verbatim>\<open>Food.maxFoods\<close> and \<^verbatim>\<open>Map.size\<close> are the fields of one record
  \<open>world\<close> that every operation takes and returns.

  \<open>save\<close> and \<open>load\<close> return the exception raised together with the state the call
  leaves behind. The tick of an agent, the sweep and the console commands return the
  exception alone: the properties below show that on a world whose elements lie on the
  map the tick and the sweep do not raise, and the constructors raise before they
  change anything.
\<close>

subsection \<open>Errors\<close>

text \<open>
  The exception classes the modelled code raises. The string of \<open>ValueError\<close> keeps the
  part of the message that tells the raise sites apart: the field name handed to
  \<^verbatim>\<open>_write_int\<close> or \<^verbatim>\<open>_read_int\<close>, \<open>''x''\<close> or \<open>''y''\<close> for the coordinate setters of
  \<^verbatim>\<open>Element\<close>, \<open>''randint''\<close> for an empty range given to \<^verbatim>\<open>random.randint\<close>.
  \<open>IOError\<close> is the failure of \<^verbatim>\<open>open\<close> on a path that does not exist.
\<close>

datatype error = TypeError string | ValueError string | IndexError | IOError

subsection \<open>Map (map.py)\<close>

text \<open>
  \<^verbatim>\<open>Map.size\<close> is read and assigned on the class (\<^verbatim>\<open>Map.size = size\<close> in \<^verbatim>\<open>RSim.init\<close>,
  \<^verbatim>\<open>Map.size = (...)\<close> in \<^verbatim>\<open>Save.load\<close>), where the \<^verbatim>\<open>@property\<close> setter of instances does
  not run: it is a plain pair of integers.
\<close>

type_synonym coord = "int \<times> int"

definition DEFAULT_SIZE :: coord where
  "DEFAULT_SIZE = (200, 150)"

subsection \<open>Element (element.py)\<close>

text \<open>
  The fields \<^verbatim>\<open>_x\<close> and \<^verbatim>\<open>_y\<close> are named \<open>px\<close> and \<open>py\<close> (a record field is a constant,
  and \<open>x\<close>, \<open>y\<close> are wanted as variables). The subclasses \<^verbatim>\<open>Food\<close> and \<^verbatim>\<open>Entity\<close> are
  record extensions.
\<close>

record element =
  px :: int
  py :: int

text \<open>\<^verbatim>\<open>value in range(n)\<close> for an integer value.\<close>

definition in_range :: "int \<Rightarrow> int \<Rightarrow> bool" where
  "in_range v n = (0 \<le> v \<and> v < n)"

text \<open>The setters of \<^verbatim>\<open>x\<close> and \<^verbatim>\<open>y\<close> (element.py 52-78); values are integers by type.\<close>

definition set_x :: "coord \<Rightarrow> int \<Rightarrow> 'a element_scheme \<Rightarrow> error + 'a element_scheme" where
  "set_x msize v e =
     (if \<not> in_range v (fst msize) then Inl (ValueError ''x'') else Inr (e\<lparr>px := v\<rparr>))"

definition set_y :: "coord \<Rightarrow> int \<Rightarrow> 'a element_scheme \<Rightarrow> error + 'a element_scheme" where
  "set_y msize v e =
     (if \<not> in_range v (snd msize) then Inl (ValueError ''y'') else Inr (e\<lparr>py := v\<rparr>))"

text \<open>
  \<^verbatim>\<open>Element.__init__\<close>: \<^verbatim>\<open>self.x = coord[0]\<close>, then \<^verbatim>\<open>self.y = coord[1]\<close>. It returns
  the validated pair, from which the subclass constructors build their record.
\<close>

definition Element_init :: "coord \<Rightarrow> coord \<Rightarrow> error + coord" where
  "Element_init msize c =
     (if \<not> in_range (fst c) (fst msize) then Inl (ValueError ''x'')
      else if \<not> in_range (snd c) (snd msize) then Inl (ValueError ''y'')
      else Inr c)"

text \<open>
  \<^verbatim>\<open>Element.distance\<close> is \<^verbatim>\<open>sqrt(dx**2 + dy**2)\<close> in floating point. The model keeps
  its argument, the squared distance, an integer.
\<close>

definition distance2 :: "'a element_scheme \<Rightarrow> 'b element_scheme \<Rightarrow> int" where
  "distance2 a b = (px a - px b) * (px a - px b) + (py a - py b) * (py a - py b)"

subsection \<open>Food (food.py)\<close>

record food = element +
  pts :: int

definition NBYTES_PTS :: nat where
  "NBYTES_PTS = 2"

definition PTS_MAX :: int where
  "PTS_MAX = 2 ^ (NBYTES_PTS * 8)"

definition PTS_DEFAULT :: int where
  "PTS_DEFAULT = 100"

definition MAXFOODS_DEF :: int where
  "MAXFOODS_DEF = 50"

text \<open>The setter of \<^verbatim>\<open>pts\<close> (food.py 57-64).\<close>

definition set_pts :: "int \<Rightarrow> food \<Rightarrow> food" where
  "set_pts v f = (if \<not> (0 < v \<and> v \<le> PTS_MAX) then f\<lparr>pts := PTS_DEFAULT\<rparr> else f\<lparr>pts := v\<rparr>)"

text \<open>\<^verbatim>\<open>Food.__init__(coord, pts)\<close>: the coordinates first, then \<^verbatim>\<open>self.pts = pts\<close>.\<close>

definition Food_init :: "coord \<Rightarrow> coord \<Rightarrow> int \<Rightarrow> error + food" where
  "Food_init msize c p =
     (case Element_init msize c of
        Inl err \<Rightarrow> Inl err
      | Inr (cx, cy) \<Rightarrow> Inr (set_pts p \<lparr>px = cx, py = cy, pts = 0\<rparr>))"

subsection \<open>Entity (entity.py)\<close>

text \<open>
  The fields \<^verbatim>\<open>id\<close> and \<^verbatim>\<open>range\<close> are named \<open>ident\<close> and \<open>vrange\<close> (\<open>id\<close> and \<open>range\<close>
  are constants of HOL). \<^verbatim>\<open>_age\<close> is a stored field, written by the setter of
  \<^verbatim>\<open>time\<close> only.
\<close>

record entity = element +
  energy :: int
  time :: int
  age :: int
  vrange :: int
  ident :: int

definition NBYTES_ID :: nat where
  "NBYTES_ID = 2"

definition NBYTES_ENERGY :: nat where
  "NBYTES_ENERGY = 2"

definition NBYTES_TIME :: nat where
  "NBYTES_TIME = 2"

definition ENERGY_MAX :: int where
  "ENERGY_MAX = 9999"

definition ENERGY_DEF :: int where
  "ENERGY_DEF = 200"

definition TIME_MAX :: int where
  "TIME_MAX = 4000"

definition RANGE_DEF :: int where
  "RANGE_DEF = 10"

definition MAX_ID :: int where
  "MAX_ID = 2 ^ (NBYTES_ID * 8)"

definition TIME_IN_AGE :: int where
  "TIME_IN_AGE = 40"

definition MIN_REPROD :: int where
  "MIN_REPROD = 500"

definition REPROD :: int where
  "REPROD = 200"

text \<open>\<^verbatim>\<open>age in Entity.AGE_REPROD\<close>, with \<^verbatim>\<open>AGE_REPROD = range(18, 60)\<close>.\<close>

definition in_AGE_REPROD :: "int \<Rightarrow> bool" where
  "in_AGE_REPROD a = (18 \<le> a \<and> a < 60)"

text \<open>The setter of \<^verbatim>\<open>energy\<close> (entity.py 72-81).\<close>

definition set_energy :: "int \<Rightarrow> entity \<Rightarrow> entity" where
  "set_energy v e =
     (if v > ENERGY_MAX then e\<lparr>energy := ENERGY_MAX\<rparr>
      else if v < 0 then e\<lparr>energy := 0\<rparr>
      else e\<lparr>energy := v\<rparr>)"

text \<open>The setter of \<^verbatim>\<open>time\<close> (entity.py 95-105).\<close>

definition set_time :: "int \<Rightarrow> entity \<Rightarrow> entity" where
  "set_time v e =
     (if \<not> in_range v TIME_MAX then e\<lparr>time := - 1, energy := 0, age := 0\<rparr>
      else e\<lparr>time := v, age := v div TIME_IN_AGE\<rparr>)"

text \<open>
  The conditional expression of \<^verbatim>\<open>Entity.__init__\<close> that advances the class counter:
  \<^verbatim>\<open>Entity.nEntities + 1 if Entity.nEntities < Entity.MAX_ID else 1\<close>.
\<close>

definition next_id :: "int \<Rightarrow> int" where
  "next_id n = (if n < MAX_ID then n + 1 else 1)"

text \<open>
  \<^verbatim>\<open>Entity.__init__(coord, energy, time)\<close>, given the counter \<^verbatim>\<open>Entity.nEntities\<close>:
  the new object and the new counter. A coordinate that is refused raises before the
  counter is touched.
\<close>

definition Entity_init :: "coord \<Rightarrow> int \<Rightarrow> coord \<Rightarrow> int \<Rightarrow> int \<Rightarrow> error + entity \<times> int" where
  "Entity_init msize n c en t =
     (case Element_init msize c of
        Inl err \<Rightarrow> Inl err
      | Inr (cx, cy) \<Rightarrow>
          (let e0 = \<lparr>px = cx, py = cy, energy = 0, time = 0, age = 0, vrange = 0, ident = 0\<rparr>;
               e1 = set_energy en e0;
               e2 = set_time t e1;
               e3 = e2\<lparr>vrange := RANGE_DEF\<rparr>;
               n' = next_id n
           in Inr (e3\<lparr>ident := n'\<rparr>, n')))"

text \<open>\<^verbatim>\<open>Entity.survive\<close>.\<close>

definition survive :: "entity \<Rightarrow> bool" where
  "survive e = (if energy e \<le> 0 \<or> age e > TIME_MAX then False else True)"

subsection \<open>The world: the class-level state\<close>

record world =
  map_size :: coord
  food_list :: "food list"
  maxFoods :: int
  entity_list :: "entity list"
  nEntities :: int

text \<open>\<^verbatim>\<open>Food.new(coord, pts)\<close>: construct, then append to \<^verbatim>\<open>Food.list\<close>.\<close>

definition Food_new :: "coord \<Rightarrow> int \<Rightarrow> world \<Rightarrow> error + world" where
  "Food_new c p w =
     (case Food_init (map_size w) c p of
        Inl err \<Rightarrow> Inl err
      | Inr f \<Rightarrow> Inr (w\<lparr>food_list := food_list w @ [f]\<rparr>))"

text \<open>\<^verbatim>\<open>Entity.new(coord, energy, time=0)\<close>: construct, then append to \<^verbatim>\<open>Entity.list\<close>.\<close>

definition Entity_new :: "coord \<Rightarrow> int \<Rightarrow> int \<Rightarrow> world \<Rightarrow> error + world" where
  "Entity_new c en t w =
     (case Entity_init (map_size w) (nEntities w) c en t of
        Inl err \<Rightarrow> Inl err
      | Inr (e, n') \<Rightarrow> Inr (w\<lparr>entity_list := entity_list w @ [e], nEntities := n'\<rparr>))"

subsection \<open>The per-agent tick (entity.py)\<close>

text \<open>
  \<^verbatim>\<open>Entity.eat\<close>. \<^verbatim>\<open>next(...)\<close> over the generator is the first match in list order.
  \<^verbatim>\<open>Food.list.remove(food)\<close> removes the first element equal to the object found;
  \<^verbatim>\<open>Food\<close> defines no \<^verbatim>\<open>__eq__\<close>, so that is the object itself. In the model foods are
  values, and the first element equal to the first match is that match (an equal
  element before it would have matched first). The test \<^verbatim>\<open>if food_at_location:\<close> is
  true for every object found: truth of an \<^verbatim>\<open>Element\<close> goes through its class method
  \<^verbatim>\<open>__len__\<close>, the length of the class list, which holds the object.
\<close>

definition eat :: "entity \<Rightarrow> world \<Rightarrow> entity \<times> world" where
  "eat self w =
     (if energy self < ENERGY_MAX then
        (case find (\<lambda>fd. px fd = px self \<and> py fd = py self) (food_list w) of
           None \<Rightarrow> (self, w)
         | Some fd \<Rightarrow>
             (set_energy (min ENERGY_MAX (energy self + pts fd)) self,
              w\<lparr>food_list := remove1 fd (food_list w)\<rparr>))
      else (self, w))"

text \<open>\<^verbatim>\<open>Entity.possibleMoves\<close>: the comprehension, in its order.\<close>

definition possibleMoves :: "coord \<Rightarrow> entity \<Rightarrow> coord list" where
  "possibleMoves msize self =
     [(dx, dy). dx \<leftarrow> [- 1, 0, 1], dy \<leftarrow> [- 1, 0, 1],
        0 \<le> px self + dx \<and> px self + dx < fst msize \<and>
        0 \<le> py self + dy \<and> py self + dy < snd msize]"

text \<open>
  \<^verbatim>\<open>Entity.rdmMove\<close>. \<^verbatim>\<open>random.choices(population)[0]\<close> is some element of the
  population, and raises \<^verbatim>\<open>IndexError\<close> on an empty one; the random draw is the
  parameter \<open>r\<close>, read modulo the length. The two assignments go through the setters.
\<close>

definition rdmMove :: "nat \<Rightarrow> coord \<Rightarrow> entity \<Rightarrow> error + entity" where
  "rdmMove r msize self =
     (let ms = possibleMoves msize self in
      if ms = [] then Inl IndexError
      else
        (let (dx, dy) = ms ! (r mod length ms) in
         case set_x msize (px self + dx) self of
           Inl err \<Rightarrow> Inl err
         | Inr s1 \<Rightarrow> set_y msize (py s1 + dy) s1))"

text \<open>
  The search loop of \<^verbatim>\<open>Entity.moveTowardsFood\<close>; \<open>nearer\<close> is the test of its
  \<^verbatim>\<open>if\<close>. The accumulator is
  \<^verbatim>\<open>(closest_food, min_distance)\<close>, \<open>None\<close> standing for \<^verbatim>\<open>(None, inf)\<close>. The source
  compares floating-point square roots, \<^verbatim>\<open>dist <= self.range and dist < min_distance\<close>;
  the model compares the squared integers. Both agree: \<^verbatim>\<open>sqrt\<close> is monotone and
  exact on perfect squares, so \<^verbatim>\<open>sqrt(d) <= range\<close> is \<open>d \<le> range\<^sup>2\<close> for an integer
  range \<open>\<ge> 0\<close>, and the distances that reach the second test are integers up to
  \<open>range\<^sup>2 = 100\<close>, whose square roots are distinct doubles in the same order.
\<close>

definition nearer :: "entity \<Rightarrow> int \<Rightarrow> (food \<times> int) option \<Rightarrow> bool" where
  "nearer self d best =
     (0 \<le> vrange self \<and> d \<le> vrange self * vrange self \<and>
      (case best of None \<Rightarrow> True | Some (_, m) \<Rightarrow> d < m))"

fun closest_food :: "entity \<Rightarrow> food list \<Rightarrow> (food \<times> int) option \<Rightarrow> (food \<times> int) option" where
  "closest_food self [] best = best"
| "closest_food self (fd # fds) best =
     (let d = distance2 self fd in
      if nearer self d best
      then closest_food self fds (Some (fd, d))
      else closest_food self fds best)"

text \<open>
  \<^verbatim>\<open>Entity.moveTowardsFood\<close>: the moved object and the returned direction (\<open>None\<close> when
  no food is in range). \<^verbatim>\<open>int(dx / abs(dx))\<close> is the sign of a non-zero \<open>dx\<close>.
\<close>

definition moveTowardsFood :: "coord \<Rightarrow> entity \<Rightarrow> food list \<Rightarrow> error + entity \<times> coord option" where
  "moveTowardsFood msize self foods =
     (case closest_food self foods None of
        None \<Rightarrow> Inr (self, None)
      | Some (fd, _) \<Rightarrow>
          (let dx0 = px fd - px self;
               dy0 = py fd - py self;
               dx = (if dx0 \<noteq> 0 then sgn dx0 else dx0);
               dy = (if dy0 \<noteq> 0 then sgn dy0 else dy0)
           in case set_x msize (px self + dx) self of
                Inl err \<Rightarrow> Inl err
              | Inr s1 \<Rightarrow>
                  (case set_y msize (py s1 + dy) s1 of
                     Inl err \<Rightarrow> Inl err
                   | Inr s2 \<Rightarrow> Inr (s2, Some (dx, dy)))))"

text \<open>\<^verbatim>\<open>Entity.reproduction\<close>: the child is appended to \<^verbatim>\<open>Entity.list\<close>.\<close>

definition reproduction :: "entity \<Rightarrow> world \<Rightarrow> error + entity \<times> world" where
  "reproduction self w =
     (if in_AGE_REPROD (age self) \<and> energy self \<ge> MIN_REPROD then
        (let s1 = set_energy (energy self - REPROD) self in
         case Entity_new (px s1, py s1) ENERGY_DEF 0 w of
           Inl err \<Rightarrow> Inl err
         | Inr w' \<Rightarrow> Inr (s1, w'))
      else Inr (self, w))"

text \<open>
  \<^verbatim>\<open>Entity.move\<close>, the tick of one agent: the object \<open>self\<close> and the class-level state
  are threaded through the five calls. \<open>r\<close> is the random draw of \<^verbatim>\<open>rdmMove\<close>.
\<close>

definition move :: "nat \<Rightarrow> entity \<Rightarrow> world \<Rightarrow> error + entity \<times> world" where
  "move r self w =
     (let s1 = set_energy (max 0 (energy self - 1)) self;
          s2 = set_time (time s1 + 1) s1;
          (s3, w3) = eat s2 w
      in case reproduction s3 w3 of
           Inl err \<Rightarrow> Inl err
         | Inr (s4, w4) \<Rightarrow>
             (case moveTowardsFood (map_size w4) s4 (food_list w4) of
                Inl err \<Rightarrow> Inl err
              | Inr (s5, mv) \<Rightarrow>
                  (if mv = None then
                     (case rdmMove r (map_size w4) s5 of
                        Inl err \<Rightarrow> Inl err
                      | Inr s6 \<Rightarrow> Inr (s6, w4))
                   else Inr (s5, w4))))"

subsection \<open>Save (save.py)\<close>

text \<open>
  The \<^verbatim>\<open>Save\<close> object: \<^verbatim>\<open>last\<close>, \<^verbatim>\<open>_time\<close>, \<^verbatim>\<open>_age\<close> and \<^verbatim>\<open>starting\<close>. (The setter of
  \<^verbatim>\<open>time\<close> also writes an attribute \<^verbatim>\<open>_energy\<close> that nothing reads; it is left out.)
  The constants \<^verbatim>\<open>Save.NBYTES_TIME\<close>, \<^verbatim>\<open>Save.TIME_MAX\<close> and \<^verbatim>\<open>Save.TIME_IN_AGE\<close> carry
  the class name, since \<^verbatim>\<open>Entity\<close> has constants of the same names.
\<close>

record save_obj =
  s_last :: int
  s_time :: int
  s_age :: int
  s_starting :: int

definition Save_NBYTES_TIME :: nat where
  "Save_NBYTES_TIME = 8"

definition NBYTES_COORD :: nat where
  "NBYTES_COORD = 2"

definition Save_TIME_MAX :: int where
  "Save_TIME_MAX = 2 ^ (Save_NBYTES_TIME * 8)"

definition Save_TIME_IN_AGE :: int where
  "Save_TIME_IN_AGE = 40"

text \<open>The setter of \<^verbatim>\<open>Save.time\<close> (save.py 69-79).\<close>

definition Save_set_time :: "int \<Rightarrow> save_obj \<Rightarrow> save_obj" where
  "Save_set_time v self =
     (if \<not> in_range v Save_TIME_MAX then self\<lparr>s_time := - 1, s_age := 0\<rparr>
      else self\<lparr>s_time := v, s_age := v div Save_TIME_IN_AGE\<rparr>)"

text \<open>
  The two paths the codec touches, \<^verbatim>\<open>self.path\<close> and the backup path: the bytes of the
  file, or \<open>None\<close> when the file does not exist.
\<close>

type_synonym byte = "8 word"

record files =
  target :: "byte list option"
  backup :: "byte list option"

text \<open>
  \<^verbatim>\<open>value.to_bytes(size, byteorder='big')\<close> for \<open>0 \<le> value < 256 ^ size\<close>, and
  \<^verbatim>\<open>int.from_bytes(data, byteorder='big')\<close>.
\<close>

fun to_bytes :: "nat \<Rightarrow> nat \<Rightarrow> byte list" where
  "to_bytes 0 v = []"
| "to_bytes (Suc n) v = to_bytes n (v div 256) @ [of_nat (v mod 256)]"

definition from_bytes :: "byte list \<Rightarrow> nat" where
  "from_bytes data = foldl (\<lambda>a b. a * 256 + unat b) 0 data"

text \<open>
  Writing. A writer takes the content of the file open for writing and returns the
  exception raised, if any, with the content at that moment: what the file holds once
  the \<^verbatim>\<open>with\<close> block has closed it. \<open>then_do\<close> is one statement after another.
\<close>

type_synonym writer = "byte list \<Rightarrow> error option \<times> byte list"

definition then_do :: "writer \<Rightarrow> writer \<Rightarrow> writer" where
  "then_do a b file = (case a file of (None, file') \<Rightarrow> b file' | (Some err, file') \<Rightarrow> (Some err, file'))"

text \<open>The test of \<^verbatim>\<open>Save._write_int\<close>, and \<^verbatim>\<open>Save._write_int\<close>.\<close>

definition fits :: "nat \<Rightarrow> int \<Rightarrow> bool" where
  "fits sz v = (0 \<le> v \<and> v < 2 ^ (sz * 8))"

definition write_int :: "nat \<Rightarrow> int \<Rightarrow> string \<Rightarrow> writer" where
  "write_int sz v name file =
     (if \<not> fits sz v then (Some (ValueError name), file)
      else (None, file @ to_bytes sz (nat v)))"

text \<open>\<^verbatim>\<open>Save._write_food\<close>: the loop, then the end mark.\<close>

fun write_food_loop :: "food list \<Rightarrow> writer" where
  "write_food_loop [] file = (None, file)"
| "write_food_loop (fd # fds) file =
     then_do (write_int NBYTES_PTS (pts fd) ''food.pts'')
       (then_do (write_int NBYTES_COORD (px fd) ''food.x'')
         (then_do (write_int NBYTES_COORD (py fd) ''food.y'')
           (write_food_loop fds))) file"

definition write_food :: "food list \<Rightarrow> writer" where
  "write_food fds = then_do (write_food_loop fds) (write_int NBYTES_PTS 0 ''food.end'')"

text \<open>\<^verbatim>\<open>Save._write_entity\<close>.\<close>

fun write_entity_loop :: "entity list \<Rightarrow> writer" where
  "write_entity_loop [] file = (None, file)"
| "write_entity_loop (e # es) file =
     then_do (write_int NBYTES_ID (ident e) ''entity.id'')
       (then_do (write_int NBYTES_COORD (px e) ''entity.x'')
         (then_do (write_int NBYTES_COORD (py e) ''entity.y'')
           (then_do (write_int NBYTES_ENERGY (energy e) ''entity.energy'')
             (then_do (write_int NBYTES_TIME (time e) ''entity.time'')
               (write_entity_loop es))))) file"

definition write_entity :: "entity list \<Rightarrow> writer" where
  "write_entity es = then_do (write_entity_loop es) (write_int NBYTES_ID 0 ''entity.end'')"

text \<open>
  \<^verbatim>\<open>Save.save\<close>. The clock is read once before the copy (\<open>now1\<close>) and once more in the
  \<^verbatim>\<open>except\<close> branch (\<open>now2\<close>). \<^verbatim>\<open>shutil.copy\<close> raises when the saved file does not exist
  yet, and the bare \<^verbatim>\<open>except\<close> swallows that. \<^verbatim>\<open>open(self.path, 'wb')\<close> creates or
  truncates the file (the directories exist since \<^verbatim>\<open>Save.__init__\<close>, and the model
  takes the copy of an existing file and the opening to succeed); the fields are then
  written one by one, and an exception leaves what was written so far. The \<^verbatim>\<open>except\<close> clauses re-raise an exception of the same
  class.
\<close>

definition save :: "int \<Rightarrow> int \<Rightarrow> save_obj \<Rightarrow> world \<Rightarrow> files \<Rightarrow> error option \<times> files" where
  "save now1 now2 self w fs =
     (let (stop, fs1) =
            (case target fs of
               None \<Rightarrow> (now2, fs)
             | Some content \<Rightarrow> (now1, fs\<lparr>backup := Some content\<rparr>));
          (res, content) =
            then_do (write_int Save_NBYTES_TIME stop ''file.last_loading'')
              (then_do (write_int Save_NBYTES_TIME (s_time self + (stop - s_starting self)) ''file.sim_time'')
                (then_do (write_int NBYTES_COORD (fst (map_size w)) ''map.size_x'')
                  (then_do (write_int NBYTES_COORD (snd (map_size w)) ''map.size_y'')
                    (then_do (write_food (food_list w))
                      (write_entity (entity_list w)))))) []
      in (res, fs1\<lparr>target := Some content\<rparr>))"

text \<open>
  Reading. \<^verbatim>\<open>Save._read_int\<close> on the bytes not yet read: the value and the rest, or
  the \<^verbatim>\<open>ValueError\<close> of a short read.
\<close>

definition read_int :: "nat \<Rightarrow> string \<Rightarrow> byte list \<Rightarrow> error + int \<times> byte list" where
  "read_int sz name file =
     (let data = take sz file in
      if length data \<noteq> sz then Inl (ValueError name)
      else Inr (int (from_bytes data), drop sz file))"

lemma read_int_shorter:
  "read_int sz name file = Inr (v, rest) \<Longrightarrow> 0 < sz \<Longrightarrow> length rest < length file"
  by (auto simp: read_int_def Let_def split: if_splits)

text \<open>
  The loop of \<^verbatim>\<open>Save._read_food\<close>: the exception raised, if any, the world as the
  loop leaves it, and the bytes not yet read. An exception of \<^verbatim>\<open>Food.new\<close> (a
  coordinate off the map just read) ends the loop like a short read.
\<close>

function read_food_loop :: "byte list \<Rightarrow> world \<Rightarrow> error option \<times> world \<times> byte list" where
  "read_food_loop file w =
     (case read_int NBYTES_PTS ''food.pts'' file of
        Inl err \<Rightarrow> (Some err, w, file)
      | Inr (p, f1) \<Rightarrow>
          if p = 0 then (None, w, f1)
          else
            (case read_int NBYTES_COORD ''food.x'' f1 of
               Inl err \<Rightarrow> (Some err, w, f1)
             | Inr (x, f2) \<Rightarrow>
                 (case read_int NBYTES_COORD ''food.y'' f2 of
                    Inl err \<Rightarrow> (Some err, w, f2)
                  | Inr (y, f3) \<Rightarrow>
                      (case Food_new (x, y) p w of
                         Inl err \<Rightarrow> (Some err, w, f3)
                       | Inr w' \<Rightarrow> read_food_loop f3 w'))))"
  by pat_completeness auto
termination
proof (relation "measure (\<lambda>(file, w). length file)")
  show "wf (measure (\<lambda>(file, w). length file))"
    by simp
next
  fix f0 :: "byte list" and w w' :: world and p x y f1 f2 f3 and xa xb xc :: "int \<times> byte list"
  assume "read_int NBYTES_PTS ''food.pts'' f0 = Inr xa" "(p, f1) = xa"
    "read_int NBYTES_COORD ''food.x'' f1 = Inr xb" "(x, f2) = xb"
    "read_int NBYTES_COORD ''food.y'' f2 = Inr xc" "(y, f3) = xc"
  then have "length f1 < length f0" "length f2 < length f1" "length f3 < length f2"
    using read_int_shorter [of NBYTES_PTS "''food.pts''" f0 p f1]
      read_int_shorter [of NBYTES_COORD "''food.x''" f1 x f2]
      read_int_shorter [of NBYTES_COORD "''food.y''" f2 y f3]
    by (simp_all add: NBYTES_PTS_def NBYTES_COORD_def)
  then show "((f3, w'), (f0, w)) \<in> measure (\<lambda>(file, w). length file)"
    by simp
qed

declare read_food_loop.simps [simp del]

text \<open>\<^verbatim>\<open>Save._read_food\<close>: \<^verbatim>\<open>Food.list.clear()\<close>, then the loop.\<close>

definition read_food :: "byte list \<Rightarrow> world \<Rightarrow> error option \<times> world \<times> byte list" where
  "read_food file w = read_food_loop file (w\<lparr>food_list := []\<rparr>)"

text \<open>
  The loop of \<^verbatim>\<open>Save._read_entity\<close>. The id read from the file ends the loop when it
  is 0 and is not used otherwise: \<^verbatim>\<open>Entity.new((x, y), energy, time)\<close> takes the next
  id of the class counter.
\<close>

function read_entity_loop :: "byte list \<Rightarrow> world \<Rightarrow> error option \<times> world \<times> byte list" where
  "read_entity_loop file w =
     (case read_int NBYTES_ID ''entity.id'' file of
        Inl err \<Rightarrow> (Some err, w, file)
      | Inr (entity_id, f1) \<Rightarrow>
          if entity_id = 0 then (None, w, f1)
          else
            (case read_int NBYTES_COORD ''entity.x'' f1 of
               Inl err \<Rightarrow> (Some err, w, f1)
             | Inr (x, f2) \<Rightarrow>
                 (case read_int NBYTES_COORD ''entity.y'' f2 of
                    Inl err \<Rightarrow> (Some err, w, f2)
                  | Inr (y, f3) \<Rightarrow>
                      (case read_int NBYTES_ENERGY ''entity.energy'' f3 of
                         Inl err \<Rightarrow> (Some err, w, f3)
                       | Inr (en, f4) \<Rightarrow>
                           (case read_int NBYTES_TIME ''entity.time'' f4 of
                              Inl err \<Rightarrow> (Some err, w, f4)
                            | Inr (t, f5) \<Rightarrow>
                                (case Entity_new (x, y) en t w of
                                   Inl err \<Rightarrow> (Some err, w, f5)
                                 | Inr w' \<Rightarrow> read_entity_loop f5 w'))))))"
  by pat_completeness auto
termination
proof (relation "measure (\<lambda>(file, w). length file)")
  show "wf (measure (\<lambda>(file, w). length file))"
    by simp
next
  fix f0 :: "byte list" and w w' :: world and i x y en t f1 f2 f3 f4 f5
    and xa xb xc xd xe :: "int \<times> byte list"
  assume "read_int NBYTES_ID ''entity.id'' f0 = Inr xa" "(i, f1) = xa"
    "read_int NBYTES_COORD ''entity.x'' f1 = Inr xb" "(x, f2) = xb"
    "read_int NBYTES_COORD ''entity.y'' f2 = Inr xc" "(y, f3) = xc"
    "read_int NBYTES_ENERGY ''entity.energy'' f3 = Inr xd" "(en, f4) = xd"
    "read_int NBYTES_TIME ''entity.time'' f4 = Inr xe" "(t, f5) = xe"
  then have "length f1 < length f0" "length f2 < length f1" "length f3 < length f2"
    "length f4 < length f3" "length f5 < length f4"
    using read_int_shorter [of NBYTES_ID "''entity.id''" f0 i f1]
      read_int_shorter [of NBYTES_COORD "''entity.x''" f1 x f2]
      read_int_shorter [of NBYTES_COORD "''entity.y''" f2 y f3]
      read_int_shorter [of NBYTES_ENERGY "''entity.energy''" f3 en f4]
      read_int_shorter [of NBYTES_TIME "''entity.time''" f4 t f5]
    by (simp_all add: NBYTES_ID_def NBYTES_COORD_def NBYTES_ENERGY_def NBYTES_TIME_def)
  then show "((f5, w'), (f0, w)) \<in> measure (\<lambda>(file, w). length file)"
    by simp
qed

declare read_entity_loop.simps [simp del]

text \<open>\<^verbatim>\<open>Save._read_entity\<close>: \<^verbatim>\<open>Entity.list.clear()\<close>, then the loop.\<close>

definition read_entity :: "byte list \<Rightarrow> world \<Rightarrow> error option \<times> world \<times> byte list" where
  "read_entity file w = read_entity_loop file (w\<lparr>entity_list := []\<rparr>)"

text \<open>
  \<^verbatim>\<open>Save.load\<close>: the exception raised, if any, with the \<^verbatim>\<open>Save\<close> object and the world
  as the call leaves them. \<^verbatim>\<open>Map.size\<close> is assigned once both of its fields are read.
\<close>

definition load :: "save_obj \<Rightarrow> world \<Rightarrow> files \<Rightarrow> error option \<times> save_obj \<times> world" where
  "load self w fs =
     (case target fs of
        None \<Rightarrow> (Some IOError, self, w)
      | Some file \<Rightarrow>
          (case read_int Save_NBYTES_TIME ''file.last_loading'' file of
             Inl err \<Rightarrow> (Some err, self, w)
           | Inr (l, f1) \<Rightarrow>
               (let self1 = self\<lparr>s_last := l\<rparr> in
                case read_int Save_NBYTES_TIME ''file.sim_time'' f1 of
                  Inl err \<Rightarrow> (Some err, self1, w)
                | Inr (t, f2) \<Rightarrow>
                    (let self2 = Save_set_time t self1 in
                     case read_int NBYTES_COORD ''map.size_x'' f2 of
                       Inl err \<Rightarrow> (Some err, self2, w)
                     | Inr (sx, f3) \<Rightarrow>
                         (case read_int NBYTES_COORD ''map.size_y'' f3 of
                            Inl err \<Rightarrow> (Some err, self2, w)
                          | Inr (sy, f4) \<Rightarrow>
                              (case read_food f4 (w\<lparr>map_size := (sx, sy)\<rparr>) of
                                 (Some err, w2, f5) \<Rightarrow> (Some err, self2, w2)
                               | (None, w2, f5) \<Rightarrow>
                                   (case read_entity f5 w2 of
                                      (res, w3, f6) \<Rightarrow> (res, self2, w3))))))))"

subsection \<open>Random placement (map.py, food.py, entity.py)\<close>

text \<open>
  \<^verbatim>\<open>Map.rmdCoord(datas)\<close> draws coordinates until one is free. The draws are a parameter:
  a list of pairs of naturals, each read modulo the width and the height, as
  \<^verbatim>\<open>randint(0, n - 1)\<close> returns some value of \<open>[0, n)\<close>. The loop may run forever;
  the result \<open>None\<close> of the model says that it has not returned within the draws given.
  \<^verbatim>\<open>randint\<close> raises \<^verbatim>\<open>ValueError\<close> on an empty range.
\<close>

fun rmdCoord_loop :: "coord \<Rightarrow> 'a element_scheme list \<Rightarrow> (nat \<times> nat) list \<Rightarrow> coord option" where
  "rmdCoord_loop msize datas [] = None"
| "rmdCoord_loop msize datas ((rx, ry) # draws) =
     (let x = int rx mod fst msize; y = int ry mod snd msize in
      if \<not> list_ex (\<lambda>obj. px obj = x \<and> py obj = y) datas then Some (x, y)
      else rmdCoord_loop msize datas draws)"

definition rmdCoord ::
  "(nat \<times> nat) list \<Rightarrow> coord \<Rightarrow> 'a element_scheme list \<Rightarrow> (error + coord option) option" where
  "rmdCoord draws msize datas =
     (if fst msize * snd msize > int (length datas) then
        (if fst msize - 1 < 0 then Some (Inl (ValueError ''randint''))
         else map_option (\<lambda>c. Inr (Some c)) (rmdCoord_loop msize datas draws))
      else Some (Inr None))"

text \<open>\<^verbatim>\<open>Food.generate\<close>; a tuple returned by \<^verbatim>\<open>rmdCoord\<close> is true, \<^verbatim>\<open>None\<close> is false.\<close>

definition Food_generate :: "(nat \<times> nat) list \<Rightarrow> world \<Rightarrow> (error + world) option" where
  "Food_generate draws w =
     (if int (length (food_list w)) < maxFoods w then
        (case rmdCoord draws (map_size w) (food_list w) of
           None \<Rightarrow> None
         | Some (Inl err) \<Rightarrow> Some (Inl err)
         | Some (Inr None) \<Rightarrow> Some (Inr w)
         | Some (Inr (Some c)) \<Rightarrow> Some (Food_new c PTS_DEFAULT w))
      else Some (Inr w))"

text \<open>
  \<^verbatim>\<open>Entity.generate\<close>: \<^verbatim>\<open>Map.rmdCoord()\<close> with the default \<^verbatim>\<open>datas=[]\<close>; when it
  returns \<^verbatim>\<open>None\<close>, \<^verbatim>\<open>coord[0]\<close> in \<^verbatim>\<open>Element.__init__\<close> raises \<^verbatim>\<open>TypeError\<close>.
\<close>

definition Entity_generate :: "(nat \<times> nat) list \<Rightarrow> world \<Rightarrow> (error + world) option" where
  "Entity_generate draws w =
     (case rmdCoord draws (map_size w) ([] :: element list) of
        None \<Rightarrow> None
      | Some (Inl err) \<Rightarrow> Some (Inl err)
      | Some (Inr None) \<Rightarrow> Some (Inl (TypeError ''coord''))
      | Some (Inr (Some c)) \<Rightarrow> Some (Entity_new c ENERGY_DEF 0 w))"

subsection \<open>The console (cmd.py)\<close>

text \<open>
  \<^verbatim>\<open>command.split()\<close> splits at runs of whitespace. A \<open>char\<close> is a code point below
  256; those for which \<^verbatim>\<open>str.isspace\<close> holds are 9 to 13, 28 to 32, 133 and 160.
\<close>

definition is_space :: "char \<Rightarrow> bool" where
  "is_space c =
     (let n = (of_char c :: nat) in
      (9 \<le> n \<and> n \<le> 13) \<or> (28 \<le> n \<and> n \<le> 32) \<or> n = 133 \<or> n = 160)"

fun split_words :: "string \<Rightarrow> string \<Rightarrow> string list" where
  "split_words cur [] = (if cur = [] then [] else [cur])"
| "split_words cur (c # cs) =
     (if is_space c then (if cur = [] then split_words [] cs else cur # split_words [] cs)
      else split_words (cur @ [c]) cs)"

definition split :: "string \<Rightarrow> string list" where
  "split command = split_words [] command"

text \<open>
  \<^verbatim>\<open>int(s)\<close> on a token without whitespace: an optional sign, then decimal digits
  with single underscores allowed between digits; \<open>None\<close> is the \<^verbatim>\<open>ValueError\<close>. Among
  the code points below 256 the decimal digits are the ASCII ones. More than
  \<open>MAX_STR_DIGITS\<close> digits (underscores and the sign not counted) are refused with
  \<^verbatim>\<open>ValueError\<close>, the default of \<^verbatim>\<open>sys.get_int_max_str_digits()\<close>.
\<close>

definition MAX_STR_DIGITS :: nat where
  "MAX_STR_DIGITS = 4300"

definition digit :: "char \<Rightarrow> nat option" where
  "digit c = (let n = (of_char c :: nat) in if 48 \<le> n \<and> n \<le> 57 then Some (n - 48) else None)"

fun parse_digits :: "nat \<Rightarrow> string \<Rightarrow> nat option" where
  "parse_digits acc [] = Some acc"
| "parse_digits acc [c] = (case digit c of Some d \<Rightarrow> Some (acc * 10 + d) | None \<Rightarrow> None)"
| "parse_digits acc (c # c' # cs) =
     (if c = CHR ''_'' then
        (case digit c' of Some d \<Rightarrow> parse_digits (acc * 10 + d) cs | None \<Rightarrow> None)
      else
        (case digit c of Some d \<Rightarrow> parse_digits (acc * 10 + d) (c' # cs) | None \<Rightarrow> None))"

definition py_nat :: "string \<Rightarrow> nat option" where
  "py_nat s =
     (if length (filter (\<lambda>c. c \<noteq> CHR ''_'') s) > MAX_STR_DIGITS then None
      else
        (case s of
           [] \<Rightarrow> None
         | c # cs \<Rightarrow> (case digit c of None \<Rightarrow> None | Some d \<Rightarrow> parse_digits d cs)))"

definition py_int :: "string \<Rightarrow> int option" where
  "py_int s =
     (case s of
        [] \<Rightarrow> None
      | c # cs \<Rightarrow>
          if c = CHR ''-'' then map_option (\<lambda>n. - int n) (py_nat cs)
          else if c = CHR ''+'' then map_option int (py_nat cs)
          else map_option int (py_nat s))"

text \<open>
  A call of the class method \<^verbatim>\<open>Food.new(cls, coord, pts)\<close>, whose parameter \<^verbatim>\<open>pts\<close> has
  no default: the second argument of the model is the \<^verbatim>\<open>pts\<close> the call site passes,
  \<open>None\<close> when it passes none, which raises \<^verbatim>\<open>TypeError\<close> before the body runs.
\<close>

definition Food_new_call :: "coord \<Rightarrow> int option \<Rightarrow> world \<Rightarrow> error + world" where
  "Food_new_call c p w =
     (case p of
        None \<Rightarrow> Inl (TypeError ''new() missing 1 required positional argument: pts'')
      | Some v \<Rightarrow> Food_new c v w)"

text \<open>
  \<^verbatim>\<open>Cmd._spawn(args)\<close>, by its effect on the world (the messages printed are left out).
  \<open>x\<close> and \<open>y\<close> are \<^verbatim>\<open>None\<close> or the integers parsed; a \<^verbatim>\<open>ValueError\<close> of \<^verbatim>\<open>int\<close> is
  caught and the method returns. With both coordinates, the entity branch calls
  \<^verbatim>\<open>Entity.new((x, y), Entity.ENERGY_DEF)\<close> and the food branch calls
  \<^verbatim>\<open>Food.new((x, y))\<close>, with one argument.
\<close>

definition Cmd_spawn :: "(nat \<times> nat) list \<Rightarrow> string list \<Rightarrow> world \<Rightarrow> (error + world) option" where
  "Cmd_spawn draws args w =
     (if length args < 1 then Some (Inr w)
      else
        (let elem_type = args ! 0 in
         case (if length args > 1 then map_option Some (py_int (args ! 1)) else Some None) of
           None \<Rightarrow> Some (Inr w)
         | Some x \<Rightarrow>
             (case (if length args > 2 then map_option Some (py_int (args ! 2)) else Some None) of
                None \<Rightarrow> Some (Inr w)
              | Some y \<Rightarrow>
                  if elem_type = ''entity'' then
                    (if x \<noteq> None \<and> y \<noteq> None
                     then Some (Entity_new (the x, the y) ENERGY_DEF 0 w)
                     else Entity_generate draws w)
                  else if elem_type = ''food'' then
                    (if x \<noteq> None \<and> y \<noteq> None
                     then Some (Food_new_call (the x, the y) None w)
                     else Food_generate draws w)
                  else Some (Inr w))))"

text \<open>
  \<^verbatim>\<open>Cmd.processCmd(command)\<close>, by its effect on the world: \<^verbatim>\<open>save\<close> writes files
  (\<open>save\<close> above) and catches its exceptions, \<^verbatim>\<open>exit\<close> clears the running flag,
  \<^verbatim>\<open>help\<close>, \<^verbatim>\<open>clear\<close> and an unknown command print; none of them touches the world.
\<close>

definition processCmd :: "(nat \<times> nat) list \<Rightarrow> string \<Rightarrow> world \<Rightarrow> (error + world) option" where
  "processCmd draws command w =
     (let parts = split command in
      if length parts = 0 then Some (Inr w)
      else
        (let cmd = parts ! 0 in
         if cmd = ''save'' then Some (Inr w)
         else if cmd = ''exit'' then Some (Inr w)
         else if cmd = ''help'' then Some (Inr w)
         else if cmd = ''clear'' then Some (Inr w)
         else if cmd = ''spawn'' then Cmd_spawn draws (tl parts) w
         else Some (Inr w)))"

subsection \<open>The Engine tick (simulation.py)\<close>

text \<open>
  \<^verbatim>\<open>Entity.delete(entity)\<close> in the sweep: \<^verbatim>\<open>list.remove\<close> removes the first element
  equal to its argument; \<^verbatim>\<open>Entity\<close> defines no \<^verbatim>\<open>__eq__\<close>, so that is the object
  itself, which stands at the iterator's index.
\<close>

definition delete_at :: "nat \<Rightarrow> 'a list \<Rightarrow> 'a list" where
  "delete_at i xs = take i xs @ drop (Suc i) xs"

text \<open>
  The sweep can lengthen the list it iterates (a reproduction appends a child), so its
  termination needs a measure: the agents from the iterator's index on count 2, or 1
  when their time is 0. A child has time 0, and an agent that reproduces has an age of
  18 at least after its tick, so its time was not 0 before.
\<close>

definition tick_weight :: "entity \<Rightarrow> nat" where
  "tick_weight e = (if time e = 0 then 1 else 2)"

definition sweep_measure :: "nat \<Rightarrow> world \<Rightarrow> nat" where
  "sweep_measure i w = sum_list (map tick_weight (drop i (entity_list w)))"

lemma eat_entities:
  "eat e w = (e', w') \<Longrightarrow> entity_list w' = entity_list w \<and> nEntities w' = nEntities w \<and>
     map_size w' = map_size w \<and> age e' = age e \<and> time e' = time e"
  by (auto simp: eat_def set_energy_def split: if_splits option.splits)

lemma reproduction_entities:
  assumes "reproduction e w = Inr (e', w')"
  shows "entity_list w' = entity_list w \<or>
         (\<exists>ch. entity_list w' = entity_list w @ [ch] \<and> time ch = 0 \<and> 18 \<le> age e)"
proof (cases "in_AGE_REPROD (age e) \<and> energy e \<ge> MIN_REPROD")
  case False
  then show ?thesis using assms by (auto simp: reproduction_def)
next
  case True
  then show ?thesis
    using assms
    by (auto simp: reproduction_def Let_def Entity_new_def Entity_init_def Element_init_def
        set_time_def in_range_def TIME_MAX_def in_AGE_REPROD_def split: if_splits)
qed

lemma set_time_age:
  "18 \<le> age (set_time (t + 1) e) \<Longrightarrow> t \<noteq> 0"
  by (auto simp: set_time_def in_range_def TIME_IN_AGE_def split: if_splits)

lemma move_entities:
  assumes "move r e w = Inr (e', w')"
  shows "entity_list w' = entity_list w \<or>
         (\<exists>ch. entity_list w' = entity_list w @ [ch] \<and> time ch = 0 \<and> time e \<noteq> 0)"
proof -
  let ?s1 = "set_energy (max 0 (energy e - 1)) e"
  let ?s2 = "set_time (time ?s1 + 1) ?s1"
  obtain s3 w3 where eat: "eat ?s2 w = (s3, w3)" by (cases "eat ?s2 w")
  note e3 = eat_entities [OF eat]
  from assms obtain s4 w4 where rep: "reproduction s3 w3 = Inr (s4, w4)" and w': "w' = w4"
    by (auto simp: move_def Let_def eat split: sum.splits if_splits)
  have t1: "time ?s1 = time e" by (simp add: set_energy_def)
  from reproduction_entities [OF rep]
  show ?thesis
  proof
    assume "entity_list w4 = entity_list w3"
    then show ?thesis using e3 w' by simp
  next
    assume "\<exists>ch. entity_list w4 = entity_list w3 @ [ch] \<and> time ch = 0 \<and> 18 \<le> age s3"
    then obtain ch where ch: "entity_list w4 = entity_list w3 @ [ch]" "time ch = 0" "18 \<le> age s3"
      by blast
    have "18 \<le> age ?s2" using ch(3) e3 by simp
    then have "time e \<noteq> 0" using set_time_age [of "time ?s1" ?s1] t1 by simp
    then show ?thesis using ch e3 w' by auto
  qed
qed

lemma sum_weight_drop_Suc:
  "sum_list (map tick_weight (drop (Suc k) xs)) \<le> sum_list (map tick_weight (drop k xs))"
proof -
  have "drop (Suc k) xs = tl (drop k xs)"
    by (simp add: drop_Suc tl_drop)
  then show ?thesis
    by (cases "drop k xs") simp_all
qed

lemma sweep_measure_step:
  assumes i: "i < length (entity_list w)"
    and mv: "move r (entity_list w ! i) w = Inr (e', w')"
  shows "sweep_measure (Suc i) (w'\<lparr>entity_list := (entity_list w')[i := e']\<rparr>) < sweep_measure i w"
    and "sweep_measure (Suc i)
           (w'\<lparr>entity_list := delete_at i ((entity_list w')[i := e'])\<rparr>) < sweep_measure i w"
proof -
  let ?es = "entity_list w"
  have old: "sweep_measure i w = tick_weight (?es ! i) + sum_list (map tick_weight (drop (Suc i) ?es))"
    using i by (simp add: sweep_measure_def Cons_nth_drop_Suc [symmetric])
  have pos: "0 < tick_weight (?es ! i)" by (simp add: tick_weight_def)
  from move_entities [OF mv]
  have new: "sum_list (map tick_weight (drop (Suc i) ((entity_list w')[i := e']))) <
      tick_weight (?es ! i) + sum_list (map tick_weight (drop (Suc i) ?es))"
  proof
    assume "entity_list w' = ?es"
    then show ?thesis using pos by (simp add: drop_update_cancel)
  next
    assume "\<exists>ch. entity_list w' = ?es @ [ch] \<and> time ch = 0 \<and> time (?es ! i) \<noteq> 0"
    then obtain ch where ch: "entity_list w' = ?es @ [ch]" "time ch = 0" "time (?es ! i) \<noteq> 0"
      by blast
    then show ?thesis using i by (simp add: drop_update_cancel tick_weight_def)
  qed
  show "sweep_measure (Suc i) (w'\<lparr>entity_list := (entity_list w')[i := e']\<rparr>) < sweep_measure i w"
    using new old by (simp add: sweep_measure_def)
  have "drop (Suc i) (delete_at i xs) = drop (Suc (Suc i)) xs" if "i < length xs" for xs :: "entity list"
    using that by (simp add: delete_at_def min_def drop_Suc [symmetric])
  moreover have "i < length ((entity_list w')[i := e'])"
    using move_entities [OF mv] i by auto
  ultimately have "drop (Suc i) (delete_at i ((entity_list w')[i := e'])) =
      drop (Suc (Suc i)) ((entity_list w')[i := e'])"
    by simp
  then have "sum_list (map tick_weight (drop (Suc i) (delete_at i ((entity_list w')[i := e'])))) \<le>
      sum_list (map tick_weight (drop (Suc i) ((entity_list w')[i := e'])))"
    by (simp only: sum_weight_drop_Suc)
  then show "sweep_measure (Suc i)
           (w'\<lparr>entity_list := delete_at i ((entity_list w')[i := e'])\<rparr>) < sweep_measure i w"
    using new old by (simp add: sweep_measure_def)
qed

text \<open>
  The loop of \<^verbatim>\<open>RSim.step\<close>, \<^verbatim>\<open>for entity in Entity.list\<close>: a list iterator is an
  index into the list, compared with the current length before each iteration. \<open>i\<close> is
  that index and \<open>rs i\<close> the random draw of the iteration. The object ticked is written
  back at its index; a child born during the tick is at the end of the list and will be
  reached by the same sweep.
\<close>

function sweep :: "(nat \<Rightarrow> nat) \<Rightarrow> nat \<Rightarrow> world \<Rightarrow> error + world" where
  "sweep rs i w =
     (if i < length (entity_list w) then
        (case move (rs i) (entity_list w ! i) w of
           Inl err \<Rightarrow> Inl err
         | Inr (e', w') \<Rightarrow>
             if \<not> survive e' then
               sweep rs (Suc i) (w'\<lparr>entity_list := delete_at i ((entity_list w')[i := e'])\<rparr>)
             else sweep rs (Suc i) (w'\<lparr>entity_list := (entity_list w')[i := e']\<rparr>))
      else Inr w)"
  by pat_completeness auto
termination
proof (relation "measure (\<lambda>(rs, i, w). sweep_measure i w)")
  show "wf (measure (\<lambda>(rs, i, w). sweep_measure i w))"
    by simp
next
  fix rs :: "nat \<Rightarrow> nat" and i w x2 e' w'
  assume "i < length (entity_list w)" "move (rs i) (entity_list w ! i) w = Inr x2" "(e', w') = x2"
  then have "move (rs i) (entity_list w ! i) w = Inr (e', w')" by simp
  from sweep_measure_step(2) [OF \<open>i < length (entity_list w)\<close> this]
  show "((rs, Suc i, w'\<lparr>entity_list := delete_at i ((entity_list w')[i := e'])\<rparr>), rs, i, w)
         \<in> measure (\<lambda>(rs, i, w). sweep_measure i w)"
    by simp
next
  fix rs :: "nat \<Rightarrow> nat" and i w x2 e' w'
  assume "i < length (entity_list w)" "move (rs i) (entity_list w ! i) w = Inr x2" "(e', w') = x2"
  then have "move (rs i) (entity_list w ! i) w = Inr (e', w')" by simp
  from sweep_measure_step(1) [OF \<open>i < length (entity_list w)\<close> this]
  show "((rs, Suc i, w'\<lparr>entity_list := (entity_list w')[i := e']\<rparr>), rs, i, w)
         \<in> measure (\<lambda>(rs, i, w). sweep_measure i w)"
    by simp
qed

declare sweep.simps [simp del]

text \<open>
  \<^verbatim>\<open>RSim.step\<close>: the sweep, \<^verbatim>\<open>cls.save.time += 1\<close> through the setter, then
  \<^verbatim>\<open>Food.generate()\<close>. \<open>None\<close> says that \<^verbatim>\<open>Map.rmdCoord\<close> has not returned within
  the draws given.
\<close>

definition step ::
  "(nat \<Rightarrow> nat) \<Rightarrow> (nat \<times> nat) list \<Rightarrow> save_obj \<Rightarrow> world \<Rightarrow> (error + save_obj \<times> world) option" where
  "step rs draws sv w =
     (case sweep rs 0 w of
        Inl err \<Rightarrow> Some (Inl err)
      | Inr w1 \<Rightarrow>
          (let sv1 = Save_set_time (s_time sv + 1) sv in
           case Food_generate draws w1 of
             None \<Rightarrow> None
           | Some (Inl err) \<Rightarrow> Some (Inl err)
           | Some (Inr w2) \<Rightarrow> Some (Inr (sv1, w2))))"

subsection \<open>The record layout as the specification gives it\<close>

text \<open>
  The save file of the specification: a field is a width in bytes, a value and a name;
  the record is the header, the food records and their end mark, the agent records and
  theirs. \<open>write_fields\<close> writes a list of fields in order; \<open>first_unfit\<close> is the
  error of the first field that does not fit its width, and \<open>encode_fields\<close> the
  big-endian bytes of a list of fields. \<open>stop_time\<close> is the clock reading that
  \<^verbatim>\<open>Save.save\<close> writes as \<open>last_loading\<close>.
\<close>

type_synonym field = "nat \<times> int \<times> string"

definition food_fields :: "food \<Rightarrow> field list" where
  "food_fields fd = [(2, pts fd, ''food.pts''), (2, px fd, ''food.x''), (2, py fd, ''food.y'')]"

definition entity_fields :: "entity \<Rightarrow> field list" where
  "entity_fields e =
     [(2, ident e, ''entity.id''), (2, px e, ''entity.x''), (2, py e, ''entity.y''),
      (2, energy e, ''entity.energy''), (2, time e, ''entity.time'')]"

definition header_fields :: "int \<Rightarrow> save_obj \<Rightarrow> world \<Rightarrow> field list" where
  "header_fields stop self w =
     [(8, stop, ''file.last_loading''),
      (8, s_time self + (stop - s_starting self), ''file.sim_time''),
      (2, fst (map_size w), ''map.size_x''),
      (2, snd (map_size w), ''map.size_y'')]"

definition record_layout :: "int \<Rightarrow> save_obj \<Rightarrow> world \<Rightarrow> field list" where
  "record_layout stop self w =
     header_fields stop self w @
     concat (map food_fields (food_list w)) @ [(2, 0, ''food.end'')] @
     concat (map entity_fields (entity_list w)) @ [(2, 0, ''entity.end'')]"

definition field_fits :: "field \<Rightarrow> bool" where
  "field_fits fl = (case fl of (sz, v, name) \<Rightarrow> fits sz v)"

definition encode_field :: "field \<Rightarrow> byte list" where
  "encode_field fl = (case fl of (sz, v, name) \<Rightarrow> to_bytes sz (nat v))"

definition encode_fields :: "field list \<Rightarrow> byte list" where
  "encode_fields fls = concat (map encode_field fls)"

definition first_unfit :: "field list \<Rightarrow> error option" where
  "first_unfit fls =
     (case find (\<lambda>fl. \<not> field_fits fl) fls of
        None \<Rightarrow> None
      | Some (sz, v, name) \<Rightarrow> Some (ValueError name))"

fun write_fields :: "field list \<Rightarrow> writer" where
  "write_fields [] file = (None, file)"
| "write_fields ((sz, v, name) # fls) file = then_do (write_int sz v name) (write_fields fls) file"

definition stop_time :: "int \<Rightarrow> int \<Rightarrow> files \<Rightarrow> int" where
  "stop_time now1 now2 fs = (case target fs of None \<Rightarrow> now2 | Some content \<Rightarrow> now1)"

text \<open>The bytes of the whole save file of a world: its record, encoded.\<close>

definition file_of :: "int \<Rightarrow> save_obj \<Rightarrow> world \<Rightarrow> byte list" where
  "file_of stop self w = encode_fields (record_layout stop self w)"

subsection \<open>The coordinate invariant\<close>

text \<open>An element lies on the map; all live elements of a world do.\<close>

definition in_bounds :: "coord \<Rightarrow> 'a element_scheme \<Rightarrow> bool" where
  "in_bounds msize e = (in_range (px e) (fst msize) \<and> in_range (py e) (snd msize))"

definition all_in_bounds :: "world \<Rightarrow> bool" where
  "all_in_bounds w =
     (list_all (in_bounds (map_size w)) (food_list w) \<and>
      list_all (in_bounds (map_size w)) (entity_list w))"

text \<open>
  The object that \<^verbatim>\<open>Entity.__init__\<close> builds from accepted coordinates, given the
  counter before the call: \<open>Entity_init\<close> without its coordinate check.
\<close>

definition child_of :: "coord \<Rightarrow> int \<Rightarrow> int \<Rightarrow> int \<Rightarrow> entity" where
  "child_of c en t n =
     (set_time t (set_energy en
        \<lparr>px = fst c, py = snd c, energy = 0, time = 0, age = 0, vrange = 0, ident = 0\<rparr>))
      \<lparr>vrange := RANGE_DEF, ident := next_id n\<rparr>"

subsection \<open>Class invariants and the tuples of the round trip\<close>

text \<open>
  What the setters and constructors maintain: the points of a food lie in
  \<open>(0, PTS_MAX]\<close>; the energy of an agent lies in \<open>[0, ENERGY_MAX]\<close>, its time is
  \<open>- 1\<close> (with age 0) or lies in \<open>[0, TIME_MAX)\<close> (with age \<open>time div 40\<close>), its range is
  \<open>RANGE_DEF\<close> and its id lies in \<open>(0, MAX_ID]\<close>. \<open>renumber n\<close> gives a list of agents the
  ids that \<^verbatim>\<open>Entity.__init__\<close> hands out from the counter \<open>n\<close>. \<open>food_tuple\<close> and
  \<open>agent_tuple\<close> are the tuples of the specification's round trip, \<open>agent_state\<close> the
  agent's tuple without its id.
\<close>

definition food_inv :: "food \<Rightarrow> bool" where
  "food_inv fd = (0 < pts fd \<and> pts fd \<le> PTS_MAX)"

definition entity_inv :: "entity \<Rightarrow> bool" where
  "entity_inv e =
     (0 \<le> energy e \<and> energy e \<le> ENERGY_MAX \<and>
      (if time e = - 1 then age e = 0
       else in_range (time e) TIME_MAX \<and> age e = time e div TIME_IN_AGE) \<and>
      vrange e = RANGE_DEF \<and> 0 < ident e \<and> ident e \<le> MAX_ID)"

definition world_inv :: "world \<Rightarrow> bool" where
  "world_inv w =
     (all_in_bounds w \<and> list_all food_inv (food_list w) \<and> list_all entity_inv (entity_list w))"

fun renumber :: "int \<Rightarrow> entity list \<Rightarrow> entity list" where
  "renumber n [] = []"
| "renumber n (e # es) = e\<lparr>ident := next_id n\<rparr> # renumber (next_id n) es"

definition food_tuple :: "food \<Rightarrow> int \<times> int \<times> int" where
  "food_tuple fd = (pts fd, px fd, py fd)"

definition agent_tuple :: "entity \<Rightarrow> int \<times> int \<times> int \<times> int \<times> int" where
  "agent_tuple e = (ident e, px e, py e, energy e, time e)"

definition agent_state :: "entity \<Rightarrow> int \<times> int \<times> int \<times> int" where
  "agent_state e = (px e, py e, energy e, time e)"

subsection \<open>The tick as the specification words it\<close>

text \<open>
  The five steps of the specification's \<open>tick(agent)\<close>, written from its words and
  with its numbers, to be compared with \<open>move\<close>. None of them uses a function of the
  embedding above.

  Step 2 assigns elapsed-time plus one under the domain rule of the data model: a
  value of \<open>[0, 4000)\<close> is stored with the age \<open>time div 40\<close>; any other value forces
  energy and age to 0 and leaves the reset mark \<open>- 1\<close> as the time.
\<close>

definition assign_elapsed :: "int \<Rightarrow> entity \<Rightarrow> entity" where
  "assign_elapsed t e =
     (if 0 \<le> t \<and> t < 4000 then e\<lparr>time := t, age := t div 40\<rparr>
      else e\<lparr>time := - 1, energy := 0, age := 0\<rparr>)"

text \<open>
  Step 3, eat: the first food, by index, on the agent's cell; its points are added
  to the energy, capped at 9999, and that food is removed.
\<close>

fun first_at :: "coord \<Rightarrow> food list \<Rightarrow> nat option" where
  "first_at c [] = None"
| "first_at c (fd # fds) =
     (if (px fd, py fd) = c then Some 0 else map_option Suc (first_at c fds))"

definition eat_first :: "entity \<Rightarrow> food list \<Rightarrow> entity \<times> food list" where
  "eat_first e fds =
     (if energy e < 9999 then
        (case first_at (px e, py e) fds of
           None \<Rightarrow> (e, fds)
         | Some i \<Rightarrow> (e\<lparr>energy := min 9999 (energy e + pts (fds ! i))\<rparr>,
                       take i fds @ drop (Suc i) fds))
      else (e, fds))"

text \<open>
  Step 4, reproduce: with an age in \<open>[18, 60)\<close> and an energy of 500 at least, the
  parent pays 200 and a new agent stands at the end of the live list, on the parent's
  cell, with energy 200, time 0 (so age 0), the foraging range 10 and the fresh id
  \<open>cid\<close>, which the creation counter then holds.
\<close>

definition reproduce_spec :: "int \<Rightarrow> entity \<Rightarrow> world \<Rightarrow> entity \<times> world" where
  "reproduce_spec cid e w =
     (if 18 \<le> age e \<and> age e < 60 \<and> 500 \<le> energy e then
        (e\<lparr>energy := energy e - 200\<rparr>,
         w\<lparr>entity_list := entity_list w @
              [\<lparr>px = px e, py = py e, energy = 200, time = 0, age = 0, vrange = 10, ident = cid\<rparr>],
           nEntities := cid\<rparr>)
      else (e, w))"

text \<open>
  Step 5, move. The foods within the foraging range are those at a Euclidean distance
  of 10 at most, that is a squared distance of 100 at most. The nearest one, ties
  broken by list order, is the first of them that no other one undercuts. The agent
  moves one unit toward it on each axis, by the sign of the difference. With no food
  in range the agent moves by one of the offsets of \<open>{-1,0,1}\<^sup>2\<close> that keep it on the
  map, chosen by the draw \<open>r\<close>.
\<close>

definition dist2 :: "coord \<Rightarrow> coord \<Rightarrow> int" where
  "dist2 a b = (fst a - fst b)\<^sup>2 + (snd a - snd b)\<^sup>2"

definition within_reach :: "entity \<Rightarrow> food \<Rightarrow> bool" where
  "within_reach e fd = (dist2 (px e, py e) (px fd, py fd) \<le> 10\<^sup>2)"

definition first_min :: "('a \<Rightarrow> int) \<Rightarrow> 'a list \<Rightarrow> 'a option" where
  "first_min d xs = find (\<lambda>x. list_all (\<lambda>y. d x \<le> d y) xs) xs"

definition nearest_food :: "entity \<Rightarrow> food list \<Rightarrow> food option" where
  "nearest_food e fds =
     first_min (\<lambda>fd. dist2 (px e, py e) (px fd, py fd)) (filter (within_reach e) fds)"

definition toward :: "int \<Rightarrow> int \<Rightarrow> int" where
  "toward a b = a + sgn (b - a)"

definition moore :: "coord list" where
  "moore = List.product [- 1, 0, 1] [- 1, 0, 1]"

definition keeps_on_map :: "coord \<Rightarrow> entity \<Rightarrow> coord \<Rightarrow> bool" where
  "keeps_on_map msize e off =
     (0 \<le> px e + fst off \<and> px e + fst off < fst msize \<and>
      0 \<le> py e + snd off \<and> py e + snd off < snd msize)"

definition random_step :: "nat \<Rightarrow> coord \<Rightarrow> entity \<Rightarrow> entity" where
  "random_step r msize e =
     (let offs = filter (keeps_on_map msize e) moore in
      if offs = [] then e
      else (let off = offs ! (r mod length offs)
            in e\<lparr>px := px e + fst off, py := py e + snd off\<rparr>))"

definition move_spec :: "nat \<Rightarrow> coord \<Rightarrow> entity \<Rightarrow> food list \<Rightarrow> entity" where
  "move_spec r msize e fds =
     (case nearest_food e fds of
        Some fd \<Rightarrow> e\<lparr>px := toward (px e) (px fd), py := toward (py e) (py fd)\<rparr>
      | None \<Rightarrow> random_step r msize e)"

text \<open>The five steps in their order; the result is the agent and the world after them.\<close>

definition tick_spec :: "nat \<Rightarrow> int \<Rightarrow> entity \<Rightarrow> world \<Rightarrow> entity \<times> world" where
  "tick_spec r cid e w =
     (let e1 = e\<lparr>energy := max 0 (energy e - 1)\<rparr>;
          e2 = assign_elapsed (time e1 + 1) e1;
          (e3, fds) = eat_first e2 (food_list w);
          (e4, w4) = reproduce_spec cid e3 (w\<lparr>food_list := fds\<rparr>)
      in (move_spec r (map_size w) e4 fds, w4))"

subsection \<open>The Engine tick as the specification words it\<close>






section \<open>Properties\<close>

subsection \<open>Moves stay on the map\<close>

lemma set_comprehension2:
  "set [(a, b). a \<leftarrow> xs, b \<leftarrow> ys, P a b] = {(a, b). a \<in> set xs \<and> b \<in> set ys \<and> P a b}"
  by auto

lemma possibleMoves_set:
  "(dx, dy) \<in> set (possibleMoves msize e) \<longleftrightarrow>
     dx \<in> {- 1, 0, 1} \<and> dy \<in> {- 1, 0, 1} \<and>
     in_range (px e + dx) (fst msize) \<and> in_range (py e + dy) (snd msize)"
  unfolding possibleMoves_def set_comprehension2 in_range_def by simp

lemma possibleMoves_stay:
  "in_bounds msize e \<Longrightarrow> (0, 0) \<in> set (possibleMoves msize e)"
  by (simp add: possibleMoves_set in_bounds_def)

lemma rdmMove_ok:
  assumes "in_bounds msize e"
  shows "\<exists>dx dy. (dx, dy) \<in> set (possibleMoves msize e) \<and>
           rdmMove r msize e = Inr (e\<lparr>px := px e + dx, py := py e + dy\<rparr>)"
proof -
  let ?ms = "possibleMoves msize e"
  have ne: "?ms \<noteq> []"
    using possibleMoves_stay [OF assms] by auto
  obtain dx dy where d: "?ms ! (r mod length ?ms) = (dx, dy)"
    by (cases "?ms ! (r mod length ?ms)") auto
  have "?ms ! (r mod length ?ms) \<in> set ?ms"
    using ne by (intro nth_mem) simp
  then have mem: "(dx, dy) \<in> set ?ms"
    by (simp add: d)
  then have "in_range (px e + dx) (fst msize)" "in_range (py e + dy) (snd msize)"
    by (simp_all add: possibleMoves_set)
  then have "rdmMove r msize e = Inr (e\<lparr>px := px e + dx, py := py e + dy\<rparr>)"
    using ne d by (simp add: rdmMove_def Let_def set_x_def set_y_def)
  with mem show ?thesis by blast
qed

lemma closest_food_mem:
  "closest_food e fds best = Some (f, d) \<Longrightarrow> f \<in> set fds \<or> best = Some (f, d)"
  by (induction fds arbitrary: best) (fastforce simp: Let_def split: if_splits)+

lemma step_towards:
  fixes a b n :: int
  assumes "in_range a n" "in_range b n"
  shows "in_range (a + (if b - a \<noteq> 0 then sgn (b - a) else b - a)) n"
  using assms by (auto simp: in_range_def sgn_if)

lemma moveTowardsFood_ok:
  assumes "in_bounds msize e" "list_all (in_bounds msize) foods"
  shows "\<exists>x' y' mv. in_range x' (fst msize) \<and> in_range y' (snd msize) \<and>
           moveTowardsFood msize e foods = Inr (e\<lparr>px := x', py := y'\<rparr>, mv)"
proof (cases "closest_food e foods None")
  case None
  then have "moveTowardsFood msize e foods = Inr (e\<lparr>px := px e, py := py e\<rparr>, None)"
    by (simp add: moveTowardsFood_def)
  then show ?thesis using assms(1) unfolding in_bounds_def by blast
next
  case (Some p)
  obtain f d where p: "p = (f, d)" by (cases p)
  have "f \<in> set foods"
    using closest_food_mem [of e foods None f d] Some p by simp
  then have fb: "in_bounds msize f"
    using assms(2) by (simp add: list_all_iff)
  let ?dx = "if px f - px e \<noteq> 0 then sgn (px f - px e) else px f - px e"
  let ?dy = "if py f - py e \<noteq> 0 then sgn (py f - py e) else py f - py e"
  have x: "in_range (px e + ?dx) (fst msize)"
    using assms(1) fb unfolding in_bounds_def by (intro step_towards) simp_all
  have y: "in_range (py e + ?dy) (snd msize)"
    using assms(1) fb unfolding in_bounds_def by (intro step_towards) simp_all
  have "moveTowardsFood msize e foods =
          Inr (e\<lparr>px := px e + ?dx, py := py e + ?dy\<rparr>, Some (?dx, ?dy))"
    using Some p x y by (simp add: moveTowardsFood_def Let_def set_x_def set_y_def)
  with x y show ?thesis by blast
qed

lemma in_bounds_energy [simp]: "in_bounds m (set_energy v e) = in_bounds m e"
  by (simp add: set_energy_def in_bounds_def)

lemma in_bounds_time [simp]: "in_bounds m (set_time v e) = in_bounds m e"
  by (simp add: set_time_def in_bounds_def)

lemma px_set_energy [simp]: "px (set_energy v e) = px e" "py (set_energy v e) = py e"
  by (simp_all add: set_energy_def)

lemma px_set_time [simp]: "px (set_time v e) = px e" "py (set_time v e) = py e"
  by (simp_all add: set_time_def)

lemma eat_bounds:
  assumes "eat e w = (e', w')"
  shows "px e' = px e \<and> py e' = py e \<and> map_size w' = map_size w \<and>
         entity_list w' = entity_list w \<and> nEntities w' = nEntities w \<and>
         set (food_list w') \<subseteq> set (food_list w)"
  using assms
  by (auto simp: eat_def split: if_splits option.splits dest: set_remove1_subset [THEN subsetD])

lemma Entity_new_ok:
  assumes "in_range (fst c) (fst (map_size w))" "in_range (snd c) (snd (map_size w))"
  shows "Entity_new c en t w =
           Inr (w\<lparr>entity_list := entity_list w @ [child_of c en t (nEntities w)],
                  nEntities := next_id (nEntities w)\<rparr>)"
  using assms
  by (cases c) (simp add: Entity_new_def Entity_init_def Element_init_def Let_def child_of_def)

lemma child_of_pos [simp]:
  "px (child_of c en t n) = fst c" "py (child_of c en t n) = snd c"
  by (simp_all add: child_of_def set_time_def set_energy_def)

lemma child_of_time: "time (child_of c en 0 n) = 0"
  by (simp add: child_of_def set_time_def in_range_def TIME_MAX_def)

lemma reproduction_ok:
  assumes "in_bounds (map_size w) e"
  shows "\<exists>e' w'. reproduction e w = Inr (e', w') \<and> px e' = px e \<and> py e' = py e \<and>
           map_size w' = map_size w \<and> food_list w' = food_list w \<and>
           (entity_list w' = entity_list w \<or>
            (\<exists>ch. entity_list w' = entity_list w @ [ch] \<and> in_bounds (map_size w) ch))"
proof (cases "in_AGE_REPROD (age e) \<and> energy e \<ge> MIN_REPROD")
  case False
  then show ?thesis by (auto simp: reproduction_def)
next
  case True
  let ?s = "set_energy (energy e - REPROD) e"
  have "in_range (fst (px ?s, py ?s)) (fst (map_size w))" "in_range (snd (px ?s, py ?s)) (snd (map_size w))"
    using assms by (simp_all add: in_bounds_def)
  note new = Entity_new_ok [OF this, of ENERGY_DEF 0]
  have "in_bounds (map_size w) (child_of (px ?s, py ?s) ENERGY_DEF 0 (nEntities w))"
    using assms by (simp add: in_bounds_def)
  then show ?thesis
    using True new by (simp add: reproduction_def Let_def)
qed


lemma in_bounds_pos:
  "in_bounds m (e\<lparr>px := a, py := b\<rparr>) = (in_range a (fst m) \<and> in_range b (snd m))"
  by (simp add: in_bounds_def)

lemma in_bounds_cong: "px a = px b \<Longrightarrow> py a = py b \<Longrightarrow> in_bounds m a = in_bounds m b"
  by (simp add: in_bounds_def)

lemma move_ok:
  assumes eb: "in_bounds (map_size w) e" and wb: "all_in_bounds w"
  shows "\<exists>e' w'. move r e w = Inr (e', w') \<and> map_size w' = map_size w \<and>
           in_bounds (map_size w) e' \<and> all_in_bounds w'"
proof -
  let ?m = "map_size w"
  let ?s2 = "set_time (time (set_energy (max 0 (energy e - 1)) e) + 1)
               (set_energy (max 0 (energy e - 1)) e)"
  obtain s3 w3 where eat: "eat ?s2 w = (s3, w3)"
    by (cases "eat ?s2 w")
  note eb3 = eat_bounds [OF eat]
  have s3b: "in_bounds (map_size w3) s3"
    using eb eb3 by (simp add: in_bounds_def)
  have w3f: "list_all (in_bounds ?m) (food_list w3)"
    using wb eb3 by (auto simp: all_in_bounds_def list_all_iff)
  from reproduction_ok [OF s3b]
  obtain s4 w4 where rep: "reproduction s3 w3 = Inr (s4, w4)"
    and p4: "px s4 = px s3" "py s4 = py s3"
    and w4: "map_size w4 = map_size w3" "food_list w4 = food_list w3"
    and w4e: "entity_list w4 = entity_list w3 \<or>
            (\<exists>ch. entity_list w4 = entity_list w3 @ [ch] \<and> in_bounds (map_size w3) ch)"
    by blast
  have m4: "map_size w4 = ?m" using w4 eb3 by simp
  have s4b: "in_bounds ?m s4"
    using s3b p4 eb3 by (simp add: in_bounds_def)
  have w4b: "all_in_bounds w4"
    using w3f w4 w4e wb eb3 m4 by (auto simp: all_in_bounds_def)
  from moveTowardsFood_ok [OF s4b, of "food_list w4"] w3f w4
  obtain x' y' mv where xy: "in_range x' (fst ?m)" "in_range y' (snd ?m)"
    and mtf: "moveTowardsFood ?m s4 (food_list w4) = Inr (s4\<lparr>px := x', py := y'\<rparr>, mv)"
    by auto
  let ?s5 = "s4\<lparr>px := x', py := y'\<rparr>"
  have s5b: "in_bounds ?m ?s5"
    using xy by (simp add: in_bounds_pos)
  show ?thesis
  proof (cases mv)
    case (Some d)
    then have "move r e w = Inr (?s5, w4)"
      using eat rep mtf m4 by (simp add: move_def Let_def)
    then show ?thesis using m4 s5b w4b by simp
  next
    case None
    from rdmMove_ok [OF s5b, of r]
    obtain dx dy where mem: "(dx, dy) \<in> set (possibleMoves ?m ?s5)"
      and rm: "rdmMove r ?m ?s5 = Inr (?s5\<lparr>px := px ?s5 + dx, py := py ?s5 + dy\<rparr>)"
      by blast
    have s6b: "in_bounds ?m (?s5\<lparr>px := px ?s5 + dx, py := py ?s5 + dy\<rparr>)"
      using mem unfolding possibleMoves_set in_bounds_pos by simp
    have "move r e w = Inr (?s5\<lparr>px := px ?s5 + dx, py := py ?s5 + dy\<rparr>, w4)"
      using None eat rep mtf m4 rm by (simp add: move_def Let_def)
    then show ?thesis using m4 s6b w4b by simp
  qed
qed

subsection \<open>The tick refines its specification\<close>

lemma first_at_find:
  "first_at (a, b) fds = None \<Longrightarrow> find (\<lambda>fd. px fd = a \<and> py fd = b) fds = None"
  by (induction fds) (auto split: if_splits)

lemma first_at_Some:
  "first_at (a, b) fds = Some i \<Longrightarrow>
     find (\<lambda>fd. px fd = a \<and> py fd = b) fds = Some (fds ! i) \<and>
     remove1 (fds ! i) fds = take i fds @ drop (Suc i) fds"
proof (induction fds arbitrary: i)
  case Nil
  then show ?case by simp
next
  case (Cons fd fds)
  show ?case
  proof (cases "(px fd, py fd) = (a, b)")
    case True
    then show ?thesis using Cons.prems by simp
  next
    case False
    then obtain j where j: "first_at (a, b) fds = Some j" "i = Suc j"
      using Cons.prems by auto
    from Cons.IH [OF j(1)] have ih: "find (\<lambda>fd. px fd = a \<and> py fd = b) fds = Some (fds ! j)"
      "remove1 (fds ! j) fds = take j fds @ drop (Suc j) fds" by simp_all
    have "px (fds ! j) = a \<and> py (fds ! j) = b"
      using ih(1) by (auto simp: find_Some_iff)
    then have "fd \<noteq> fds ! j" using False by auto
    then show ?thesis using False j ih by auto
  qed
qed

lemma set_energy_id: "0 \<le> v \<Longrightarrow> v \<le> 9999 \<Longrightarrow> set_energy v e = e\<lparr>energy := v\<rparr>"
  by (simp add: set_energy_def ENERGY_MAX_def)

lemma set_time_assign: "set_time t e = assign_elapsed t e"
  by (simp add: set_time_def assign_elapsed_def in_range_def TIME_MAX_def TIME_IN_AGE_def)

lemma assign_elapsed_energy:
  "0 \<le> energy e \<Longrightarrow> 0 \<le> energy (assign_elapsed t e)"
  by (simp add: assign_elapsed_def)

lemma eat_eat_first:
  assumes "0 \<le> energy e" "list_all (\<lambda>fd. 1 \<le> pts fd) (food_list w)"
  shows "eat e w = (case eat_first e (food_list w) of (e', fds) \<Rightarrow> (e', w\<lparr>food_list := fds\<rparr>))"
proof (cases "energy e < 9999")
  case False
  then show ?thesis by (simp add: eat_def eat_first_def ENERGY_MAX_def)
next
  case lt: True
  show ?thesis
  proof (cases "first_at (px e, py e) (food_list w)")
    case None
    then show ?thesis
      using lt first_at_find [OF None] by (simp add: eat_def eat_first_def ENERGY_MAX_def)
  next
    case (Some i)
    note fs = first_at_Some [OF Some]
    have "fds ! i \<in> set fds" if "find P fds = Some (fds ! i)" for P and fds :: "food list"
      using that by (auto simp: find_Some_iff)
    then have "food_list w ! i \<in> set (food_list w)" using fs by blast
    then have "1 \<le> pts (food_list w ! i)"
      using assms(2) by (simp add: list_all_iff)
    then have "set_energy (min ENERGY_MAX (energy e + pts (food_list w ! i))) e =
        e\<lparr>energy := min 9999 (energy e + pts (food_list w ! i))\<rparr>"
      using assms(1) by (simp add: ENERGY_MAX_def set_energy_id)
    then show ?thesis
      using lt Some fs by (simp add: eat_def eat_first_def ENERGY_MAX_def)
  qed
qed

lemma comprehension_product_inner:
  "concat (map (\<lambda>b. if P a b then [(a, b)] else []) ys) = filter (\<lambda>(a, b). P a b) (map (Pair a) ys)"
  by (induction ys) simp_all

lemma comprehension_product:
  "[(a, b). a \<leftarrow> xs, b \<leftarrow> ys, P a b] = filter (\<lambda>(a, b). P a b) (List.product xs ys)"
  by (induction xs) (simp_all add: comprehension_product_inner)

lemma possibleMoves_moore:
  "possibleMoves msize e = filter (keeps_on_map msize e) moore"
proof -
  have "(\<lambda>(dx, dy). 0 \<le> px e + dx \<and> px e + dx < fst msize \<and> 0 \<le> py e + dy \<and> py e + dy < snd msize)
      = keeps_on_map msize e"
    by (auto simp: keeps_on_map_def fun_eq_iff)
  then show ?thesis
    unfolding possibleMoves_def moore_def comprehension_product by simp
qed

lemma rdmMove_random_step:
  assumes "in_bounds msize e"
  shows "rdmMove r msize e = Inr (random_step r msize e)"
proof -
  let ?ms = "possibleMoves msize e"
  have ne: "?ms \<noteq> []"
    using possibleMoves_stay [OF assms] by auto
  obtain dx dy where d: "?ms ! (r mod length ?ms) = (dx, dy)"
    by (cases "?ms ! (r mod length ?ms)") auto
  have "?ms ! (r mod length ?ms) \<in> set ?ms"
    using ne by (intro nth_mem) simp
  then have "(dx, dy) \<in> set ?ms"
    by (simp add: d)
  then have "in_range (px e + dx) (fst msize)" "in_range (py e + dy) (snd msize)"
    by (simp_all add: possibleMoves_set)
  then have "rdmMove r msize e = Inr (e\<lparr>px := px e + dx, py := py e + dy\<rparr>)"
    using ne d by (simp add: rdmMove_def Let_def set_x_def set_y_def)
  moreover have "random_step r msize e = e\<lparr>px := px e + dx, py := py e + dy\<rparr>"
    using ne d by (simp add: random_step_def Let_def possibleMoves_moore [symmetric])
  ultimately show ?thesis by simp
qed

lemma first_min_single: "first_min d [b] = Some b"
  by (simp add: first_min_def)

lemma first_min_drop_head:
  assumes "d f < d b"
  shows "first_min d (b # f # xs) = first_min d (f # xs)"
proof -
  have "(\<lambda>x. list_all (\<lambda>y. d x \<le> d y) (b # f # xs)) = (\<lambda>x. list_all (\<lambda>y. d x \<le> d y) (f # xs))"
    using assms by (auto simp: fun_eq_iff)
  then show ?thesis
    using assms by (simp add: first_min_def)
qed

lemma first_min_drop_second:
  assumes "d b \<le> d f"
  shows "first_min d (b # f # xs) = first_min d (b # xs)"
proof -
  have eq: "(\<lambda>x. list_all (\<lambda>y. d x \<le> d y) (b # f # xs)) = (\<lambda>x. list_all (\<lambda>y. d x \<le> d y) (b # xs))"
    using assms by (auto simp: fun_eq_iff)
  show ?thesis
  proof (cases "list_all (\<lambda>y. d b \<le> d y) xs")
    case True
    then show ?thesis using assms by (simp add: first_min_def)
  next
    case False
    have nf: "\<not> list_all (\<lambda>y. d f \<le> d y) (b # xs)"
    proof
      assume a: "list_all (\<lambda>y. d f \<le> d y) (b # xs)"
      then have "d f = d b" using assms by simp
      with a False show False by simp
    qed
    have "first_min d (b # f # xs) = find (\<lambda>x. list_all (\<lambda>y. d x \<le> d y) (b # xs)) (b # f # xs)"
      unfolding first_min_def eq ..
    also have "\<dots> = find (\<lambda>x. list_all (\<lambda>y. d x \<le> d y) (b # xs)) xs"
      using nf False by auto
    also have "\<dots> = first_min d (b # xs)"
      using False by (simp add: first_min_def)
    finally show ?thesis .
  qed
qed

lemma closest_food_Some:
  assumes "vrange e = 10"
  shows "closest_food e fds (Some (b, dist2 (px e, py e) (px b, py b))) =
     map_option (\<lambda>fd. (fd, dist2 (px e, py e) (px fd, py fd)))
       (first_min (\<lambda>fd. dist2 (px e, py e) (px fd, py fd)) (b # filter (within_reach e) fds))"
proof (induction fds arbitrary: b)
  case Nil
  then show ?case by (simp add: first_min_single)
next
  case (Cons f fds)
  let ?d = "\<lambda>fd. dist2 (px e, py e) (px fd, py fd)"
  have d2: "distance2 e f = ?d f"
    by (simp add: distance2_def dist2_def power2_eq_square)
  show ?case
  proof (cases "within_reach e f")
    case False
    then have "\<not> nearer e (?d f) (Some (b, ?d b))"
      using assms by (simp add: nearer_def within_reach_def)
    then show ?thesis
      using False Cons.IH [of b] by (simp add: d2 Let_def)
  next
    case True
    show ?thesis
    proof (cases "?d f < ?d b")
      case lt: True
      then have "nearer e (?d f) (Some (b, ?d b))"
        using True assms by (simp add: nearer_def within_reach_def)
      then show ?thesis
        using True lt Cons.IH [of f] first_min_drop_head [of ?d f b]
        by (simp add: d2 Let_def)
    next
      case ge: False
      then have "\<not> nearer e (?d f) (Some (b, ?d b))"
        by (simp add: nearer_def)
      then show ?thesis
        using True ge Cons.IH [of b] first_min_drop_second [of ?d b f]
        by (simp add: d2 Let_def)
    qed
  qed
qed

lemma closest_food_nearest:
  assumes "vrange e = 10"
  shows "closest_food e fds None =
     map_option (\<lambda>fd. (fd, dist2 (px e, py e) (px fd, py fd))) (nearest_food e fds)"
proof (induction fds)
  case Nil
  then show ?case by (simp add: nearest_food_def first_min_def)
next
  case (Cons f fds)
  let ?d = "\<lambda>fd. dist2 (px e, py e) (px fd, py fd)"
  have d2: "distance2 e f = ?d f"
    by (simp add: distance2_def dist2_def power2_eq_square)
  show ?case
  proof (cases "within_reach e f")
    case False
    then have "\<not> nearer e (?d f) None"
      using assms by (simp add: nearer_def within_reach_def)
    then show ?thesis
      using False Cons.IH by (simp add: d2 Let_def nearest_food_def)
  next
    case True
    then have "nearer e (?d f) None"
      using assms by (simp add: nearer_def within_reach_def)
    then show ?thesis
      using True closest_food_Some [OF assms, of fds f] by (simp add: d2 Let_def nearest_food_def)
  qed
qed

lemma find_mem: "find P xs = Some x \<Longrightarrow> x \<in> set xs"
  by (induction xs) (auto split: if_splits)

lemma nearest_food_mem:
  assumes "nearest_food e fds = Some fd"
  shows "fd \<in> set fds"
proof -
  have "fd \<in> set (filter (within_reach e) fds)"
    using assms unfolding nearest_food_def first_min_def by (rule find_mem)
  then show ?thesis by simp
qed

lemma sgn_nonzero: "(if d \<noteq> 0 then sgn d else d) = sgn (d::int)"
  by simp

lemma toward_range:
  fixes a b n :: int
  assumes "in_range a n" "in_range b n"
  shows "in_range (toward a b) n"
  using assms by (auto simp: in_range_def toward_def sgn_if)

lemma moveTowardsFood_spec:
  assumes "in_bounds msize e" "list_all (in_bounds msize) foods" "vrange e = 10"
  shows "moveTowardsFood msize e foods =
     Inr (case nearest_food e foods of
            None \<Rightarrow> (e, None)
          | Some fd \<Rightarrow> (e\<lparr>px := toward (px e) (px fd), py := toward (py e) (py fd)\<rparr>,
                        Some (sgn (px fd - px e), sgn (py fd - py e))))"
proof (cases "nearest_food e foods")
  case None
  then show ?thesis
    by (simp add: moveTowardsFood_def closest_food_nearest [OF assms(3)])
next
  case (Some fd)
  then have "fd \<in> set foods" by (rule nearest_food_mem)
  then have fb: "in_bounds msize fd"
    using assms(2) by (simp add: list_all_iff)
  have x: "in_range (toward (px e) (px fd)) (fst msize)"
    using assms(1) fb unfolding in_bounds_def by (intro toward_range) simp_all
  have y: "in_range (toward (py e) (py fd)) (snd msize)"
    using assms(1) fb unfolding in_bounds_def by (intro toward_range) simp_all
  show ?thesis
    using Some x y
    unfolding moveTowardsFood_def sgn_nonzero closest_food_nearest [OF assms(3)]
    by (simp add: Let_def set_x_def set_y_def toward_def)
qed

lemma reproduction_spec:
  assumes "in_bounds (map_size w) e" "energy e \<le> 9999"
  shows "reproduction e w = Inr (reproduce_spec (next_id (nEntities w)) e w)"
proof (cases "18 \<le> age e \<and> age e < 60 \<and> 500 \<le> energy e")
  case False
  then show ?thesis
    by (auto simp: reproduction_def reproduce_spec_def in_AGE_REPROD_def MIN_REPROD_def)
next
  case True
  have s: "set_energy (energy e - REPROD) e = e\<lparr>energy := energy e - 200\<rparr>"
    using True assms(2) by (simp add: set_energy_id REPROD_def)
  have "in_range (fst (px e, py e)) (fst (map_size w))" "in_range (snd (px e, py e)) (snd (map_size w))"
    using assms(1) by (simp_all add: in_bounds_def)
  note new = Entity_new_ok [OF this, of ENERGY_DEF 0]
  have ch: "child_of (px e, py e) ENERGY_DEF 0 (nEntities w) =
      \<lparr>px = px e, py = py e, energy = 200, time = 0, age = 0, vrange = 10,
       ident = next_id (nEntities w)\<rparr>"
    by (simp add: child_of_def set_time_def set_energy_def in_range_def TIME_MAX_def
        TIME_IN_AGE_def ENERGY_DEF_def ENERGY_MAX_def RANGE_DEF_def)
  show ?thesis
    using True new
    by (simp add: reproduction_def reproduce_spec_def in_AGE_REPROD_def MIN_REPROD_def s ch Let_def)
qed

lemma eat_first_props:
  assumes "eat_first e fds = (e', fds')"
  shows "px e' = px e \<and> py e' = py e \<and> vrange e' = vrange e \<and> set fds' \<subseteq> set fds \<and>
         (energy e \<le> 9999 \<longrightarrow> energy e' \<le> 9999)"
  using assms
  by (auto simp: eat_first_def split: if_splits option.splits dest: in_set_takeD in_set_dropD)

lemma move_tick_spec:
  assumes en: "energy e \<le> 9999" and vr: "vrange e = 10"
    and eb: "in_bounds (map_size w) e"
    and fb: "list_all (in_bounds (map_size w)) (food_list w)"
    and pt: "list_all (\<lambda>fd. 1 \<le> pts fd) (food_list w)"
  shows "move r e w = Inr (tick_spec r (next_id (nEntities w)) e w)"
proof -
  let ?m = "map_size w"
  let ?cid = "next_id (nEntities w)"
  let ?e1 = "e\<lparr>energy := max 0 (energy e - 1)\<rparr>"
  let ?e2 = "assign_elapsed (time ?e1 + 1) ?e1"
  have s1: "set_energy (max 0 (energy e - 1)) e = ?e1"
    using en by (simp add: set_energy_id)
  have e2: "0 \<le> energy ?e2" "energy ?e2 \<le> 9999" "px ?e2 = px e" "py ?e2 = py e" "vrange ?e2 = 10"
    using en vr by (simp_all add: assign_elapsed_def)
  obtain e3 fds where ef: "eat_first ?e2 (food_list w) = (e3, fds)"
    by (cases "eat_first ?e2 (food_list w)")
  have eat: "eat ?e2 w = (e3, w\<lparr>food_list := fds\<rparr>)"
    using eat_eat_first [OF e2(1) pt] ef by simp
  from eat_first_props [OF ef] e2
  have e3: "px e3 = px e" "py e3 = py e" "vrange e3 = 10" "set fds \<subseteq> set (food_list w)"
    "energy e3 \<le> 9999"
    by simp_all
  let ?w3 = "w\<lparr>food_list := fds\<rparr>"
  have b3: "in_bounds (map_size ?w3) e3"
    using eb e3 by (simp add: in_bounds_def)
  note rep = reproduction_spec [OF b3 e3(5)]
  obtain e4 w4 where rs: "reproduce_spec ?cid e3 ?w3 = (e4, w4)"
    by (cases "reproduce_spec ?cid e3 ?w3")
  then have e4: "px e4 = px e" "py e4 = py e" "vrange e4 = 10" "map_size w4 = ?m"
    "food_list w4 = fds"
    using e3 by (auto simp: reproduce_spec_def split: if_splits)
  have b4: "in_bounds ?m e4"
    using eb e4 by (simp add: in_bounds_def)
  have f4: "list_all (in_bounds ?m) fds"
    using fb e3(4) by (auto simp: list_all_iff)
  note mtf = moveTowardsFood_spec [OF b4 f4 e4(3)]
  have ts: "tick_spec r ?cid e w = (move_spec r ?m e4 fds, w4)"
    using ef rs by (simp add: tick_spec_def Let_def)
  have mv: "move r e w =
      (case moveTowardsFood ?m e4 fds of
         Inl err \<Rightarrow> Inl err
       | Inr (s5, mv) \<Rightarrow>
           (if mv = None then
              (case rdmMove r (map_size w4) s5 of Inl err \<Rightarrow> Inl err | Inr s6 \<Rightarrow> Inr (s6, w4))
            else Inr (s5, w4)))"
    using rep rs e4 eat
    by (simp add: move_def Let_def s1 set_time_assign)
  show ?thesis
  proof (cases "nearest_food e4 fds")
    case None
    then show ?thesis
      unfolding mv mtf ts using rdmMove_random_step [OF b4, of r] e4(4) by (simp add: move_spec_def)
  next
    case (Some fd)
    then show ?thesis
      unfolding mv mtf ts by (simp add: move_spec_def)
  qed
qed

lemma scenario_tick:
  assumes t: "0 \<le> t + 1" "t + 1 < 4000"
  shows "\<exists>e' w'.
     move r \<lparr>px = 2, py = 2, energy = 50, time = t, age = a, vrange = 10, ident = i\<rparr>
       \<lparr>map_size = (5, 5), food_list = [\<lparr>px = 2, py = 2, pts = 100\<rparr>], maxFoods = mf,
        entity_list = es, nEntities = n\<rparr> = Inr (e', w') \<and>
     energy e' = 149 \<and> food_list w' = []"
proof -
  let ?s = "\<lparr>px = 2, py = 2, energy = 149, time = t + 1, age = (t + 1) div 40, vrange = 10, ident = i\<rparr>"
  have "in_bounds (5, 5) ?s"
    by (simp add: in_bounds_def in_range_def)
  from rdmMove_ok [OF this, of r]
  obtain dx dy where rm: "rdmMove r (5, 5) ?s = Inr (?s\<lparr>px := px ?s + dx, py := py ?s + dy\<rparr>)"
    by blast
  show ?thesis
    using t rm
    by (simp add: move_def Let_def set_energy_def set_time_def in_range_def TIME_MAX_def
        TIME_IN_AGE_def ENERGY_MAX_def eat_def reproduction_def MIN_REPROD_def
        moveTowardsFood_def)
qed

lemma scenario_tick_reset:
  assumes t: "\<not> (0 \<le> t + 1 \<and> t + 1 < 4000)"
  shows "\<exists>e' w'.
     move r \<lparr>px = 2, py = 2, energy = 50, time = t, age = a, vrange = 10, ident = i\<rparr>
       \<lparr>map_size = (5, 5), food_list = [\<lparr>px = 2, py = 2, pts = 100\<rparr>], maxFoods = mf,
        entity_list = es, nEntities = n\<rparr> = Inr (e', w') \<and>
     energy e' = 100 \<and> time e' = - 1 \<and> food_list w' = []"
proof -
  let ?s = "\<lparr>px = 2, py = 2, energy = 100, time = - 1, age = 0, vrange = 10, ident = i\<rparr>"
  have "in_bounds (5, 5) ?s"
    by (simp add: in_bounds_def in_range_def)
  from rdmMove_ok [OF this, of r]
  obtain dx dy where rm: "rdmMove r (5, 5) ?s = Inr (?s\<lparr>px := px ?s + dx, py := py ?s + dy\<rparr>)"
    by blast
  have "\<not> in_range (t + 1) TIME_MAX"
    using t by (simp add: in_range_def TIME_MAX_def)
  then show ?thesis
    using rm
    by (simp add: move_def Let_def set_energy_def set_time_def
        ENERGY_MAX_def eat_def reproduction_def in_AGE_REPROD_def
        moveTowardsFood_def)
qed

text \<open>
  C3 as stated fails for an agent whose elapsed-time is 3999: step 2 does not add one
  but resets the agent (time \<open>- 1\<close>, energy 0, age 0), so that in the scenario of the
  claim (agent at (2,2) with energy 50 on a 5x5 map, one food of 100 points at (2,2))
  the energy after the tick is 100, not 149.
\<close>

theorem C3_time_3999_counterexample:
  "move 7 \<lparr>px = 2, py = 2, energy = 50, time = 3999, age = 99, vrange = 10, ident = 1\<rparr>
      \<lparr>map_size = (5, 5), food_list = [\<lparr>px = 2, py = 2, pts = 100\<rparr>], maxFoods = 2,
       entity_list = [], nEntities = 1\<rparr> =
   Inr (\<lparr>px = 3, py = 2, energy = 100, time = - 1, age = 0, vrange = 10, ident = 1\<rparr>,
        \<lparr>map_size = (5, 5), food_list = [], maxFoods = 2, entity_list = [], nEntities = 1\<rparr>)"
  by code_simp

text \<open>
  C3, amended. For an agent and foods on the map, with an energy of 9999 at most, the
  foraging range 10 and foods of 1 point at least, one call of the per-agent tick
  (\<^verbatim>\<open>Entity.move\<close>) returns without raising and does exactly the five steps of
  \<open>tick_spec\<close> in their order: energy minus 1 floored at 0; elapsed-time assigned its
  value plus 1 under the domain rule (stored with the age recomputed when it lies in
  \<open>[0, 4000)\<close>, otherwise time \<open>- 1\<close> with energy and age 0); the first food in list
  order on the agent's cell eaten and removed when the energy is below 9999; the
  reproduction, whose child takes the next id of the creation counter; the move toward
  the nearest food within range, or the random move. In the scenario of the claim the
  agent ends its tick with energy 149 and no food left whenever its elapsed-time plus 1
  lies in \<open>[0, 4000)\<close>, and with energy 100 and time \<open>- 1\<close> otherwise, whatever the random
  draw.
\<close>

theorem C3_tick_steps:
  "(energy e \<le> 9999 \<and> vrange e = 10 \<and> in_bounds (map_size w) e \<and>
    list_all (in_bounds (map_size w)) (food_list w) \<and>
    list_all (\<lambda>fd. 1 \<le> pts fd) (food_list w) \<longrightarrow>
      move r e w = Inr (tick_spec r (next_id (nEntities w)) e w)) \<and>
   (0 \<le> t + 1 \<and> t + 1 < 4000 \<longrightarrow>
      (\<exists>e' w'.
         move r \<lparr>px = 2, py = 2, energy = 50, time = t, age = a, vrange = 10, ident = i\<rparr>
           \<lparr>map_size = (5, 5), food_list = [\<lparr>px = 2, py = 2, pts = 100\<rparr>], maxFoods = mf,
            entity_list = es, nEntities = n\<rparr> = Inr (e', w') \<and>
         energy e' = 149 \<and> food_list w' = [])) \<and>
   (\<not> (0 \<le> u + 1 \<and> u + 1 < 4000) \<longrightarrow>
      (\<exists>e' w'.
         move r \<lparr>px = 2, py = 2, energy = 50, time = u, age = a, vrange = 10, ident = i\<rparr>
           \<lparr>map_size = (5, 5), food_list = [\<lparr>px = 2, py = 2, pts = 100\<rparr>], maxFoods = mf,
            entity_list = es, nEntities = n\<rparr> = Inr (e', w') \<and>
         energy e' = 100 \<and> time e' = - 1 \<and> food_list w' = []))"
  using move_tick_spec [of e w r] scenario_tick [of t r a i mf es n]
    scenario_tick_reset [of u r a i mf es n]
  by blast

theorem C3_tick_steps_witness:
  "move 3 \<lparr>px = 1, py = 1, energy = 700, time = 799, age = 19, vrange = 10, ident = 1\<rparr>
      \<lparr>map_size = (5, 5),
       food_list = [\<lparr>px = 4, py = 4, pts = 30\<rparr>, \<lparr>px = 1, py = 1, pts = 100\<rparr>,
                    \<lparr>px = 3, py = 1, pts = 20\<rparr>, \<lparr>px = 1, py = 3, pts = 10\<rparr>],
       maxFoods = 2,
       entity_list = [\<lparr>px = 1, py = 1, energy = 700, time = 799, age = 19, vrange = 10, ident = 1\<rparr>],
       nEntities = 1\<rparr> =
   Inr (\<lparr>px = 2, py = 1, energy = 599, time = 800, age = 20, vrange = 10, ident = 1\<rparr>,
        \<lparr>map_size = (5, 5),
         food_list = [\<lparr>px = 4, py = 4, pts = 30\<rparr>, \<lparr>px = 3, py = 1, pts = 20\<rparr>,
                      \<lparr>px = 1, py = 3, pts = 10\<rparr>],
         maxFoods = 2,
         entity_list =
           [\<lparr>px = 1, py = 1, energy = 700, time = 799, age = 19, vrange = 10, ident = 1\<rparr>,
            \<lparr>px = 1, py = 1, energy = 200, time = 0, age = 0, vrange = 10, ident = 2\<rparr>],
         nEntities = 2\<rparr>) \<and>
   (\<exists>e' w'.
      move 3 \<lparr>px = 2, py = 2, energy = 50, time = 0, age = 0, vrange = 10, ident = 1\<rparr>
        \<lparr>map_size = (5, 5), food_list = [\<lparr>px = 2, py = 2, pts = 100\<rparr>], maxFoods = 2,
         entity_list = [], nEntities = 1\<rparr> = Inr (e', w') \<and>
      energy e' = 149 \<and> food_list w' = []) \<and>
   (\<exists>e' w'.
      move 3 \<lparr>px = 2, py = 2, energy = 50, time = 3999, age = 0, vrange = 10, ident = 1\<rparr>
        \<lparr>map_size = (5, 5), food_list = [\<lparr>px = 2, py = 2, pts = 100\<rparr>], maxFoods = 2,
         entity_list = [], nEntities = 1\<rparr> = Inr (e', w') \<and>
      energy e' = 100 \<and> time e' = - 1 \<and> food_list w' = [])"
proof -
  let ?e = "\<lparr>px = 1, py = 1, energy = 700, time = 799, age = 19, vrange = 10, ident = 1\<rparr>"
  let ?w = "\<lparr>map_size = (5, 5),
       food_list = [\<lparr>px = 4, py = 4, pts = 30\<rparr>, \<lparr>px = 1, py = 1, pts = 100\<rparr>,
                    \<lparr>px = 3, py = 1, pts = 20\<rparr>, \<lparr>px = 1, py = 3, pts = 10\<rparr>],
       maxFoods = 2, entity_list = [?e], nEntities = 1\<rparr>"
  have h: "energy ?e \<le> 9999 \<and> vrange ?e = 10 \<and> in_bounds (map_size ?w) ?e \<and>
    list_all (in_bounds (map_size ?w)) (food_list ?w) \<and>
    list_all (\<lambda>fd. 1 \<le> pts fd) (food_list ?w)"
    by (simp add: in_bounds_def in_range_def)
  have v: "tick_spec 3 (next_id (nEntities ?w)) ?e ?w =
     (\<lparr>px = 2, py = 1, energy = 599, time = 800, age = 20, vrange = 10, ident = 1\<rparr>,
        \<lparr>map_size = (5, 5),
         food_list = [\<lparr>px = 4, py = 4, pts = 30\<rparr>, \<lparr>px = 3, py = 1, pts = 20\<rparr>,
                      \<lparr>px = 1, py = 3, pts = 10\<rparr>],
         maxFoods = 2,
         entity_list = [?e, \<lparr>px = 1, py = 1, energy = 200, time = 0, age = 0, vrange = 10, ident = 2\<rparr>],
         nEntities = 2\<rparr>)"
    by code_simp
  have a: "(0::int) \<le> 0 + 1 \<and> (0::int) + 1 < 4000"
    by simp
  have b: "\<not> ((0::int) \<le> 3999 + 1 \<and> (3999::int) + 1 < 4000)"
    by simp
  from C3_tick_steps [of ?e ?w 3 0 0 1 2 "[]" 1 3999] h a b show ?thesis
    unfolding v by blast
qed

subsection \<open>Coordinates are validated, never clamped\<close>

lemma Food_new_bounds:
  "Food_new c p w = Inr w' \<Longrightarrow> all_in_bounds w \<Longrightarrow> all_in_bounds w'"
  by (cases c)
    (auto simp: Food_new_def Food_init_def Element_init_def all_in_bounds_def in_bounds_def
      set_pts_def split: if_splits)

lemma Entity_new_bounds:
  "Entity_new c en t w = Inr w' \<Longrightarrow> all_in_bounds w \<Longrightarrow> all_in_bounds w'"
  by (cases c)
    (auto simp: Entity_new_def Entity_init_def Element_init_def all_in_bounds_def in_bounds_def
      Let_def set_time_def set_energy_def split: if_splits)

lemma init_rejects:
  "\<not> (in_range (fst c) (fst m) \<and> in_range (snd c) (snd m)) \<Longrightarrow>
     (\<exists>err. Food_init m c p = Inl err) \<and> (\<exists>err. Entity_init m n c en t = Inl err)"
  by (auto simp: Food_init_def Entity_init_def Element_init_def)

lemma coordinates_validated:
  "(\<not> in_range v (fst m) \<longrightarrow> set_x m v el = Inl (ValueError ''x'')) \<and>
   (in_range v (fst m) \<longrightarrow> set_x m v el = Inr (el\<lparr>px := v\<rparr>)) \<and>
   (\<not> in_range v (snd m) \<longrightarrow> set_y m v el = Inl (ValueError ''y'')) \<and>
   (in_range v (snd m) \<longrightarrow> set_y m v el = Inr (el\<lparr>py := v\<rparr>)) \<and>
   (\<not> (in_range (fst c) (fst m) \<and> in_range (snd c) (snd m)) \<longrightarrow>
      (\<exists>err. Food_init m c p = Inl err) \<and> (\<exists>err. Entity_init m n c en t = Inl err)) \<and>
   (all_in_bounds w \<and> Food_new c p w = Inr w1 \<longrightarrow> all_in_bounds w1) \<and>
   (all_in_bounds w \<and> Entity_new c en t w = Inr w2 \<longrightarrow> all_in_bounds w2) \<and>
   (in_bounds m e \<and> list_all (in_bounds m) foods \<longrightarrow>
      (\<exists>x' y' mv. moveTowardsFood m e foods = Inr (e\<lparr>px := x', py := y'\<rparr>, mv) \<and>
         in_range x' (fst m) \<and> in_range y' (snd m))) \<and>
   (in_bounds m e \<longrightarrow>
      (0, 0) \<in> set (possibleMoves m e) \<and>
      (\<exists>dx dy. dx \<in> {- 1, 0, 1} \<and> dy \<in> {- 1, 0, 1} \<and>
         rdmMove r m e = Inr (e\<lparr>px := px e + dx, py := py e + dy\<rparr>) \<and>
         in_range (px e + dx) (fst m) \<and> in_range (py e + dy) (snd m))) \<and>
   (in_bounds (map_size w) e \<and> all_in_bounds w \<longrightarrow>
      (\<exists>e' w'. move r e w = Inr (e', w') \<and> map_size w' = map_size w \<and>
         in_bounds (map_size w) e' \<and> all_in_bounds w'))"
proof -
  have sx: "\<not> in_range v (fst m) \<longrightarrow> set_x m v el = Inl (ValueError ''x'')"
    "in_range v (fst m) \<longrightarrow> set_x m v el = Inr (el\<lparr>px := v\<rparr>)"
    by (simp_all add: set_x_def)
  have sy: "\<not> in_range v (snd m) \<longrightarrow> set_y m v el = Inl (ValueError ''y'')"
    "in_range v (snd m) \<longrightarrow> set_y m v el = Inr (el\<lparr>py := v\<rparr>)"
    by (simp_all add: set_y_def)
  have mt: "in_bounds m e \<and> list_all (in_bounds m) foods \<longrightarrow>
      (\<exists>x' y' mv. moveTowardsFood m e foods = Inr (e\<lparr>px := x', py := y'\<rparr>, mv) \<and>
         in_range x' (fst m) \<and> in_range y' (snd m))"
    using moveTowardsFood_ok [of m e foods] by blast
  have rm: "in_bounds m e \<longrightarrow>
      (0, 0) \<in> set (possibleMoves m e) \<and>
      (\<exists>dx dy. dx \<in> {- 1, 0, 1} \<and> dy \<in> {- 1, 0, 1} \<and>
         rdmMove r m e = Inr (e\<lparr>px := px e + dx, py := py e + dy\<rparr>) \<and>
         in_range (px e + dx) (fst m) \<and> in_range (py e + dy) (snd m))"
  proof
    assume b: "in_bounds m e"
    from rdmMove_ok [OF b, of r] obtain dx dy where
      "(dx, dy) \<in> set (possibleMoves m e)"
      "rdmMove r m e = Inr (e\<lparr>px := px e + dx, py := py e + dy\<rparr>)" by blast
    then have "\<exists>dx dy. dx \<in> {- 1, 0, 1} \<and> dy \<in> {- 1, 0, 1} \<and>
         rdmMove r m e = Inr (e\<lparr>px := px e + dx, py := py e + dy\<rparr>) \<and>
         in_range (px e + dx) (fst m) \<and> in_range (py e + dy) (snd m)"
      unfolding possibleMoves_set by blast
    with possibleMoves_stay [OF b]
    show "(0, 0) \<in> set (possibleMoves m e) \<and>
      (\<exists>dx dy. dx \<in> {- 1, 0, 1} \<and> dy \<in> {- 1, 0, 1} \<and>
         rdmMove r m e = Inr (e\<lparr>px := px e + dx, py := py e + dy\<rparr>) \<and>
         in_range (px e + dx) (fst m) \<and> in_range (py e + dy) (snd m))" by blast
  qed
  have mv: "in_bounds (map_size w) e \<and> all_in_bounds w \<longrightarrow>
      (\<exists>e' w'. move r e w = Inr (e', w') \<and> map_size w' = map_size w \<and>
         in_bounds (map_size w) e' \<and> all_in_bounds w')"
    using move_ok [of w e r] by blast
  show ?thesis
    using sx sy init_rejects [of c m p n en t] Food_new_bounds [of c p w w1]
      Entity_new_bounds [of c en t w w2] mt rm mv
    by blast
qed

subsection \<open>Saving writes the layout up to the first field that does not fit\<close>

lemma then_do_assoc: "then_do (then_do a b) c = then_do a (then_do b c)"
  by (rule ext) (simp add: then_do_def split: prod.splits option.splits)

lemma write_fields_cons:
  "write_fields ((sz, v, name) # fls) = then_do (write_int sz v name) (write_fields fls)"
  by (rule ext) simp

lemma write_fields_nil: "then_do a (write_fields []) = a"
  by (rule ext) (simp add: then_do_def split: prod.splits option.splits)

lemma write_fields_append:
  "write_fields (xs @ ys) = then_do (write_fields xs) (write_fields ys)"
proof (induction xs)
  case Nil
  show ?case by (rule ext) (simp add: then_do_def)
next
  case (Cons a xs)
  obtain sz v name where a: "a = (sz, v, name)" by (cases a)
  show ?case
    unfolding a append_Cons write_fields_cons Cons.IH then_do_assoc ..
qed

lemma write_food_loop_fields:
  "write_food_loop fds = write_fields (concat (map food_fields fds))"
proof (induction fds)
  case Nil
  show ?case by (rule ext) simp
next
  case (Cons fd fds)
  have "write_food_loop (fd # fds) =
      then_do (write_int NBYTES_PTS (pts fd) ''food.pts'')
       (then_do (write_int NBYTES_COORD (px fd) ''food.x'')
         (then_do (write_int NBYTES_COORD (py fd) ''food.y'')
           (write_food_loop fds)))"
    by (rule ext) simp
  then show ?case
    by (simp add: Cons.IH food_fields_def NBYTES_PTS_def NBYTES_COORD_def write_fields_cons
        del: write_fields.simps)
qed

lemma write_entity_loop_fields:
  "write_entity_loop es = write_fields (concat (map entity_fields es))"
proof (induction es)
  case Nil
  show ?case by (rule ext) simp
next
  case (Cons e es)
  have "write_entity_loop (e # es) =
     then_do (write_int NBYTES_ID (ident e) ''entity.id'')
       (then_do (write_int NBYTES_COORD (px e) ''entity.x'')
         (then_do (write_int NBYTES_COORD (py e) ''entity.y'')
           (then_do (write_int NBYTES_ENERGY (energy e) ''entity.energy'')
             (then_do (write_int NBYTES_TIME (time e) ''entity.time'')
               (write_entity_loop es)))))"
    by (rule ext) simp
  then show ?case
    by (simp add: Cons.IH entity_fields_def NBYTES_ID_def NBYTES_COORD_def NBYTES_ENERGY_def
        NBYTES_TIME_def write_fields_cons del: write_fields.simps)
qed

lemma write_fields_char:
  "write_fields fls f0 = (first_unfit fls, f0 @ encode_fields (takeWhile field_fits fls))"
proof (induction fls arbitrary: f0)
  case Nil
  show ?case by (simp add: first_unfit_def encode_fields_def)
next
  case (Cons a fls)
  obtain sz v name where a: "a = (sz, v, name)" by (cases a)
  show ?case
    by (simp add: a then_do_def write_int_def Cons.IH first_unfit_def encode_fields_def
        field_fits_def encode_field_def)
qed

lemma save_writes_layout:
  "then_do (write_int Save_NBYTES_TIME stop ''file.last_loading'')
     (then_do (write_int Save_NBYTES_TIME (s_time self + (stop - s_starting self)) ''file.sim_time'')
       (then_do (write_int NBYTES_COORD (fst (map_size w)) ''map.size_x'')
         (then_do (write_int NBYTES_COORD (snd (map_size w)) ''map.size_y'')
           (then_do (write_food (food_list w))
             (write_entity (entity_list w)))))) = write_fields (record_layout stop self w)"
  unfolding record_layout_def header_fields_def write_food_def write_entity_def
    write_food_loop_fields write_entity_loop_fields append_Cons append_Nil
    write_fields_cons write_fields_append write_fields_nil then_do_assoc
  by (simp add: Save_NBYTES_TIME_def NBYTES_COORD_def NBYTES_PTS_def NBYTES_ID_def)

lemma save_char:
  "save now1 now2 self w fs =
     (first_unfit (record_layout (stop_time now1 now2 fs) self w),
      \<lparr>target = Some (encode_fields (takeWhile field_fits
                   (record_layout (stop_time now1 now2 fs) self w))),
       backup = (case target fs of None \<Rightarrow> backup fs | Some content \<Rightarrow> Some content)\<rparr>)"
  by (cases "target fs")
    (simp_all add: save_def save_writes_layout write_fields_char stop_time_def)



lemma first_unfit_Some:
  "\<not> list_all field_fits fls \<Longrightarrow>
     \<exists>sz v name. find (\<lambda>fl. \<not> field_fits fl) fls = Some (sz, v, name) \<and>
        first_unfit fls = Some (ValueError name)"
proof -
  assume "\<not> list_all field_fits fls"
  then have "find (\<lambda>fl. \<not> field_fits fl) fls \<noteq> None"
    by (auto simp: find_None_iff list_all_iff)
  then obtain fl where "find (\<lambda>fl. \<not> field_fits fl) fls = Some fl"
    by blast
  then show ?thesis
    by (cases fl) (simp add: first_unfit_def)
qed

lemma first_unfit_at:
  "list_all field_fits xs \<Longrightarrow> \<not> fits sz v \<Longrightarrow>
     first_unfit (xs @ (sz, v, name) # ys) = Some (ValueError name)"
  by (induction xs) (simp_all add: first_unfit_def field_fits_def)

text \<open>
  C2 as stated fails: a save that raises on a field has already truncated the target
  file and written the fields before it. Here the old content is three bytes, the only
  agent has the reset time \<open>- 1\<close>, and after the failed save the file holds the 30
  bytes that precede the agent's time field: neither the old content nor a whole
  record.
\<close>

theorem C2_partial_write_counterexample:
  "save 1010 1011 \<lparr>s_last = 0, s_time = 5, s_age = 0, s_starting = 1000\<rparr>
     \<lparr>map_size = (5, 5), food_list = [], maxFoods = 2,
      entity_list = [\<lparr>px = 1, py = 3, energy = 0, time = - 1, age = 0, vrange = 10, ident = 1\<rparr>],
      nEntities = 1\<rparr>
     \<lparr>target = Some [1, 2, 3], backup = None\<rparr> =
   (Some (ValueError ''entity.time''),
    \<lparr>target = Some [0, 0, 0, 0, 0, 0, 3, 242, 0, 0, 0, 0, 0, 0, 0, 15, 0, 5, 0, 5, 0, 0,
                   0, 1, 0, 1, 0, 3, 0, 0],
     backup = Some [1, 2, 3]\<rparr>)"
  by code_simp

text \<open>
  C2, amended. When some field of the record does not fit its width, \<^verbatim>\<open>Save.save\<close>
  raises the value-range error of the first such field in layout order; the target
  file then holds exactly the bytes of the fields before that one (it was truncated when
  opened), and the content it had before the call, if any, is in the backup file.
\<close>

theorem C2_save_fails_at_first_unfit:
  "\<not> list_all field_fits (record_layout (stop_time now1 now2 fs) self w) \<longrightarrow>
     (\<exists>sz v name.
        find (\<lambda>fl. \<not> field_fits fl) (record_layout (stop_time now1 now2 fs) self w) =
          Some (sz, v, name) \<and>
        save now1 now2 self w fs =
          (Some (ValueError name),
           \<lparr>target = Some (encode_fields (takeWhile field_fits
                       (record_layout (stop_time now1 now2 fs) self w))),
            backup = (case target fs of None \<Rightarrow> backup fs | Some content \<Rightarrow> Some content)\<rparr>))"
  using first_unfit_Some [of "record_layout (stop_time now1 now2 fs) self w"]
  by (auto simp: save_char)

theorem C2_save_fails_at_first_unfit_witness:
  "\<exists>sz v name.
     find (\<lambda>fl. \<not> field_fits fl)
       (record_layout 1010 \<lparr>s_last = 0, s_time = 5, s_age = 0, s_starting = 1000\<rparr>
          \<lparr>map_size = (5, 5), food_list = [\<lparr>px = 0, py = 0, pts = 65536\<rparr>], maxFoods = 2,
           entity_list = [], nEntities = 0\<rparr>) = Some (sz, v, name) \<and>
     save 1010 1011 \<lparr>s_last = 0, s_time = 5, s_age = 0, s_starting = 1000\<rparr>
       \<lparr>map_size = (5, 5), food_list = [\<lparr>px = 0, py = 0, pts = 65536\<rparr>], maxFoods = 2,
        entity_list = [], nEntities = 0\<rparr>
       \<lparr>target = Some [1, 2, 3], backup = None\<rparr> =
     (Some (ValueError name),
      \<lparr>target = Some (encode_fields (takeWhile field_fits
           (record_layout 1010 \<lparr>s_last = 0, s_time = 5, s_age = 0, s_starting = 1000\<rparr>
              \<lparr>map_size = (5, 5), food_list = [\<lparr>px = 0, py = 0, pts = 65536\<rparr>], maxFoods = 2,
               entity_list = [], nEntities = 0\<rparr>))),
       backup = Some [1, 2, 3]\<rparr>)"
proof -
  let ?S = "\<lparr>s_last = 0, s_time = 5, s_age = 0, s_starting = 1000\<rparr>"
  let ?W = "\<lparr>map_size = (5, 5), food_list = [\<lparr>px = 0, py = 0, pts = 65536\<rparr>], maxFoods = 2,
           entity_list = [], nEntities = 0\<rparr>"
  let ?F = "\<lparr>target = Some [1, 2, 3], backup = None\<rparr>"
  have st: "stop_time 1010 1011 ?F = 1010"
    by (simp add: stop_time_def)
  have "\<not> list_all field_fits (record_layout (stop_time 1010 1011 ?F) ?S ?W)"
    by (simp add: st record_layout_def header_fields_def food_fields_def field_fits_def fits_def)
  with C2_save_fails_at_first_unfit [of 1010 1011 ?F ?S ?W] show ?thesis
    by (simp add: st)
qed

text \<open>
  C10 as stated fails when an earlier field does not fit either: the error then names
  that field. Here the first agent has id 65536 and the second the reset time \<open>- 1\<close>.
\<close>

theorem C10_other_field_first_counterexample:
  "fst (save 1010 1011 \<lparr>s_last = 0, s_time = 5, s_age = 0, s_starting = 1000\<rparr>
     \<lparr>map_size = (5, 5), food_list = [], maxFoods = 2,
      entity_list =
        [\<lparr>px = 2, py = 2, energy = 200, time = 0, age = 0, vrange = 10, ident = 65536\<rparr>,
         \<lparr>px = 1, py = 3, energy = 0, time = - 1, age = 0, vrange = 10, ident = 1\<rparr>],
      nEntities = 1\<rparr>
     \<lparr>target = None, backup = None\<rparr>) = Some (ValueError ''entity.id'')"
  by code_simp

text \<open>
  C10, amended. An agent in the live list whose time is the reset value \<open>- 1\<close> makes
  every \<^verbatim>\<open>Save.save\<close> raise a value-range error, so the whole save fails; the error
  is the one of that agent's \<open>entity.time\<close> field whenever every field written before
  it fits its width.
\<close>

theorem C10_reset_time_fails_save:
  "(e \<in> set (entity_list w) \<and> time e = - 1 \<longrightarrow>
      (\<exists>name. fst (save now1 now2 self w fs) = Some (ValueError name))) \<and>
   (entity_list w = es1 @ e # es2 \<and> time e = - 1 \<and>
    list_all field_fits
      (header_fields (stop_time now1 now2 fs) self w @
       concat (map food_fields (food_list w)) @ concat (map entity_fields es1) @
       [(2, ident e, ''entity.id''), (2, px e, ''entity.x''), (2, py e, ''entity.y''),
        (2, energy e, ''entity.energy'')]) \<longrightarrow>
      fst (save now1 now2 self w fs) = Some (ValueError ''entity.time''))"
proof (intro conjI impI)
  let ?stop = "stop_time now1 now2 fs"
  assume a: "e \<in> set (entity_list w) \<and> time e = - 1"
  then have "(2, - 1, ''entity.time'') \<in> set (record_layout ?stop self w)"
    by (force simp: record_layout_def entity_fields_def)
  moreover have "\<not> field_fits (2, - 1, ''entity.time'')"
    by (simp add: field_fits_def fits_def)
  ultimately have "\<not> list_all field_fits (record_layout ?stop self w)"
    by (auto simp: list_all_iff)
  from first_unfit_Some [OF this]
  show "\<exists>name. fst (save now1 now2 self w fs) = Some (ValueError name)"
    by (auto simp: save_char)
next
  let ?stop = "stop_time now1 now2 fs"
  let ?pre = "header_fields ?stop self w @
       concat (map food_fields (food_list w)) @ concat (map entity_fields es1) @
       [(2, ident e, ''entity.id''), (2, px e, ''entity.x''), (2, py e, ''entity.y''),
        (2, energy e, ''entity.energy'')]"
  assume a: "entity_list w = es1 @ e # es2 \<and> time e = - 1 \<and> list_all field_fits ?pre"
  have fe: "field_fits (2, 0, ''food.end'')"
    by (simp add: field_fits_def fits_def)
  let ?pre' = "header_fields ?stop self w @
       concat (map food_fields (food_list w)) @ [(2, 0, ''food.end'')] @
       concat (map entity_fields es1) @
       [(2, ident e, ''entity.id''), (2, px e, ''entity.x''), (2, py e, ''entity.y''),
        (2, energy e, ''entity.energy'')]"
  have pre: "list_all field_fits ?pre'"
    using a fe by simp
  have lay: "record_layout ?stop self w =
      ?pre' @ (2, - 1, ''entity.time'') # (concat (map entity_fields es2) @ [(2, 0, ''entity.end'')])"
    using a by (simp add: record_layout_def entity_fields_def)
  have "\<not> fits 2 (- 1)"
    by (simp add: fits_def)
  from first_unfit_at [OF pre this]
  show "fst (save now1 now2 self w fs) = Some (ValueError ''entity.time'')"
    unfolding save_char lay by simp
qed

theorem C10_reset_time_fails_save_witness:
  "(\<exists>name. fst (save 1010 1011 \<lparr>s_last = 0, s_time = 5, s_age = 0, s_starting = 1000\<rparr>
      \<lparr>map_size = (5, 5), food_list = [\<lparr>px = 0, py = 0, pts = 100\<rparr>], maxFoods = 2,
       entity_list = [\<lparr>px = 1, py = 3, energy = 0, time = - 1, age = 0, vrange = 10, ident = 7\<rparr>],
       nEntities = 7\<rparr>
      \<lparr>target = None, backup = None\<rparr>) = Some (ValueError name)) \<and>
   fst (save 1010 1011 \<lparr>s_last = 0, s_time = 5, s_age = 0, s_starting = 1000\<rparr>
      \<lparr>map_size = (5, 5), food_list = [\<lparr>px = 0, py = 0, pts = 100\<rparr>], maxFoods = 2,
       entity_list = [\<lparr>px = 1, py = 3, energy = 0, time = - 1, age = 0, vrange = 10, ident = 7\<rparr>],
       nEntities = 7\<rparr>
      \<lparr>target = None, backup = None\<rparr>) = Some (ValueError ''entity.time'')"
proof -
  let ?S = "\<lparr>s_last = 0, s_time = 5, s_age = 0, s_starting = 1000\<rparr>"
  let ?e = "\<lparr>px = 1, py = 3, energy = 0, time = - 1, age = 0, vrange = 10, ident = 7\<rparr>"
  let ?W = "\<lparr>map_size = (5, 5), food_list = [\<lparr>px = 0, py = 0, pts = 100\<rparr>], maxFoods = 2,
       entity_list = [?e], nEntities = 7\<rparr>"
  let ?F = "\<lparr>target = None, backup = None\<rparr>"
  have a: "?e \<in> set (entity_list ?W) \<and> time ?e = - 1"
    by simp
  have b: "entity_list ?W = [] @ ?e # [] \<and> time ?e = - 1 \<and>
    list_all field_fits
      (header_fields (stop_time 1010 1011 ?F) ?S ?W @
       concat (map food_fields (food_list ?W)) @ concat (map entity_fields []) @
       [(2, ident ?e, ''entity.id''), (2, px ?e, ''entity.x''), (2, py ?e, ''entity.y''),
        (2, energy ?e, ''entity.energy'')])"
    by (simp add: stop_time_def header_fields_def food_fields_def field_fits_def fits_def)
  from C10_reset_time_fails_save [of ?e ?W 1010 1011 ?S ?F "[]" "[]"] a b show ?thesis
    by blast
qed

subsection \<open>Loading what was saved\<close>

lemma length_to_bytes [simp]: "length (to_bytes n v) = n"
  by (induction n arbitrary: v) simp_all

lemma from_bytes_snoc: "from_bytes (bs @ [b]) = from_bytes bs * 256 + unat b"
  by (simp add: from_bytes_def)

lemma unat_byte: "unat (of_nat (v mod 256) :: byte) = v mod 256"
  by (simp add: unat_of_nat)

lemma from_bytes_to_bytes: "v < 256 ^ n \<Longrightarrow> from_bytes (to_bytes n v) = v"
proof (induction n arbitrary: v)
  case 0
  then show ?case by (simp add: from_bytes_def)
next
  case (Suc n)
  from Suc.prems have "v div 256 < 256 ^ n"
    by (simp add: less_mult_imp_div_less mult.commute)
  then have "from_bytes (to_bytes n (v div 256)) = v div 256"
    by (rule Suc.IH)
  then show ?case
    by (simp add: from_bytes_snoc unat_byte)
qed

lemma fits_nat: "fits sz v \<Longrightarrow> nat v < 256 ^ sz"
proof -
  assume f: "fits sz v"
  have "(2::int) ^ (sz * 8) = 256 ^ sz"
    by (simp add: power_mult mult.commute [of sz 8])
  then have "v < 256 ^ sz" "0 \<le> v" using f by (simp_all add: fits_def)
  then show ?thesis
    by (metis nat_less_iff of_nat_numeral of_nat_power)
qed

lemma read_int_encoded:
  assumes "fits sz v"
  shows "read_int sz name (to_bytes sz (nat v) @ rest) = Inr (v, rest)"
proof -
  have "from_bytes (to_bytes sz (nat v)) = nat v"
    using fits_nat [OF assms] by (rule from_bytes_to_bytes)
  moreover have "0 \<le> v" using assms by (simp add: fits_def)
  ultimately show ?thesis
    by (simp add: read_int_def Let_def)
qed

lemma encode_fields_append [simp]:
  "encode_fields (xs @ ys) = encode_fields xs @ encode_fields ys"
  by (simp add: encode_fields_def)

lemma encode_fields_Cons:
  "encode_fields ((sz, v, name) # fls) = to_bytes sz (nat v) @ encode_fields fls"
  by (simp add: encode_fields_def encode_field_def)

lemma encode_fields_Nil [simp]: "encode_fields [] = []"
  by (simp add: encode_fields_def)

lemma Food_new_inv:
  assumes "in_bounds (map_size w) fd" "food_inv fd"
  shows "Food_new (px fd, py fd) (pts fd) w = Inr (w\<lparr>food_list := food_list w @ [fd]\<rparr>)"
  using assms
  by (simp add: Food_new_def Food_init_def Element_init_def in_bounds_def food_inv_def set_pts_def)

lemma read_food_loop_encoded:
  assumes "list_all (\<lambda>fd. in_bounds (map_size w) fd \<and> food_inv fd) fds"
    and "list_all field_fits (concat (map food_fields fds))"
  shows "read_food_loop (encode_fields (concat (map food_fields fds)) @ to_bytes 2 0 @ rest) w =
           (None, w\<lparr>food_list := food_list w @ fds\<rparr>, rest)"
  using assms
proof (induction fds arbitrary: w)
  case Nil
  have "fits 2 0" by (simp add: fits_def)
  from read_int_encoded [OF this, of "''food.pts''" rest]
  show ?case
    by (subst read_food_loop.simps) (simp add: NBYTES_PTS_def)
next
  case (Cons fd fds)
  let ?tail = "encode_fields (concat (map food_fields fds)) @ to_bytes 2 0 @ rest"
  have f: "fits 2 (pts fd)" "fits 2 (px fd)" "fits 2 (py fd)"
    using Cons.prems(2) by (simp_all add: food_fields_def field_fits_def)
  have inv: "in_bounds (map_size w) fd" "food_inv fd"
    using Cons.prems(1) by simp_all
  have nz: "pts fd \<noteq> 0" using inv by (simp add: food_inv_def)
  let ?w' = "w\<lparr>food_list := food_list w @ [fd]\<rparr>"
  have ih: "read_food_loop ?tail ?w' = (None, ?w'\<lparr>food_list := food_list ?w' @ fds\<rparr>, rest)"
    using Cons.prems by (intro Cons.IH) simp_all
  have bytes: "encode_fields (concat (map food_fields (fd # fds))) @ to_bytes 2 0 @ rest =
      to_bytes 2 (nat (pts fd)) @ to_bytes 2 (nat (px fd)) @ to_bytes 2 (nat (py fd)) @ ?tail"
    by (simp add: food_fields_def encode_fields_Cons)
  show ?case
    unfolding bytes
    by (subst read_food_loop.simps)
      (simp add: NBYTES_PTS_def NBYTES_COORD_def read_int_encoded [OF f(1)]
        read_int_encoded [OF f(2)] read_int_encoded [OF f(3)] nz Food_new_inv [OF inv] ih)
qed

lemma Entity_new_inv:
  assumes "in_bounds (map_size w) e" "entity_inv e" "0 \<le> time e"
  shows "Entity_new (px e, py e) (energy e) (time e) w =
           Inr (w\<lparr>entity_list := entity_list w @ [e\<lparr>ident := next_id (nEntities w)\<rparr>],
                  nEntities := next_id (nEntities w)\<rparr>)"
proof -
  have "child_of (px e, py e) (energy e) (time e) (nEntities w) = e\<lparr>ident := next_id (nEntities w)\<rparr>"
    using assms(2,3)
    by (cases e) (simp add: child_of_def entity_inv_def set_energy_def set_time_def split: if_splits)
  then show ?thesis
    using assms(1) Entity_new_ok [of "(px e, py e)" w "energy e" "time e"]
    by (simp add: in_bounds_def)
qed

lemma read_entity_loop_encoded:
  assumes "list_all (\<lambda>e. in_bounds (map_size w) e \<and> entity_inv e) es"
    and "list_all field_fits (concat (map entity_fields es))"
  shows "read_entity_loop (encode_fields (concat (map entity_fields es)) @ to_bytes 2 0 @ rest) w =
           (None, w\<lparr>entity_list := entity_list w @ renumber (nEntities w) es,
                     nEntities := (next_id ^^ length es) (nEntities w)\<rparr>, rest)"
  using assms
proof (induction es arbitrary: w)
  case Nil
  have "fits 2 0" by (simp add: fits_def)
  from read_int_encoded [OF this, of "''entity.id''" rest]
  show ?case
    by (subst read_entity_loop.simps) (simp add: NBYTES_ID_def)
next
  case (Cons e es)
  let ?tail = "encode_fields (concat (map entity_fields es)) @ to_bytes 2 0 @ rest"
  have f: "fits 2 (ident e)" "fits 2 (px e)" "fits 2 (py e)" "fits 2 (energy e)" "fits 2 (time e)"
    using Cons.prems(2) by (simp_all add: entity_fields_def field_fits_def)
  have inv: "in_bounds (map_size w) e" "entity_inv e"
    using Cons.prems(1) by simp_all
  have t0: "0 \<le> time e" using f(5) by (simp add: fits_def)
  have nz: "ident e \<noteq> 0" using inv by (simp add: entity_inv_def)
  let ?w' = "w\<lparr>entity_list := entity_list w @ [e\<lparr>ident := next_id (nEntities w)\<rparr>],
                  nEntities := next_id (nEntities w)\<rparr>"
  have ih: "read_entity_loop ?tail ?w' =
      (None, ?w'\<lparr>entity_list := entity_list ?w' @ renumber (nEntities ?w') es,
                   nEntities := (next_id ^^ length es) (nEntities ?w')\<rparr>, rest)"
    using Cons.prems by (intro Cons.IH) simp_all
  have bytes: "encode_fields (concat (map entity_fields (e # es))) @ to_bytes 2 0 @ rest =
      to_bytes 2 (nat (ident e)) @ to_bytes 2 (nat (px e)) @ to_bytes 2 (nat (py e)) @
      to_bytes 2 (nat (energy e)) @ to_bytes 2 (nat (time e)) @ ?tail"
    by (simp add: entity_fields_def encode_fields_Cons)
  show ?case
    unfolding bytes
    by (subst read_entity_loop.simps)
      (simp add: NBYTES_ID_def NBYTES_COORD_def NBYTES_ENERGY_def NBYTES_TIME_def
        read_int_encoded [OF f(1)] read_int_encoded [OF f(2)] read_int_encoded [OF f(3)]
        read_int_encoded [OF f(4)] read_int_encoded [OF f(5)] nz
        Entity_new_inv [OF inv t0] ih funpow_swap1)
qed

lemma agent_state_renumber: "map agent_state (renumber n es) = map agent_state es"
  by (induction es arbitrary: n) (simp_all add: agent_state_def)

lemma load_encoded:
  assumes inv: "world_inv w"
    and fit: "list_all field_fits (record_layout stop self w)"
  shows "load self' w0 \<lparr>target = Some (encode_fields (record_layout stop self w)), backup = b\<rparr> =
     (None,
      self'\<lparr>s_last := stop, s_time := s_time self + (stop - s_starting self),
             s_age := (s_time self + (stop - s_starting self)) div Save_TIME_IN_AGE\<rparr>,
      w0\<lparr>map_size := map_size w, food_list := food_list w,
          entity_list := renumber (nEntities w0) (entity_list w),
          nEntities := (next_id ^^ length (entity_list w)) (nEntities w0)\<rparr>)"
proof -
  let ?sim = "s_time self + (stop - s_starting self)"
  let ?fb = "encode_fields (concat (map food_fields (food_list w)))"
  let ?eb = "encode_fields (concat (map entity_fields (entity_list w)))"
  have hf: "fits 8 stop" "fits 8 ?sim" "fits 2 (fst (map_size w))" "fits 2 (snd (map_size w))"
    using fit by (simp_all add: record_layout_def header_fields_def field_fits_def)
  have ff: "list_all field_fits (concat (map food_fields (food_list w)))"
    and ef: "list_all field_fits (concat (map entity_fields (entity_list w)))"
    using fit by (simp_all add: record_layout_def)
  have bytes: "encode_fields (record_layout stop self w) =
      to_bytes 8 (nat stop) @ to_bytes 8 (nat ?sim) @ to_bytes 2 (nat (fst (map_size w))) @
      to_bytes 2 (nat (snd (map_size w))) @ ?fb @ to_bytes 2 0 @ ?eb @ to_bytes 2 0 @ []"
    by (simp add: record_layout_def header_fields_def encode_fields_Cons)
  have sim: "in_range ?sim Save_TIME_MAX"
    using hf(2) by (simp add: fits_def in_range_def Save_TIME_MAX_def Save_NBYTES_TIME_def)
  let ?w1 = "w0\<lparr>map_size := map_size w, food_list := []\<rparr>"
  have "list_all (\<lambda>fd. in_bounds (map_size ?w1) fd \<and> food_inv fd) (food_list w)"
    using inv by (simp add: world_inv_def all_in_bounds_def list_all_iff)
  from read_food_loop_encoded [OF this ff, of "?eb @ to_bytes 2 0"]
  have rf: "read_food_loop (?fb @ to_bytes 2 0 @ ?eb @ to_bytes 2 0) ?w1 =
      (None, ?w1\<lparr>food_list := food_list ?w1 @ food_list w\<rparr>, ?eb @ to_bytes 2 0)" .
  let ?w2 = "w0\<lparr>map_size := map_size w, food_list := food_list w, entity_list := []\<rparr>"
  have "list_all (\<lambda>e. in_bounds (map_size ?w2) e \<and> entity_inv e) (entity_list w)"
    using inv by (simp add: world_inv_def all_in_bounds_def list_all_iff)
  from read_entity_loop_encoded [OF this ef, of "[]"]
  have re: "read_entity_loop (?eb @ to_bytes 2 0) ?w2 =
      (None, ?w2\<lparr>entity_list := entity_list ?w2 @ renumber (nEntities ?w2) (entity_list w),
                   nEntities := (next_id ^^ length (entity_list w)) (nEntities ?w2)\<rparr>, [])"
    by simp
  show ?thesis
    unfolding bytes load_def
    by (simp add: Save_NBYTES_TIME_def NBYTES_COORD_def read_int_encoded [OF hf(1)]
        read_int_encoded [OF hf(2)] read_int_encoded [OF hf(3)] read_int_encoded [OF hf(4)]
        Let_def Save_set_time_def sim read_food_def read_entity_def rf re)
qed

lemma save_all_fit:
  assumes "list_all field_fits (record_layout (stop_time now1 now2 fs) self w)"
  shows "save now1 now2 self w fs =
     (None, \<lparr>target = Some (encode_fields (record_layout (stop_time now1 now2 fs) self w)),
             backup = (case target fs of None \<Rightarrow> backup fs | Some content \<Rightarrow> Some content)\<rparr>)"
proof -
  let ?l = "record_layout (stop_time now1 now2 fs) self w"
  have tw: "takeWhile field_fits ?l = ?l"
    using assms by (simp add: list_all_iff takeWhile_eq_all_conv)
  have fn: "find (\<lambda>fl. \<not> field_fits fl) ?l = None"
    using assms by (simp add: find_None_iff list_all_iff)
  show ?thesis
    by (simp only: save_char first_unfit_def tw fn option.case)
qed

theorem C1_round_trip_without_ids:
  "world_inv w \<and> list_all field_fits (record_layout (stop_time now1 now2 fs) self w) \<longrightarrow>
     (\<exists>fs' self'' w'.
        save now1 now2 self w fs = (None, fs') \<and>
        load self' w0 fs' = (None, self'', w') \<and>
        map_size w' = map_size w \<and>
        food_list w' = food_list w \<and>
        set (map food_tuple (food_list w')) = set (map food_tuple (food_list w)) \<and>
        entity_list w' = renumber (nEntities w0) (entity_list w) \<and>
        map agent_state (entity_list w') = map agent_state (entity_list w) \<and>
        set (map agent_state (entity_list w')) = set (map agent_state (entity_list w)))"
proof
  assume a: "world_inv w \<and> list_all field_fits (record_layout (stop_time now1 now2 fs) self w)"
  then have inv: "world_inv w"
    and fit: "list_all field_fits (record_layout (stop_time now1 now2 fs) self w)"
    by simp_all
  note sv = save_all_fit [OF fit]
  note ld = load_encoded [OF inv fit, of self' w0
      "case target fs of None \<Rightarrow> backup fs | Some content \<Rightarrow> Some content"]
  show "\<exists>fs' self'' w'.
        save now1 now2 self w fs = (None, fs') \<and>
        load self' w0 fs' = (None, self'', w') \<and>
        map_size w' = map_size w \<and>
        food_list w' = food_list w \<and>
        set (map food_tuple (food_list w')) = set (map food_tuple (food_list w)) \<and>
        entity_list w' = renumber (nEntities w0) (entity_list w) \<and>
        map agent_state (entity_list w') = map agent_state (entity_list w) \<and>
        set (map agent_state (entity_list w')) = set (map agent_state (entity_list w))"
    unfolding sv
    by (intro exI conjI, rule refl, rule ld) (simp_all add: agent_state_renumber)
qed


theorem C1_round_trip_without_ids_witness:
  "\<exists>fs' self'' w'.
     save 1010 1011 \<lparr>s_last = 0, s_time = 5, s_age = 0, s_starting = 1000\<rparr>
       \<lparr>map_size = (5, 5), food_list = [\<lparr>px = 2, py = 2, pts = 100\<rparr>], maxFoods = 2,
        entity_list = [\<lparr>px = 1, py = 3, energy = 50, time = 7, age = 0, vrange = 10, ident = 1\<rparr>],
        nEntities = 1\<rparr> \<lparr>target = None, backup = None\<rparr> = (None, fs') \<and>
     load \<lparr>s_last = 0, s_time = 5, s_age = 0, s_starting = 1000\<rparr>
       \<lparr>map_size = (5, 5), food_list = [\<lparr>px = 2, py = 2, pts = 100\<rparr>], maxFoods = 2,
        entity_list = [\<lparr>px = 1, py = 3, energy = 50, time = 7, age = 0, vrange = 10, ident = 1\<rparr>],
        nEntities = 1\<rparr> fs' = (None, self'', w') \<and>
     map_size w' = map_size \<lparr>map_size = (5, 5), food_list = [\<lparr>px = 2, py = 2, pts = 100\<rparr>], maxFoods = 2,
        entity_list = [\<lparr>px = 1, py = 3, energy = 50, time = 7, age = 0, vrange = 10, ident = 1\<rparr>],
        nEntities = 1\<rparr> \<and>
     food_list w' = food_list \<lparr>map_size = (5, 5), food_list = [\<lparr>px = 2, py = 2, pts = 100\<rparr>], maxFoods = 2,
        entity_list = [\<lparr>px = 1, py = 3, energy = 50, time = 7, age = 0, vrange = 10, ident = 1\<rparr>],
        nEntities = 1\<rparr> \<and>
     set (map food_tuple (food_list w')) = set (map food_tuple (food_list \<lparr>map_size = (5, 5), food_list = [\<lparr>px = 2, py = 2, pts = 100\<rparr>], maxFoods = 2,
        entity_list = [\<lparr>px = 1, py = 3, energy = 50, time = 7, age = 0, vrange = 10, ident = 1\<rparr>],
        nEntities = 1\<rparr>)) \<and>
     entity_list w' = renumber (nEntities \<lparr>map_size = (5, 5), food_list = [\<lparr>px = 2, py = 2, pts = 100\<rparr>], maxFoods = 2,
        entity_list = [\<lparr>px = 1, py = 3, energy = 50, time = 7, age = 0, vrange = 10, ident = 1\<rparr>],
        nEntities = 1\<rparr>) (entity_list \<lparr>map_size = (5, 5), food_list = [\<lparr>px = 2, py = 2, pts = 100\<rparr>], maxFoods = 2,
        entity_list = [\<lparr>px = 1, py = 3, energy = 50, time = 7, age = 0, vrange = 10, ident = 1\<rparr>],
        nEntities = 1\<rparr>) \<and>
     map agent_state (entity_list w') = map agent_state (entity_list \<lparr>map_size = (5, 5), food_list = [\<lparr>px = 2, py = 2, pts = 100\<rparr>], maxFoods = 2,
        entity_list = [\<lparr>px = 1, py = 3, energy = 50, time = 7, age = 0, vrange = 10, ident = 1\<rparr>],
        nEntities = 1\<rparr>) \<and>
     set (map agent_state (entity_list w')) = set (map agent_state (entity_list \<lparr>map_size = (5, 5), food_list = [\<lparr>px = 2, py = 2, pts = 100\<rparr>], maxFoods = 2,
        entity_list = [\<lparr>px = 1, py = 3, energy = 50, time = 7, age = 0, vrange = 10, ident = 1\<rparr>],
        nEntities = 1\<rparr>))"
proof -
  let ?S = "\<lparr>s_last = 0, s_time = 5, s_age = 0, s_starting = 1000\<rparr>"
  let ?W = "\<lparr>map_size = (5, 5), food_list = [\<lparr>px = 2, py = 2, pts = 100\<rparr>], maxFoods = 2,
        entity_list = [\<lparr>px = 1, py = 3, energy = 50, time = 7, age = 0, vrange = 10, ident = 1\<rparr>],
        nEntities = 1\<rparr>"
  let ?F = "\<lparr>target = None, backup = None\<rparr>"
  have "world_inv ?W"
    by (simp add: world_inv_def all_in_bounds_def in_bounds_def in_range_def food_inv_def
        entity_inv_def PTS_MAX_def NBYTES_PTS_def ENERGY_MAX_def TIME_MAX_def TIME_IN_AGE_def
        RANGE_DEF_def MAX_ID_def NBYTES_ID_def)
  moreover have "list_all field_fits (record_layout (stop_time 1010 1011 ?F) ?S ?W)"
    by (simp add: stop_time_def record_layout_def header_fields_def food_fields_def
        entity_fields_def field_fits_def fits_def)
  ultimately show ?thesis
    using C1_round_trip_without_ids [of ?W 1010 1011 ?F ?S ?S ?W] by blast
qed

text \<open>
  C1 as stated fails on the ids: \<^verbatim>\<open>_read_entity\<close> reads the stored id only to test it
  against 0 and builds each agent with \<^verbatim>\<open>Entity.new((x, y), energy, time)\<close>, which takes
  the next id of the class counter. A world whose only agent has id 1 (so the counter
  is 1) is saved and loaded back in the same process: both calls succeed and the agent
  now has id 2.
\<close>

theorem C1_ids_counterexample:
  "fst (save 1010 1011 \<lparr>s_last = 0, s_time = 5, s_age = 0, s_starting = 1000\<rparr>
     \<lparr>map_size = (5, 5), food_list = [\<lparr>px = 2, py = 2, pts = 100\<rparr>], maxFoods = 2,
        entity_list = [\<lparr>px = 1, py = 3, energy = 50, time = 7, age = 0, vrange = 10, ident = 1\<rparr>],
        nEntities = 1\<rparr> \<lparr>target = None, backup = None\<rparr>) = None \<and>
   fst (load \<lparr>s_last = 0, s_time = 5, s_age = 0, s_starting = 1000\<rparr>
     \<lparr>map_size = (5, 5), food_list = [\<lparr>px = 2, py = 2, pts = 100\<rparr>], maxFoods = 2,
        entity_list = [\<lparr>px = 1, py = 3, energy = 50, time = 7, age = 0, vrange = 10, ident = 1\<rparr>],
        nEntities = 1\<rparr>
     (snd (save 1010 1011 \<lparr>s_last = 0, s_time = 5, s_age = 0, s_starting = 1000\<rparr>
        \<lparr>map_size = (5, 5), food_list = [\<lparr>px = 2, py = 2, pts = 100\<rparr>], maxFoods = 2,
        entity_list = [\<lparr>px = 1, py = 3, energy = 50, time = 7, age = 0, vrange = 10, ident = 1\<rparr>],
        nEntities = 1\<rparr> \<lparr>target = None, backup = None\<rparr>))) = None \<and>
   map agent_tuple (entity_list (snd (snd (load \<lparr>s_last = 0, s_time = 5, s_age = 0, s_starting = 1000\<rparr>
     \<lparr>map_size = (5, 5), food_list = [\<lparr>px = 2, py = 2, pts = 100\<rparr>], maxFoods = 2,
        entity_list = [\<lparr>px = 1, py = 3, energy = 50, time = 7, age = 0, vrange = 10, ident = 1\<rparr>],
        nEntities = 1\<rparr>
     (snd (save 1010 1011 \<lparr>s_last = 0, s_time = 5, s_age = 0, s_starting = 1000\<rparr>
        \<lparr>map_size = (5, 5), food_list = [\<lparr>px = 2, py = 2, pts = 100\<rparr>], maxFoods = 2,
        entity_list = [\<lparr>px = 1, py = 3, energy = 50, time = 7, age = 0, vrange = 10, ident = 1\<rparr>],
        nEntities = 1\<rparr> \<lparr>target = None, backup = None\<rparr>)))))) = [(2, 1, 3, 50, 7)] \<and>
   map agent_tuple (entity_list
     \<lparr>map_size = (5, 5), food_list = [\<lparr>px = 2, py = 2, pts = 100\<rparr>], maxFoods = 2,
        entity_list = [\<lparr>px = 1, py = 3, energy = 50, time = 7, age = 0, vrange = 10, ident = 1\<rparr>],
        nEntities = 1\<rparr>) = [(1, 1, 3, 50, 7)]"
  by code_simp

subsection \<open>Loading a truncated file\<close>

lemma read_int_take:
  assumes "fits sz v"
  shows "read_int sz name (take k (to_bytes sz (nat v) @ rest)) =
           (if k < sz then Inl (ValueError name) else Inr (v, take (k - sz) rest))"
proof (cases "k < sz")
  case True
  then show ?thesis by (simp add: read_int_def Let_def min_def)
next
  case False
  then have "take k (to_bytes sz (nat v) @ rest) = to_bytes sz (nat v) @ take (k - sz) rest"
    by simp
  then show ?thesis using False read_int_encoded [OF assms] by simp
qed

lemma length_encode_food_fields:
  "length (encode_fields (concat (map food_fields fds))) = 6 * length fds"
  by (induction fds) (simp_all add: food_fields_def encode_fields_Cons)

lemma length_encode_entity_fields:
  "length (encode_fields (concat (map entity_fields es))) = 10 * length es"
  by (induction es) (simp_all add: entity_fields_def encode_fields_Cons)

lemma read_food_loop_truncated:
  assumes "list_all (\<lambda>fd. in_bounds (map_size w) fd \<and> food_inv fd) fds"
    and "list_all field_fits (concat (map food_fields fds))"
    and "k < 6 * length fds + 2"
  shows "\<exists>name r.
     read_food_loop (take k (encode_fields (concat (map food_fields fds)) @ to_bytes 2 0 @ rest)) w =
       (Some (ValueError name), w\<lparr>food_list := food_list w @ take (k div 6) fds\<rparr>, r)"
  using assms
proof (induction fds arbitrary: w k)
  case Nil
  have z: "fits 2 0" by (simp add: fits_def)
  from Nil.prems(3) have "k < 2" by simp
  with read_int_take [OF z, of "''food.pts''" k rest] show ?case
    by (subst read_food_loop.simps) (simp add: NBYTES_PTS_def)
next
  case (Cons fd fds)
  let ?tail = "encode_fields (concat (map food_fields fds)) @ to_bytes 2 0 @ rest"
  have f: "fits 2 (pts fd)" "fits 2 (px fd)" "fits 2 (py fd)"
    using Cons.prems(2) by (simp_all add: food_fields_def field_fits_def)
  have inv: "in_bounds (map_size w) fd" "food_inv fd"
    using Cons.prems(1) by simp_all
  have nz: "pts fd \<noteq> 0" using inv by (simp add: food_inv_def)
  have bytes: "encode_fields (concat (map food_fields (fd # fds))) @ to_bytes 2 0 @ rest =
      to_bytes 2 (nat (pts fd)) @ to_bytes 2 (nat (px fd)) @ to_bytes 2 (nat (py fd)) @ ?tail"
    by (simp add: food_fields_def encode_fields_Cons)
  note rd = read_int_take [OF f(1)] read_int_take [OF f(2)] read_int_take [OF f(3)]
  show ?case
  proof (cases "k < 6")
    case True
    then have "k div 6 = 0" by simp
    with True show ?thesis
      unfolding bytes
      by (subst read_food_loop.simps)
        (simp add: NBYTES_PTS_def NBYTES_COORD_def rd nz del: take_append)
  next
    case False
    let ?w' = "w\<lparr>food_list := food_list w @ [fd]\<rparr>"
    have k6: "k - 6 < 6 * length fds + 2" using Cons.prems(3) False by simp
    have "list_all (\<lambda>fd. in_bounds (map_size ?w') fd \<and> food_inv fd) fds"
      "list_all field_fits (concat (map food_fields fds))"
      using Cons.prems(1,2) by simp_all
    from Cons.IH [OF this k6]
    obtain name r where ih: "read_food_loop (take (k - 6) ?tail) ?w' =
        (Some (ValueError name), ?w'\<lparr>food_list := food_list ?w' @ take ((k - 6) div 6) fds\<rparr>, r)"
      by blast
    have d: "k div 6 = Suc ((k - 6) div 6)" using False by simp
    have "read_food_loop (take k (encode_fields (concat (map food_fields (fd # fds))) @
             to_bytes 2 0 @ rest)) w = read_food_loop (take (k - 6) ?tail) ?w'"
      unfolding bytes using False
      by (subst read_food_loop.simps)
        (auto simp add: NBYTES_PTS_def NBYTES_COORD_def rd nz Food_new_inv [OF inv]
          simp del: take_append)
    then show ?thesis
      using ih by (simp add: d)
  qed
qed

lemma read_entity_loop_truncated:
  assumes "list_all (\<lambda>e. in_bounds (map_size w) e \<and> entity_inv e) es"
    and "list_all field_fits (concat (map entity_fields es))"
    and "k < 10 * length es + 2"
  shows "\<exists>name r.
     read_entity_loop (take k (encode_fields (concat (map entity_fields es)) @ to_bytes 2 0 @ rest)) w =
       (Some (ValueError name),
        w\<lparr>entity_list := entity_list w @ renumber (nEntities w) (take (k div 10) es),
           nEntities := (next_id ^^ (k div 10)) (nEntities w)\<rparr>, r)"
  using assms
proof (induction es arbitrary: w k)
  case Nil
  have z: "fits 2 0" by (simp add: fits_def)
  from Nil.prems(3) have "k < 2" by simp
  with read_int_take [OF z, of "''entity.id''" k rest] show ?case
    by (subst read_entity_loop.simps) (simp add: NBYTES_ID_def)
next
  case (Cons e es)
  let ?tail = "encode_fields (concat (map entity_fields es)) @ to_bytes 2 0 @ rest"
  have f: "fits 2 (ident e)" "fits 2 (px e)" "fits 2 (py e)" "fits 2 (energy e)" "fits 2 (time e)"
    using Cons.prems(2) by (simp_all add: entity_fields_def field_fits_def)
  have inv: "in_bounds (map_size w) e" "entity_inv e"
    using Cons.prems(1) by simp_all
  have t0: "0 \<le> time e" using f(5) by (simp add: fits_def)
  have nz: "ident e \<noteq> 0" using inv by (simp add: entity_inv_def)
  have bytes: "encode_fields (concat (map entity_fields (e # es))) @ to_bytes 2 0 @ rest =
      to_bytes 2 (nat (ident e)) @ to_bytes 2 (nat (px e)) @ to_bytes 2 (nat (py e)) @
      to_bytes 2 (nat (energy e)) @ to_bytes 2 (nat (time e)) @ ?tail"
    by (simp add: entity_fields_def encode_fields_Cons)
  note rd = read_int_take [OF f(1)] read_int_take [OF f(2)] read_int_take [OF f(3)]
    read_int_take [OF f(4)] read_int_take [OF f(5)]
  show ?case
  proof (cases "k < 10")
    case True
    then have "k div 10 = 0" by simp
    with True show ?thesis
      unfolding bytes
      by (subst read_entity_loop.simps)
        (simp add: NBYTES_ID_def NBYTES_COORD_def NBYTES_ENERGY_def NBYTES_TIME_def rd nz
          del: take_append)
  next
    case False
    let ?w' = "w\<lparr>entity_list := entity_list w @ [e\<lparr>ident := next_id (nEntities w)\<rparr>],
                  nEntities := next_id (nEntities w)\<rparr>"
    have k10: "k - 10 < 10 * length es + 2" using Cons.prems(3) False by simp
    have "list_all (\<lambda>e. in_bounds (map_size ?w') e \<and> entity_inv e) es"
      "list_all field_fits (concat (map entity_fields es))"
      using Cons.prems(1,2) by simp_all
    from Cons.IH [OF this k10]
    obtain name r where ih: "read_entity_loop (take (k - 10) ?tail) ?w' =
        (Some (ValueError name),
         ?w'\<lparr>entity_list := entity_list ?w' @ renumber (nEntities ?w') (take ((k - 10) div 10) es),
             nEntities := (next_id ^^ ((k - 10) div 10)) (nEntities ?w')\<rparr>, r)"
      by blast
    have d: "k div 10 = Suc ((k - 10) div 10)" using False by simp
    have "read_entity_loop (take k (encode_fields (concat (map entity_fields (e # es))) @
             to_bytes 2 0 @ rest)) w = read_entity_loop (take (k - 10) ?tail) ?w'"
      unfolding bytes using False
      by (subst read_entity_loop.simps)
        (auto simp add: NBYTES_ID_def NBYTES_COORD_def NBYTES_ENERGY_def NBYTES_TIME_def rd nz
          Entity_new_inv [OF inv t0] simp del: take_append)
    then show ?thesis
      using ih by (simp add: d funpow_swap1)
  qed
qed

lemma file_of_bytes:
  "file_of stop self w =
      to_bytes 8 (nat stop) @ to_bytes 8 (nat (s_time self + (stop - s_starting self))) @
      to_bytes 2 (nat (fst (map_size w))) @ to_bytes 2 (nat (snd (map_size w))) @
      encode_fields (concat (map food_fields (food_list w))) @ to_bytes 2 0 @
      encode_fields (concat (map entity_fields (entity_list w))) @ to_bytes 2 0"
  by (simp add: file_of_def record_layout_def header_fields_def encode_fields_Cons)

lemma length_file_of:
  "length (file_of stop self w) = 24 + 6 * length (food_list w) + 10 * length (entity_list w)"
  by (simp add: file_of_bytes length_encode_food_fields length_encode_entity_fields)

lemma load_truncated_header:
  assumes fit: "list_all field_fits (record_layout stop self w)" and n: "n < 20"
  shows "\<exists>name self''. load self' w0 \<lparr>target = Some (take n (file_of stop self w)), backup = b\<rparr> =
           (Some (ValueError name), self'', w0)"
proof -
  have hf: "fits 8 stop" "fits 8 (s_time self + (stop - s_starting self))"
    "fits 2 (fst (map_size w))" "fits 2 (snd (map_size w))"
    using fit by (simp_all add: record_layout_def header_fields_def field_fits_def)
  note rd = read_int_take [OF hf(1)] read_int_take [OF hf(2)] read_int_take [OF hf(3)]
    read_int_take [OF hf(4)]
  show ?thesis
    unfolding file_of_bytes load_def using n
    by (auto simp add: Save_NBYTES_TIME_def NBYTES_COORD_def rd Let_def simp del: take_append)
qed

lemma load_after_header:
  assumes fit: "list_all field_fits (record_layout stop self w)" and n: "20 \<le> n"
  shows "load self' w0 \<lparr>target = Some (take n (file_of stop self w)), backup = b\<rparr> =
     (case read_food
             (take (n - 20) (encode_fields (concat (map food_fields (food_list w))) @ to_bytes 2 0 @
                encode_fields (concat (map entity_fields (entity_list w))) @ to_bytes 2 0))
             (w0\<lparr>map_size := map_size w\<rparr>) of
        (Some err, w2, f5) \<Rightarrow>
          (Some err, Save_set_time (s_time self + (stop - s_starting self)) (self'\<lparr>s_last := stop\<rparr>), w2)
      | (None, w2, f5) \<Rightarrow>
          (case read_entity f5 w2 of
             (res, w3, f6) \<Rightarrow>
               (res, Save_set_time (s_time self + (stop - s_starting self)) (self'\<lparr>s_last := stop\<rparr>), w3)))"
proof -
  have hf: "fits 8 stop" "fits 8 (s_time self + (stop - s_starting self))"
    "fits 2 (fst (map_size w))" "fits 2 (snd (map_size w))"
    using fit by (simp_all add: record_layout_def header_fields_def field_fits_def)
  note rd = read_int_take [OF hf(1)] read_int_take [OF hf(2)] read_int_take [OF hf(3)]
    read_int_take [OF hf(4)]
  have k: "\<not> n < 8" "\<not> n - 8 < 8" "\<not> n - 16 < 2" "\<not> n - 18 < 2"
    using n by simp_all
  show ?thesis
    unfolding file_of_bytes load_def
    by (simp add: Save_NBYTES_TIME_def NBYTES_COORD_def rd Let_def k del: take_append)
qed

lemma load_truncated_food:
  assumes inv: "world_inv w" and fit: "list_all field_fits (record_layout stop self w)"
    and n: "20 \<le> n" "n < 22 + 6 * length (food_list w)"
  shows "\<exists>name self''. load self' w0 \<lparr>target = Some (take n (file_of stop self w)), backup = b\<rparr> =
           (Some (ValueError name), self'',
            w0\<lparr>map_size := map_size w, food_list := take ((n - 20) div 6) (food_list w)\<rparr>)"
proof -
  let ?w1 = "w0\<lparr>map_size := map_size w, food_list := []\<rparr>"
  have ff: "list_all field_fits (concat (map food_fields (food_list w)))"
    using fit by (simp add: record_layout_def)
  have "list_all (\<lambda>fd. in_bounds (map_size ?w1) fd \<and> food_inv fd) (food_list w)"
    using inv by (simp add: world_inv_def all_in_bounds_def list_all_iff)
  moreover have "n - 20 < 6 * length (food_list w) + 2" using n by simp
  ultimately obtain name r where
    "read_food_loop (take (n - 20) (encode_fields (concat (map food_fields (food_list w))) @
        to_bytes 2 0 @ encode_fields (concat (map entity_fields (entity_list w))) @ to_bytes 2 0)) ?w1 =
      (Some (ValueError name), ?w1\<lparr>food_list := food_list ?w1 @ take ((n - 20) div 6) (food_list w)\<rparr>, r)"
    using read_food_loop_truncated [OF _ ff, of ?w1 "n - 20"] by blast
  then show ?thesis
    unfolding load_after_header [OF fit n(1)] by (simp add: read_food_def)
qed

lemma load_truncated_agents:
  assumes inv: "world_inv w" and fit: "list_all field_fits (record_layout stop self w)"
    and n: "22 + 6 * length (food_list w) \<le> n" "n < length (file_of stop self w)"
  shows "\<exists>name self''. load self' w0 \<lparr>target = Some (take n (file_of stop self w)), backup = b\<rparr> =
           (Some (ValueError name), self'',
            w0\<lparr>map_size := map_size w, food_list := food_list w,
               entity_list := renumber (nEntities w0)
                 (take ((n - (22 + 6 * length (food_list w))) div 10) (entity_list w)),
               nEntities := (next_id ^^ ((n - (22 + 6 * length (food_list w))) div 10)) (nEntities w0)\<rparr>)"
proof -
  let ?F = "length (food_list w)"
  let ?fb = "encode_fields (concat (map food_fields (food_list w)))"
  let ?eb = "encode_fields (concat (map entity_fields (entity_list w)))"
  let ?k = "n - (22 + 6 * ?F)"
  let ?w1 = "w0\<lparr>map_size := map_size w, food_list := []\<rparr>"
  have ff: "list_all field_fits (concat (map food_fields (food_list w)))"
    and ef: "list_all field_fits (concat (map entity_fields (entity_list w)))"
    using fit by (simp_all add: record_layout_def)
  have n20: "20 \<le> n" using n by simp
  have tk: "take (n - 20) (?fb @ to_bytes 2 0 @ ?eb @ to_bytes 2 0) =
      ?fb @ to_bytes 2 0 @ take ?k (?eb @ to_bytes 2 0)"
    using n(1) by (simp add: length_encode_food_fields)
  have "list_all (\<lambda>fd. in_bounds (map_size ?w1) fd \<and> food_inv fd) (food_list w)"
    using inv by (simp add: world_inv_def all_in_bounds_def list_all_iff)
  from read_food_loop_encoded [OF this ff, of "take ?k (?eb @ to_bytes 2 0)"]
  have rf: "read_food_loop (?fb @ to_bytes 2 0 @ take ?k (?eb @ to_bytes 2 0)) ?w1 =
      (None, ?w1\<lparr>food_list := food_list ?w1 @ food_list w\<rparr>, take ?k (?eb @ to_bytes 2 0))" .
  let ?w2 = "w0\<lparr>map_size := map_size w, food_list := food_list w, entity_list := []\<rparr>"
  have "list_all (\<lambda>e. in_bounds (map_size ?w2) e \<and> entity_inv e) (entity_list w)"
    using inv by (simp add: world_inv_def all_in_bounds_def list_all_iff)
  moreover have "?k < 10 * length (entity_list w) + 2"
    using n by (simp add: length_file_of)
  ultimately obtain name r where
    "read_entity_loop (take ?k (?eb @ to_bytes 2 0 @ [])) ?w2 =
      (Some (ValueError name),
       ?w2\<lparr>entity_list := entity_list ?w2 @ renumber (nEntities ?w2) (take (?k div 10) (entity_list w)),
           nEntities := (next_id ^^ (?k div 10)) (nEntities ?w2)\<rparr>, r)"
    using read_entity_loop_truncated [OF _ ef, of ?w2 ?k "[]"] by blast
  then have re: "read_entity_loop (take ?k (?eb @ to_bytes 2 0)) ?w2 =
      (Some (ValueError name),
       ?w2\<lparr>entity_list := entity_list ?w2 @ renumber (nEntities ?w2) (take (?k div 10) (entity_list w)),
           nEntities := (next_id ^^ (?k div 10)) (nEntities ?w2)\<rparr>, r)"
    by simp
  show ?thesis
    unfolding load_after_header [OF fit n20] tk
    by (simp add: read_food_def read_entity_def rf re del: take_append)
qed

text \<open>
  C7 as stated fails: \<^verbatim>\<open>Food.list\<close> is cleared at the start of \<^verbatim>\<open>_read_food\<close> and
  \<^verbatim>\<open>Entity.list\<close> only at the start of \<^verbatim>\<open>_read_entity\<close>, after the whole food section
  was read. A file cut after 25 bytes (inside the first food record) makes \<^verbatim>\<open>load\<close>
  raise the read error of \<open>food.y\<close>; the food list is empty, and the agent list still
  holds the agent that was live before the call, which no record of the file describes.
\<close>

theorem C7_agents_not_cleared_counterexample:
  "load \<lparr>s_last = 0, s_time = 5, s_age = 0, s_starting = 1000\<rparr>
     \<lparr>map_size = (9, 9), food_list = [\<lparr>px = 8, py = 8, pts = 30\<rparr>], maxFoods = 9,
      entity_list = [\<lparr>px = 7, py = 7, energy = 20, time = 3, age = 0, vrange = 10, ident = 4\<rparr>],
      nEntities = 4\<rparr>
     \<lparr>target = Some [0, 0, 0, 0, 0, 0, 3, 242, 0, 0, 0, 0, 0, 0, 0, 15, 0, 5, 0, 5,
                    0, 100, 0, 2, 0],
      backup = None\<rparr> =
   (Some (ValueError ''food.y''),
    \<lparr>s_last = 1010, s_time = 15, s_age = 0, s_starting = 1000\<rparr>,
    \<lparr>map_size = (5, 5), food_list = [], maxFoods = 9,
     entity_list = [\<lparr>px = 7, py = 7, energy = 20, time = 3, age = 0, vrange = 10, ident = 4\<rparr>],
     nEntities = 4\<rparr>)"
  by code_simp

text \<open>
  C7, amended. \<^verbatim>\<open>Save.load\<close> reads the header, then clears the food list and reads
  food records up to a \<open>pts\<close> of 0, then clears the agent list and reads agent records
  up to an id of 0: on the whole file of a saved world it succeeds and both lists hold
  the file's records. On that file cut to any shorter length \<open>n\<close> it raises a read
  error, and: cut inside the header (\<open>n < 20\<close>), the world is untouched; cut inside the
  food section, the food list holds exactly the \<open>(n - 20) div 6\<close> food records before the
  cut and the agent list is what it was before the call; cut inside the agent section,
  the food list holds all food records and the agent list exactly the agent records
  before the cut (with fresh ids).
\<close>

theorem C7_load_truncated:
  "world_inv w \<and> list_all field_fits (record_layout stop self w) \<longrightarrow>
     (\<exists>self1. load self' w0 \<lparr>target = Some (file_of stop self w), backup = b\<rparr> =
        (None, self1,
         w0\<lparr>map_size := map_size w, food_list := food_list w,
            entity_list := renumber (nEntities w0) (entity_list w),
            nEntities := (next_id ^^ length (entity_list w)) (nEntities w0)\<rparr>)) \<and>
     (n < length (file_of stop self w) \<longrightarrow>
        (\<exists>name self'' w'.
           load self' w0 \<lparr>target = Some (take n (file_of stop self w)), backup = b\<rparr> =
             (Some (ValueError name), self'', w') \<and>
           (n < 20 \<longrightarrow> w' = w0) \<and>
           (20 \<le> n \<and> n < 22 + 6 * length (food_list w) \<longrightarrow>
              food_list w' = take ((n - 20) div 6) (food_list w) \<and>
              entity_list w' = entity_list w0) \<and>
           (22 + 6 * length (food_list w) \<le> n \<longrightarrow>
              food_list w' = food_list w \<and>
              entity_list w' = renumber (nEntities w0)
                (take ((n - (22 + 6 * length (food_list w))) div 10) (entity_list w)))))"
proof (intro impI conjI)
  assume a: "world_inv w \<and> list_all field_fits (record_layout stop self w)"
  then have inv: "world_inv w" and fit: "list_all field_fits (record_layout stop self w)"
    by simp_all
  show "\<exists>self1. load self' w0 \<lparr>target = Some (file_of stop self w), backup = b\<rparr> =
        (None, self1,
         w0\<lparr>map_size := map_size w, food_list := food_list w,
            entity_list := renumber (nEntities w0) (entity_list w),
            nEntities := (next_id ^^ length (entity_list w)) (nEntities w0)\<rparr>)"
    unfolding file_of_def load_encoded [OF inv fit] by blast
next
  assume a: "world_inv w \<and> list_all field_fits (record_layout stop self w)"
    and n: "n < length (file_of stop self w)"
  from a have inv: "world_inv w" and fit: "list_all field_fits (record_layout stop self w)"
    by simp_all
  let ?F = "length (food_list w)"
  consider (header) "n < 20" | (food) "20 \<le> n" "n < 22 + 6 * ?F" | (agents) "22 + 6 * ?F \<le> n"
    by linarith
  then show "\<exists>name self'' w'.
           load self' w0 \<lparr>target = Some (take n (file_of stop self w)), backup = b\<rparr> =
             (Some (ValueError name), self'', w') \<and>
           (n < 20 \<longrightarrow> w' = w0) \<and>
           (20 \<le> n \<and> n < 22 + 6 * length (food_list w) \<longrightarrow>
              food_list w' = take ((n - 20) div 6) (food_list w) \<and>
              entity_list w' = entity_list w0) \<and>
           (22 + 6 * length (food_list w) \<le> n \<longrightarrow>
              food_list w' = food_list w \<and>
              entity_list w' = renumber (nEntities w0)
                (take ((n - (22 + 6 * length (food_list w))) div 10) (entity_list w)))"
  proof cases
    case header
    from load_truncated_header [OF fit header, of self' w0 b] header show ?thesis
      by auto
  next
    case food
    from load_truncated_food [OF inv fit food, of self' w0 b] food show ?thesis
      by auto
  next
    case agents
    from load_truncated_agents [OF inv fit agents n, of self' w0 b] agents show ?thesis
      by auto
  qed
qed

theorem C7_load_truncated_witness:
  "(\<exists>self1. load \<lparr>s_last = 0, s_time = 5, s_age = 0, s_starting = 1000\<rparr>
      \<lparr>map_size = (9, 9), food_list = [\<lparr>px = 8, py = 8, pts = 30\<rparr>], maxFoods = 9,
        entity_list = [\<lparr>px = 7, py = 7, energy = 20, time = 3, age = 0, vrange = 10, ident = 4\<rparr>],
        nEntities = 4\<rparr>
      \<lparr>target = Some (file_of 1010 \<lparr>s_last = 0, s_time = 5, s_age = 0, s_starting = 1000\<rparr>
         \<lparr>map_size = (5, 5), food_list = [\<lparr>px = 2, py = 2, pts = 100\<rparr>], maxFoods = 2,
        entity_list = [\<lparr>px = 1, py = 3, energy = 50, time = 7, age = 0, vrange = 10, ident = 1\<rparr>],
        nEntities = 1\<rparr>), backup = None\<rparr> =
      (None, self1,
       \<lparr>map_size = (5, 5), food_list = [\<lparr>px = 2, py = 2, pts = 100\<rparr>], maxFoods = 9,
        entity_list = [\<lparr>px = 1, py = 3, energy = 50, time = 7, age = 0, vrange = 10, ident = 5\<rparr>],
        nEntities = 5\<rparr>)) \<and>
   (\<exists>name self'' w'.
      load \<lparr>s_last = 0, s_time = 5, s_age = 0, s_starting = 1000\<rparr>
        \<lparr>map_size = (9, 9), food_list = [\<lparr>px = 8, py = 8, pts = 30\<rparr>], maxFoods = 9,
        entity_list = [\<lparr>px = 7, py = 7, energy = 20, time = 3, age = 0, vrange = 10, ident = 4\<rparr>],
        nEntities = 4\<rparr>
        \<lparr>target = Some (take 35 (file_of 1010 \<lparr>s_last = 0, s_time = 5, s_age = 0, s_starting = 1000\<rparr>
           \<lparr>map_size = (5, 5), food_list = [\<lparr>px = 2, py = 2, pts = 100\<rparr>], maxFoods = 2,
        entity_list = [\<lparr>px = 1, py = 3, energy = 50, time = 7, age = 0, vrange = 10, ident = 1\<rparr>],
        nEntities = 1\<rparr>)), backup = None\<rparr> =
      (Some (ValueError name), self'', w') \<and>
      food_list w' = [\<lparr>px = 2, py = 2, pts = 100\<rparr>] \<and> entity_list w' = [])"
proof -
  let ?S = "\<lparr>s_last = 0, s_time = 5, s_age = 0, s_starting = 1000\<rparr>"
  let ?W = "\<lparr>map_size = (5, 5), food_list = [\<lparr>px = 2, py = 2, pts = 100\<rparr>], maxFoods = 2,
        entity_list = [\<lparr>px = 1, py = 3, energy = 50, time = 7, age = 0, vrange = 10, ident = 1\<rparr>],
        nEntities = 1\<rparr>"
  let ?V = "\<lparr>map_size = (9, 9), food_list = [\<lparr>px = 8, py = 8, pts = 30\<rparr>], maxFoods = 9,
        entity_list = [\<lparr>px = 7, py = 7, energy = 20, time = 3, age = 0, vrange = 10, ident = 4\<rparr>],
        nEntities = 4\<rparr>"
  have inv: "world_inv ?W"
    by (simp add: world_inv_def all_in_bounds_def in_bounds_def in_range_def food_inv_def
        entity_inv_def PTS_MAX_def NBYTES_PTS_def ENERGY_MAX_def TIME_MAX_def TIME_IN_AGE_def
        RANGE_DEF_def MAX_ID_def NBYTES_ID_def)
  have fit: "list_all field_fits (record_layout 1010 ?S ?W)"
    by (simp add: record_layout_def header_fields_def food_fields_def
        entity_fields_def field_fits_def fits_def)
  have n: "35 < length (file_of 1010 ?S ?W)"
    by (simp add: length_file_of)
  from C7_load_truncated [of ?W 1010 ?S ?S ?V None 35] inv fit n show ?thesis
    by (simp add: next_id_def MAX_ID_def NBYTES_ID_def)
qed

subsection \<open>The sweep of the Engine tick\<close>








lemma list_all_update: "list_all P xs \<Longrightarrow> P x \<Longrightarrow> list_all P (xs[i := x])"
  by (auto simp: list_all_iff dest: set_update_subset_insert [THEN subsetD])

lemma list_all_delete_at: "list_all P xs \<Longrightarrow> list_all P (delete_at i xs)"
  by (auto simp: list_all_iff delete_at_def dest: in_set_takeD in_set_dropD)

lemma sweep_ok:
  "all_in_bounds w \<Longrightarrow>
     \<exists>wF. sweep rs i w = Inr wF \<and> all_in_bounds wF \<and> map_size wF = map_size w"
proof (induction rs i w rule: sweep.induct)
  case (1 rs i w)
  show ?case
  proof (cases "i < length (entity_list w)")
    case False
    then show ?thesis using "1.prems" by (simp add: sweep.simps)
  next
    case True
    have "in_bounds (map_size w) (entity_list w ! i)"
      using "1.prems" True by (simp add: all_in_bounds_def list_all_length)
    from move_ok [OF this "1.prems", of "rs i"]
    obtain e' w' where mv: "move (rs i) (entity_list w ! i) w = Inr (e', w')"
      and m: "map_size w' = map_size w" and eb: "in_bounds (map_size w) e'"
      and wb: "all_in_bounds w'"
      by blast
    let ?w1 = "w'\<lparr>entity_list := (entity_list w')[i := e']\<rparr>"
    let ?w2 = "w'\<lparr>entity_list := delete_at i ((entity_list w')[i := e'])\<rparr>"
    have b1: "all_in_bounds ?w1"
      using wb eb m by (simp add: all_in_bounds_def list_all_update)
    then have b2: "all_in_bounds ?w2"
      by (simp add: all_in_bounds_def list_all_delete_at)
    show ?thesis
    proof (cases "survive e'")
      case True
      from "1.IH"(2) [OF \<open>i < length (entity_list w)\<close> mv refl _ b1] True
      obtain wF where "sweep rs (Suc i) ?w1 = Inr wF" "all_in_bounds wF" "map_size wF = map_size ?w1"
        by auto
      then show ?thesis
        using True mv m \<open>i < length (entity_list w)\<close> by (subst sweep.simps) simp
    next
      case False
      from "1.IH"(1) [OF \<open>i < length (entity_list w)\<close> mv refl _ b2] False
      obtain wF where "sweep rs (Suc i) ?w2 = Inr wF" "all_in_bounds wF" "map_size wF = map_size ?w2"
        by auto
      then show ?thesis
        using False mv m \<open>i < length (entity_list w)\<close> by (subst sweep.simps) simp
    qed
  qed
qed












subsection \<open>The spawn command\<close>

text \<open>
  C9. The claim: \<open>spawn food x y\<close> with in-bounds integers places one new Food with 100
  points at \<open>(x, y)\<close>. The code: with both coordinates parsed, \<^verbatim>\<open>_spawn\<close> calls
  \<^verbatim>\<open>Food.new((x, y))\<close>, one argument short of \<^verbatim>\<open>new(cls, coord, pts)\<close>, so the call
  raises \<^verbatim>\<open>TypeError\<close> and no food is added, whatever the coordinates and the world; when
  a coordinate does not parse, the command returns without spawning. The sibling
  command \<open>spawn entity 2 2\<close> passes the default energy and does place its agent.
\<close>

theorem C9_spawn_food_raises:
  "Cmd_spawn draws [''food'', sx, sy] w =
     (case py_int sx of
        None \<Rightarrow> Some (Inr w)
      | Some x \<Rightarrow>
          (case py_int sy of
             None \<Rightarrow> Some (Inr w)
           | Some y \<Rightarrow>
               Some (Inl (TypeError ''new() missing 1 required positional argument: pts'')))) \<and>
   processCmd draws ''spawn food 2 2'' w =
     Some (Inl (TypeError ''new() missing 1 required positional argument: pts'')) \<and>
   processCmd draws ''spawn entity 2 2''
     \<lparr>map_size = (5, 5), food_list = [], maxFoods = 2, entity_list = [], nEntities = 0\<rparr> =
     Some (Inr \<lparr>map_size = (5, 5), food_list = [], maxFoods = 2,
        entity_list = [\<lparr>px = 2, py = 2, energy = 200, time = 0, age = 0, vrange = 10, ident = 1\<rparr>],
        nEntities = 1\<rparr>)"
proof (intro conjI)
  show "Cmd_spawn draws [''food'', sx, sy] w =
     (case py_int sx of
        None \<Rightarrow> Some (Inr w)
      | Some x \<Rightarrow>
          (case py_int sy of
             None \<Rightarrow> Some (Inr w)
           | Some y \<Rightarrow>
               Some (Inl (TypeError ''new() missing 1 required positional argument: pts''))))"
    by (simp add: Cmd_spawn_def Food_new_call_def Let_def split: option.splits)
  show "processCmd draws ''spawn food 2 2'' w =
     Some (Inl (TypeError ''new() missing 1 required positional argument: pts''))"
    by code_simp
  show "processCmd draws ''spawn entity 2 2''
     \<lparr>map_size = (5, 5), food_list = [], maxFoods = 2, entity_list = [], nEntities = 0\<rparr> =
     Some (Inr \<lparr>map_size = (5, 5), food_list = [], maxFoods = 2,
        entity_list = [\<lparr>px = 2, py = 2, energy = 200, time = 0, age = 0, vrange = 10, ident = 1\<rparr>],
        nEntities = 1\<rparr>)"
    by code_simp
qed

subsection \<open>The coordinate invariant under the operations\<close>

lemma Food_generate_bounds:
  "Food_generate draws w = Some (Inr w') \<Longrightarrow> all_in_bounds w \<Longrightarrow> all_in_bounds w'"
  by (auto simp: Food_generate_def split: if_splits option.splits sum.splits
      dest: Food_new_bounds)

lemma Entity_generate_bounds:
  "Entity_generate draws w = Some (Inr w') \<Longrightarrow> all_in_bounds w \<Longrightarrow> all_in_bounds w'"
  by (auto simp: Entity_generate_def split: if_splits option.splits sum.splits
      dest: Entity_new_bounds)

lemma step_bounds:
  assumes "all_in_bounds w" "step rs draws sv w = Some (Inr (sv', w'))"
  shows "all_in_bounds w'"
proof -
  from sweep_ok [OF assms(1), of rs 0] obtain w1 where
    sw: "sweep rs 0 w = Inr w1" and b1: "all_in_bounds w1" by blast
  from assms(2) sw have "Food_generate draws w1 = Some (Inr w')"
    by (auto simp: step_def Let_def split: option.splits sum.splits)
  from Food_generate_bounds [OF this b1] show ?thesis .
qed

lemma Cmd_spawn_bounds:
  "Cmd_spawn draws args w = Some (Inr w') \<Longrightarrow> all_in_bounds w \<Longrightarrow> all_in_bounds w'"
  by (auto simp: Cmd_spawn_def Let_def Food_new_call_def split: if_splits option.splits
      dest: Entity_new_bounds Entity_generate_bounds Food_generate_bounds)

lemma processCmd_bounds:
  "processCmd draws command w = Some (Inr w') \<Longrightarrow> all_in_bounds w \<Longrightarrow> all_in_bounds w'"
  by (auto simp: processCmd_def Let_def split: if_splits dest: Cmd_spawn_bounds)

lemma Food_new_keeps:
  "Food_new c p w = Inr w' \<Longrightarrow>
     map_size w' = map_size w \<and> entity_list w' = entity_list w \<and>
     (list_all (in_bounds (map_size w)) (food_list w) \<longrightarrow>
        list_all (in_bounds (map_size w)) (food_list w'))"
  by (cases c)
    (auto simp: Food_new_def Food_init_def Element_init_def in_bounds_def set_pts_def
      split: if_splits)

lemma Entity_new_keeps:
  "Entity_new c en t w = Inr w' \<Longrightarrow>
     map_size w' = map_size w \<and> food_list w' = food_list w \<and>
     (list_all (in_bounds (map_size w)) (entity_list w) \<longrightarrow>
        list_all (in_bounds (map_size w)) (entity_list w'))"
  by (cases c)
    (auto simp: Entity_new_def Entity_init_def Element_init_def in_bounds_def Let_def
      set_time_def set_energy_def split: if_splits)

lemma read_food_loop_bounds:
  "read_food_loop f w = (r, w', f') \<Longrightarrow>
     map_size w' = map_size w \<and> entity_list w' = entity_list w \<and>
     (list_all (in_bounds (map_size w)) (food_list w) \<longrightarrow>
        list_all (in_bounds (map_size w)) (food_list w'))"
proof (induction f w rule: read_food_loop.induct)
  case (1 f0 w)
  show ?case
  proof (cases "\<exists>p f1 x f2 y f3 w1. read_int NBYTES_PTS ''food.pts'' f0 = Inr (p, f1) \<and> p \<noteq> 0 \<and>
        read_int NBYTES_COORD ''food.x'' f1 = Inr (x, f2) \<and>
        read_int NBYTES_COORD ''food.y'' f2 = Inr (y, f3) \<and> Food_new (x, y) p w = Inr w1")
    case False
    then have "w' = w"
      using "1.prems"
      by (subst (asm) read_food_loop.simps) (auto split: sum.splits if_splits)
    then show ?thesis by simp
  next
    case True
    then obtain p f1 x f2 y f3 w1 where
      r: "read_int NBYTES_PTS ''food.pts'' f0 = Inr (p, f1)" "p \<noteq> 0"
        "read_int NBYTES_COORD ''food.x'' f1 = Inr (x, f2)"
        "read_int NBYTES_COORD ''food.y'' f2 = Inr (y, f3)" "Food_new (x, y) p w = Inr w1"
      by blast
    have rec: "read_food_loop f3 w1 = (r, w', f')"
      using "1.prems" r by (subst (asm) read_food_loop.simps) simp
    from "1.IH" [OF r(1) refl r(2) r(3) refl r(4) refl r(5) rec] Food_new_keeps [OF r(5)]
    show ?thesis by auto
  qed
qed

lemma read_entity_loop_bounds:
  "read_entity_loop f w = (r, w', f') \<Longrightarrow>
     map_size w' = map_size w \<and> food_list w' = food_list w \<and>
     (list_all (in_bounds (map_size w)) (entity_list w) \<longrightarrow>
        list_all (in_bounds (map_size w)) (entity_list w'))"
proof (induction f w rule: read_entity_loop.induct)
  case (1 f0 w)
  show ?case
  proof (cases "\<exists>i f1 x f2 y f3 en f4 t f5 w1.
        read_int NBYTES_ID ''entity.id'' f0 = Inr (i, f1) \<and> i \<noteq> 0 \<and>
        read_int NBYTES_COORD ''entity.x'' f1 = Inr (x, f2) \<and>
        read_int NBYTES_COORD ''entity.y'' f2 = Inr (y, f3) \<and>
        read_int NBYTES_ENERGY ''entity.energy'' f3 = Inr (en, f4) \<and>
        read_int NBYTES_TIME ''entity.time'' f4 = Inr (t, f5) \<and>
        Entity_new (x, y) en t w = Inr w1")
    case False
    then have "w' = w"
      using "1.prems"
      by (subst (asm) read_entity_loop.simps) (auto split: sum.splits if_splits)
    then show ?thesis by simp
  next
    case True
    then obtain i f1 x f2 y f3 en f4 t f5 w1 where
      r: "read_int NBYTES_ID ''entity.id'' f0 = Inr (i, f1)" "i \<noteq> 0"
        "read_int NBYTES_COORD ''entity.x'' f1 = Inr (x, f2)"
        "read_int NBYTES_COORD ''entity.y'' f2 = Inr (y, f3)"
        "read_int NBYTES_ENERGY ''entity.energy'' f3 = Inr (en, f4)"
        "read_int NBYTES_TIME ''entity.time'' f4 = Inr (t, f5)"
        "Entity_new (x, y) en t w = Inr w1"
      by blast
    have rec: "read_entity_loop f5 w1 = (r, w', f')"
      using "1.prems" r by (subst (asm) read_entity_loop.simps) simp
    from "1.IH" [OF r(1) refl r(2) r(3) refl r(4) refl r(5) refl r(6) refl r(7) rec]
      Entity_new_keeps [OF r(7)]
    show ?thesis by auto
  qed
qed


lemma read_food_bounds:
  assumes "read_food f w = (r, w', f')"
  shows "map_size w' = map_size w \<and> entity_list w' = entity_list w \<and>
         list_all (in_bounds (map_size w)) (food_list w')"
  using read_food_loop_bounds [of f "w\<lparr>food_list := []\<rparr>" r w' f'] assms
  by (simp add: read_food_def)

lemma read_entity_bounds:
  assumes "read_entity f w = (r, w', f')"
  shows "map_size w' = map_size w \<and> food_list w' = food_list w \<and>
         list_all (in_bounds (map_size w)) (entity_list w')"
  using read_entity_loop_bounds [of f "w\<lparr>entity_list := []\<rparr>" r w' f'] assms
  by (simp add: read_entity_def)

lemma load_cases:
  assumes "load self w fs = (r, self', w')"
  shows "(r \<noteq> None \<and> w' = w) \<or>
         (r \<noteq> None \<and> entity_list w' = entity_list w \<and>
            list_all (in_bounds (map_size w')) (food_list w')) \<or>
         all_in_bounds w'"
proof (cases "\<exists>f0 l f1 t f2 sx f3 sy f4. target fs = Some f0 \<and>
      read_int Save_NBYTES_TIME ''file.last_loading'' f0 = Inr (l, f1) \<and>
      read_int Save_NBYTES_TIME ''file.sim_time'' f1 = Inr (t, f2) \<and>
      read_int NBYTES_COORD ''map.size_x'' f2 = Inr (sx, f3) \<and>
      read_int NBYTES_COORD ''map.size_y'' f3 = Inr (sy, f4)")
  case False
  then have "r \<noteq> None \<and> w' = w"
    using assms by (auto simp: load_def Let_def split: option.splits sum.splits)
  then show ?thesis by simp
next
  case True
  then obtain f0 l f1 t f2 sx f3 sy f4 where h: "target fs = Some f0"
      "read_int Save_NBYTES_TIME ''file.last_loading'' f0 = Inr (l, f1)"
      "read_int Save_NBYTES_TIME ''file.sim_time'' f1 = Inr (t, f2)"
      "read_int NBYTES_COORD ''map.size_x'' f2 = Inr (sx, f3)"
      "read_int NBYTES_COORD ''map.size_y'' f3 = Inr (sy, f4)"
    by blast
  let ?w1 = "w\<lparr>map_size := (sx, sy)\<rparr>"
  obtain rf w2 f5 where rf: "read_food f4 ?w1 = (rf, w2, f5)"
    by (cases "read_food f4 ?w1") auto
  note b2 = read_food_bounds [OF rf]
  show ?thesis
  proof (cases rf)
    case (Some err)
    then have "r = Some err" "w' = w2"
      using assms h rf by (simp_all add: load_def Let_def)
    then show ?thesis using b2 by simp
  next
    case None
    obtain re w3 f6 where re: "read_entity f5 w2 = (re, w3, f6)"
      by (cases "read_entity f5 w2") auto
    note b3 = read_entity_bounds [OF re]
    have "w' = w3"
      using assms h rf None re by (simp add: load_def Let_def)
    then have "all_in_bounds w'"
      using b2 b3 by (simp add: all_in_bounds_def)
    then show ?thesis by simp
  qed
qed

lemma load_bounds:
  assumes "load self w fs = (r, self', w')"
  shows "r = None \<longrightarrow> all_in_bounds w'"
    and "all_in_bounds w \<and> entity_list w = [] \<longrightarrow> all_in_bounds w'"
  using load_cases [OF assms] by (auto simp: all_in_bounds_def)

text \<open>
  C8 as stated fails for one operation: a \<^verbatim>\<open>Save.load\<close> that raises after it has
  assigned \<^verbatim>\<open>Map.size\<close>. Here every element is on the 9x9 map before the call; the
  file holds the header of a 3x3 map and nothing more, so \<^verbatim>\<open>load\<close> raises on the first
  food field, and the agent at (7,7), still in the live list, is off the current map.
\<close>

theorem C8_failed_load_counterexample:
  "all_in_bounds
     \<lparr>map_size = (9, 9), food_list = [\<lparr>px = 8, py = 8, pts = 30\<rparr>], maxFoods = 9,
      entity_list = [\<lparr>px = 7, py = 7, energy = 20, time = 3, age = 0, vrange = 10, ident = 4\<rparr>],
      nEntities = 4\<rparr> \<and>
   load \<lparr>s_last = 0, s_time = 5, s_age = 0, s_starting = 1000\<rparr>
     \<lparr>map_size = (9, 9), food_list = [\<lparr>px = 8, py = 8, pts = 30\<rparr>], maxFoods = 9,
      entity_list = [\<lparr>px = 7, py = 7, energy = 20, time = 3, age = 0, vrange = 10, ident = 4\<rparr>],
      nEntities = 4\<rparr>
     \<lparr>target = Some [0, 0, 0, 0, 0, 0, 3, 242, 0, 0, 0, 0, 0, 0, 0, 15, 0, 3, 0, 3],
      backup = None\<rparr> =
   (Some (ValueError ''food.pts''),
    \<lparr>s_last = 1010, s_time = 15, s_age = 0, s_starting = 1000\<rparr>,
    \<lparr>map_size = (3, 3), food_list = [], maxFoods = 9,
     entity_list = [\<lparr>px = 7, py = 7, energy = 20, time = 3, age = 0, vrange = 10, ident = 4\<rparr>],
     nEntities = 4\<rparr>) \<and>
   \<not> all_in_bounds
     \<lparr>map_size = (3, 3), food_list = [], maxFoods = 9,
      entity_list = [\<lparr>px = 7, py = 7, energy = 20, time = 3, age = 0, vrange = 10, ident = 4\<rparr>],
      nEntities = 4\<rparr>"
proof (intro conjI)
  show "all_in_bounds
     \<lparr>map_size = (9, 9), food_list = [\<lparr>px = 8, py = 8, pts = 30\<rparr>], maxFoods = 9,
      entity_list = [\<lparr>px = 7, py = 7, energy = 20, time = 3, age = 0, vrange = 10, ident = 4\<rparr>],
      nEntities = 4\<rparr>"
    by (simp add: all_in_bounds_def in_bounds_def in_range_def)
  show "load \<lparr>s_last = 0, s_time = 5, s_age = 0, s_starting = 1000\<rparr>
     \<lparr>map_size = (9, 9), food_list = [\<lparr>px = 8, py = 8, pts = 30\<rparr>], maxFoods = 9,
      entity_list = [\<lparr>px = 7, py = 7, energy = 20, time = 3, age = 0, vrange = 10, ident = 4\<rparr>],
      nEntities = 4\<rparr>
     \<lparr>target = Some [0, 0, 0, 0, 0, 0, 3, 242, 0, 0, 0, 0, 0, 0, 0, 15, 0, 3, 0, 3],
      backup = None\<rparr> =
   (Some (ValueError ''food.pts''),
    \<lparr>s_last = 1010, s_time = 15, s_age = 0, s_starting = 1000\<rparr>,
    \<lparr>map_size = (3, 3), food_list = [], maxFoods = 9,
     entity_list = [\<lparr>px = 7, py = 7, energy = 20, time = 3, age = 0, vrange = 10, ident = 4\<rparr>],
     nEntities = 4\<rparr>)"
    by code_simp
  show "\<not> all_in_bounds
     \<lparr>map_size = (3, 3), food_list = [], maxFoods = 9,
      entity_list = [\<lparr>px = 7, py = 7, energy = 20, time = 3, age = 0, vrange = 10, ident = 4\<rparr>],
      nEntities = 4\<rparr>"
    by (simp add: all_in_bounds_def in_bounds_def in_range_def)
qed

text \<open>
  C8, amended. Coordinates are validated against the map and never clamped: a setter
  given a value outside \<open>[0, width)\<close> or \<open>[0, height)\<close> raises and one given a value
  inside stores it; the constructors of Food and Agent raise on a coordinate off the
  map, and what \<^verbatim>\<open>Food.new\<close> and \<^verbatim>\<open>Entity.new\<close> add keeps every live element on the map.
  One step toward a food of an in-bounds list keeps an in-bounds agent in bounds; a
  random move draws its offset from the Moore offsets that keep the agent on the map,
  (0,0) among them; and a whole tick of an in-bounds agent in an in-bounds world
  returns, with the agent and every live element still on the same map. So do random
  generation, the sweep (which returns without raising), the Engine tick and the console
  commands. A \<^verbatim>\<open>Save.load\<close> that succeeds leaves every element on the loaded map, whatever
  the world before; one that fails keeps the invariant when no agent was live before the
  call.
\<close>

theorem C8_coordinates_on_map:
  "((\<not> in_range v (fst m) \<longrightarrow> set_x m v el = Inl (ValueError ''x'')) \<and>
   (in_range v (fst m) \<longrightarrow> set_x m v el = Inr (el\<lparr>px := v\<rparr>)) \<and>
   (\<not> in_range v (snd m) \<longrightarrow> set_y m v el = Inl (ValueError ''y'')) \<and>
   (in_range v (snd m) \<longrightarrow> set_y m v el = Inr (el\<lparr>py := v\<rparr>)) \<and>
   (\<not> (in_range (fst c) (fst m) \<and> in_range (snd c) (snd m)) \<longrightarrow>
      (\<exists>err. Food_init m c p = Inl err) \<and> (\<exists>err. Entity_init m n c en t = Inl err)) \<and>
   (all_in_bounds w \<and> Food_new c p w = Inr w1 \<longrightarrow> all_in_bounds w1) \<and>
   (all_in_bounds w \<and> Entity_new c en t w = Inr w2 \<longrightarrow> all_in_bounds w2) \<and>
   (in_bounds m e \<and> list_all (in_bounds m) foods \<longrightarrow>
      (\<exists>x' y' mv. moveTowardsFood m e foods = Inr (e\<lparr>px := x', py := y'\<rparr>, mv) \<and>
         in_range x' (fst m) \<and> in_range y' (snd m))) \<and>
   (in_bounds m e \<longrightarrow>
      (0, 0) \<in> set (possibleMoves m e) \<and>
      (\<exists>dx dy. dx \<in> {- 1, 0, 1} \<and> dy \<in> {- 1, 0, 1} \<and>
         rdmMove r m e = Inr (e\<lparr>px := px e + dx, py := py e + dy\<rparr>) \<and>
         in_range (px e + dx) (fst m) \<and> in_range (py e + dy) (snd m))) \<and>
   (in_bounds (map_size w) e \<and> all_in_bounds w \<longrightarrow>
      (\<exists>e' w'. move r e w = Inr (e', w') \<and> map_size w' = map_size w \<and>
         in_bounds (map_size w) e' \<and> all_in_bounds w'))) \<and>
   ((Food_generate draws w = Some (Inr w3) \<and> all_in_bounds w \<longrightarrow> all_in_bounds w3) \<and>
    (Entity_generate draws w = Some (Inr w4) \<and> all_in_bounds w \<longrightarrow> all_in_bounds w4) \<and>
    (all_in_bounds w \<longrightarrow>
       (\<exists>wF. sweep rs i w = Inr wF \<and> all_in_bounds wF \<and> map_size wF = map_size w)) \<and>
    (all_in_bounds w \<and> step rs draws sv w = Some (Inr (sv', w5)) \<longrightarrow> all_in_bounds w5) \<and>
    (all_in_bounds w \<and> processCmd draws command w = Some (Inr w6) \<longrightarrow> all_in_bounds w6) \<and>
    (load self w fs = (None, self', w7) \<longrightarrow> all_in_bounds w7) \<and>
    (all_in_bounds w \<and> entity_list w = [] \<and> load self w fs = (res, self', w8) \<longrightarrow>
       all_in_bounds w8))"
proof (rule conjI)
  show "(\<not> in_range v (fst m) \<longrightarrow> set_x m v el = Inl (ValueError ''x'')) \<and>
   (in_range v (fst m) \<longrightarrow> set_x m v el = Inr (el\<lparr>px := v\<rparr>)) \<and>
   (\<not> in_range v (snd m) \<longrightarrow> set_y m v el = Inl (ValueError ''y'')) \<and>
   (in_range v (snd m) \<longrightarrow> set_y m v el = Inr (el\<lparr>py := v\<rparr>)) \<and>
   (\<not> (in_range (fst c) (fst m) \<and> in_range (snd c) (snd m)) \<longrightarrow>
      (\<exists>err. Food_init m c p = Inl err) \<and> (\<exists>err. Entity_init m n c en t = Inl err)) \<and>
   (all_in_bounds w \<and> Food_new c p w = Inr w1 \<longrightarrow> all_in_bounds w1) \<and>
   (all_in_bounds w \<and> Entity_new c en t w = Inr w2 \<longrightarrow> all_in_bounds w2) \<and>
   (in_bounds m e \<and> list_all (in_bounds m) foods \<longrightarrow>
      (\<exists>x' y' mv. moveTowardsFood m e foods = Inr (e\<lparr>px := x', py := y'\<rparr>, mv) \<and>
         in_range x' (fst m) \<and> in_range y' (snd m))) \<and>
   (in_bounds m e \<longrightarrow>
      (0, 0) \<in> set (possibleMoves m e) \<and>
      (\<exists>dx dy. dx \<in> {- 1, 0, 1} \<and> dy \<in> {- 1, 0, 1} \<and>
         rdmMove r m e = Inr (e\<lparr>px := px e + dx, py := py e + dy\<rparr>) \<and>
         in_range (px e + dx) (fst m) \<and> in_range (py e + dy) (snd m))) \<and>
   (in_bounds (map_size w) e \<and> all_in_bounds w \<longrightarrow>
      (\<exists>e' w'. move r e w = Inr (e', w') \<and> map_size w' = map_size w \<and>
         in_bounds (map_size w) e' \<and> all_in_bounds w'))"
    by (rule coordinates_validated)
  have ld: "load self w fs = (None, self', w7) \<longrightarrow> all_in_bounds w7"
    using load_bounds(1) [of self w fs None self' w7] by blast
  have le: "all_in_bounds w \<and> entity_list w = [] \<and> load self w fs = (res, self', w8) \<longrightarrow>
       all_in_bounds w8"
    using load_bounds(2) [of self w fs res self' w8] by blast
  show "(Food_generate draws w = Some (Inr w3) \<and> all_in_bounds w \<longrightarrow> all_in_bounds w3) \<and>
    (Entity_generate draws w = Some (Inr w4) \<and> all_in_bounds w \<longrightarrow> all_in_bounds w4) \<and>
    (all_in_bounds w \<longrightarrow>
       (\<exists>wF. sweep rs i w = Inr wF \<and> all_in_bounds wF \<and> map_size wF = map_size w)) \<and>
    (all_in_bounds w \<and> step rs draws sv w = Some (Inr (sv', w5)) \<longrightarrow> all_in_bounds w5) \<and>
    (all_in_bounds w \<and> processCmd draws command w = Some (Inr w6) \<longrightarrow> all_in_bounds w6) \<and>
    (load self w fs = (None, self', w7) \<longrightarrow> all_in_bounds w7) \<and>
    (all_in_bounds w \<and> entity_list w = [] \<and> load self w fs = (res, self', w8) \<longrightarrow>
       all_in_bounds w8)"
    using Food_generate_bounds [of draws w w3] Entity_generate_bounds [of draws w w4]
      sweep_ok [of w rs i] step_bounds [of w rs draws sv sv' w5]
      processCmd_bounds [of draws command w w6] ld le
    by blast
qed

theorem C8_coordinates_on_map_witness:
  "(set_x (5, 5) 7 \<lparr>px = 0, py = 0\<rparr> = Inl (ValueError ''x'') \<and>
   set_x (5, 5) 3 \<lparr>px = 0, py = 0\<rparr> = Inr \<lparr>px = 3, py = 0\<rparr> \<and>
   set_y (5, 5) 7 \<lparr>px = 0, py = 0\<rparr> = Inl (ValueError ''y'') \<and>
   set_y (5, 5) 3 \<lparr>px = 0, py = 0\<rparr> = Inr \<lparr>px = 0, py = 3\<rparr> \<and>
   (\<exists>err. Food_init (5, 5) (7, 2) 100 = Inl err) \<and>
   (\<exists>err. Entity_init (5, 5) 0 (7, 2) 200 0 = Inl err) \<and>
   all_in_bounds \<lparr>map_size = (5, 5),
      food_list = [\<lparr>px = 4, py = 4, pts = 100\<rparr>, \<lparr>px = 1, py = 1, pts = 100\<rparr>],
      maxFoods = 2, entity_list = [], nEntities = 0\<rparr> \<and>
   (\<exists>x' y' mv.
      moveTowardsFood (5, 5)
        \<lparr>px = 2, py = 2, energy = 50, time = 0, age = 0, vrange = 10, ident = 1\<rparr>
        [\<lparr>px = 4, py = 4, pts = 100\<rparr>] =
      Inr (\<lparr>px = 2, py = 2, energy = 50, time = 0, age = 0, vrange = 10, ident = 1\<rparr>
             \<lparr>px := x', py := y'\<rparr>, mv) \<and>
      in_range x' (fst (5, 5)) \<and> in_range y' (snd (5, 5))) \<and>
   (0, 0) \<in> set (possibleMoves (5, 5)
        \<lparr>px = 2, py = 2, energy = 50, time = 0, age = 0, vrange = 10, ident = 1\<rparr>) \<and>
   (\<exists>e' w'.
      move 3 \<lparr>px = 2, py = 2, energy = 50, time = 0, age = 0, vrange = 10, ident = 1\<rparr>
        \<lparr>map_size = (5, 5), food_list = [\<lparr>px = 4, py = 4, pts = 100\<rparr>], maxFoods = 2,
         entity_list = [], nEntities = 0\<rparr> = Inr (e', w') \<and>
      map_size w' = (5, 5) \<and> in_bounds (5, 5) e' \<and> all_in_bounds w')) \<and>
   all_in_bounds
     \<lparr>map_size = (5, 5),
      food_list = [\<lparr>px = 4, py = 4, pts = 100\<rparr>, \<lparr>px = 2, py = 3, pts = 100\<rparr>],
      maxFoods = 2,
      entity_list = [\<lparr>px = 3, py = 3, energy = 49, time = 1, age = 0, vrange = 10, ident = 1\<rparr>],
      nEntities = 1\<rparr> \<and>
   all_in_bounds
     \<lparr>map_size = (3, 3), food_list = [\<lparr>px = 2, py = 2, pts = 100\<rparr>],
      maxFoods = 9, entity_list = [], nEntities = 4\<rparr>"
proof -
  have old: "set_x (5, 5) 7 \<lparr>px = 0, py = 0\<rparr> = Inl (ValueError ''x'') \<and>
   set_x (5, 5) 3 \<lparr>px = 0, py = 0\<rparr> = Inr \<lparr>px = 3, py = 0\<rparr> \<and>
   set_y (5, 5) 7 \<lparr>px = 0, py = 0\<rparr> = Inl (ValueError ''y'') \<and>
   set_y (5, 5) 3 \<lparr>px = 0, py = 0\<rparr> = Inr \<lparr>px = 0, py = 3\<rparr> \<and>
   (\<exists>err. Food_init (5, 5) (7, 2) 100 = Inl err) \<and>
   (\<exists>err. Entity_init (5, 5) 0 (7, 2) 200 0 = Inl err) \<and>
   all_in_bounds \<lparr>map_size = (5, 5),
      food_list = [\<lparr>px = 4, py = 4, pts = 100\<rparr>, \<lparr>px = 1, py = 1, pts = 100\<rparr>],
      maxFoods = 2, entity_list = [], nEntities = 0\<rparr> \<and>
   (\<exists>x' y' mv.
      moveTowardsFood (5, 5)
        \<lparr>px = 2, py = 2, energy = 50, time = 0, age = 0, vrange = 10, ident = 1\<rparr>
        [\<lparr>px = 4, py = 4, pts = 100\<rparr>] =
      Inr (\<lparr>px = 2, py = 2, energy = 50, time = 0, age = 0, vrange = 10, ident = 1\<rparr>
             \<lparr>px := x', py := y'\<rparr>, mv) \<and>
      in_range x' (fst (5, 5)) \<and> in_range y' (snd (5, 5))) \<and>
   (0, 0) \<in> set (possibleMoves (5, 5)
        \<lparr>px = 2, py = 2, energy = 50, time = 0, age = 0, vrange = 10, ident = 1\<rparr>) \<and>
   (\<exists>e' w'.
      move 3 \<lparr>px = 2, py = 2, energy = 50, time = 0, age = 0, vrange = 10, ident = 1\<rparr>
        \<lparr>map_size = (5, 5), food_list = [\<lparr>px = 4, py = 4, pts = 100\<rparr>], maxFoods = 2,
         entity_list = [], nEntities = 0\<rparr> = Inr (e', w') \<and>
      map_size w' = (5, 5) \<and> in_bounds (5, 5) e' \<and> all_in_bounds w')"
  proof -
    let ?el = "\<lparr>px = 0, py = 0\<rparr>"
    let ?e = "\<lparr>px = 2, py = 2, energy = 50, time = 0, age = 0, vrange = 10, ident = 1\<rparr>"
    let ?fs = "[\<lparr>px = 4, py = 4, pts = 100\<rparr>]"
    let ?w = "\<lparr>map_size = (5, 5), food_list = ?fs, maxFoods = 2, entity_list = [], nEntities = 0\<rparr>"
    let ?w1 = "\<lparr>map_size = (5, 5),
        food_list = [\<lparr>px = 4, py = 4, pts = 100\<rparr>, \<lparr>px = 1, py = 1, pts = 100\<rparr>],
        maxFoods = 2, entity_list = [], nEntities = 0\<rparr>"
    have out: "\<not> in_range 7 (fst (5, 5))" "\<not> in_range 7 (snd (5, 5))"
      "\<not> (in_range (fst (7, 2)) (fst (5, 5)) \<and> in_range (snd (7, 2)) (snd (5, 5)))"
      by (simp_all add: in_range_def)
    have inn: "in_range 3 (fst (5, 5))" "in_range 3 (snd (5, 5))"
      by (simp_all add: in_range_def)
    have wb: "all_in_bounds ?w"
      by (simp add: all_in_bounds_def in_bounds_def in_range_def)
    have eb: "in_bounds (5, 5) ?e" "in_bounds (map_size ?w) ?e" "list_all (in_bounds (5, 5)) ?fs"
      by (simp_all add: in_bounds_def in_range_def)
    have fn: "Food_new (1, 1) 100 ?w = Inr ?w1"
      by (simp add: Food_new_def Food_init_def Element_init_def in_range_def set_pts_def
          PTS_MAX_def NBYTES_PTS_def)
    note A = C8_coordinates_on_map [where v = 7 and m = "(5, 5)" and el = ?el and c = "(7, 2)" and p = 100
        and n = 0 and en = 200 and t = 0 and w = ?w and ?w1.0 = ?w1 and ?w2.0 = ?w and e = ?e
        and foods = ?fs and r = 3, THEN conjunct1]
    note B = C8_coordinates_on_map [where v = 3 and m = "(5, 5)" and el = ?el and c = "(1, 1)" and p = 100
        and n = 0 and en = 200 and t = 0 and w = ?w and ?w1.0 = ?w1 and ?w2.0 = ?w and e = ?e
        and foods = ?fs and r = 3, THEN conjunct1]
    show ?thesis
      using A B out inn wb eb fn by simp
  qed
  let ?S = "\<lparr>s_last = 0, s_time = 5, s_age = 0, s_starting = 1000\<rparr>"
  let ?V = "\<lparr>map_size = (5, 5), food_list = [\<lparr>px = 4, py = 4, pts = 100\<rparr>], maxFoods = 2,
      entity_list = [\<lparr>px = 2, py = 2, energy = 50, time = 0, age = 0, vrange = 10, ident = 1\<rparr>],
      nEntities = 1\<rparr>"
  let ?V5 = "\<lparr>map_size = (5, 5),
      food_list = [\<lparr>px = 4, py = 4, pts = 100\<rparr>, \<lparr>px = 2, py = 3, pts = 100\<rparr>],
      maxFoods = 2,
      entity_list = [\<lparr>px = 3, py = 3, energy = 49, time = 1, age = 0, vrange = 10, ident = 1\<rparr>],
      nEntities = 1\<rparr>"
  let ?U = "\<lparr>map_size = (9, 9), food_list = [\<lparr>px = 8, py = 8, pts = 30\<rparr>], maxFoods = 9,
      entity_list = [\<lparr>px = 7, py = 7, energy = 20, time = 3, age = 0, vrange = 10, ident = 4\<rparr>],
      nEntities = 4\<rparr>"
  let ?U7 = "\<lparr>map_size = (3, 3), food_list = [\<lparr>px = 2, py = 2, pts = 100\<rparr>],
      maxFoods = 9, entity_list = [], nEntities = 4\<rparr>"
  let ?F = "\<lparr>target = Some [0, 0, 0, 0, 0, 0, 3, 242, 0, 0, 0, 0, 0, 0, 0, 15, 0, 3, 0, 3,
                  0, 100, 0, 2, 0, 2, 0, 0, 0, 0], backup = None\<rparr>"
  have vb: "all_in_bounds ?V"
    by (simp add: all_in_bounds_def in_bounds_def in_range_def)
  have st: "step (\<lambda>_. 4) [(7, 8)] ?S ?V =
      Some (Inr (\<lparr>s_last = 0, s_time = 6, s_age = 0, s_starting = 1000\<rparr>, ?V5))"
    by code_simp
  have ldd: "load ?S ?U ?F = (None, \<lparr>s_last = 1010, s_time = 15, s_age = 0, s_starting = 1000\<rparr>, ?U7)"
    by code_simp
  note C = C8_coordinates_on_map [where w = ?V and rs = "\<lambda>_. 4" and draws = "[(7, 8)]"
      and sv = ?S and sv' = "\<lparr>s_last = 0, s_time = 6, s_age = 0, s_starting = 1000\<rparr>" and ?w5.0 = ?V5,
      THEN conjunct2]
  note D = C8_coordinates_on_map [where w = ?U and self = ?S and fs = ?F
      and self' = "\<lparr>s_last = 1010, s_time = 15, s_age = 0, s_starting = 1000\<rparr>" and ?w7.0 = ?U7,
      THEN conjunct2]
  have s5: "all_in_bounds ?V5" using C vb st by blast
  have l7: "all_in_bounds ?U7" using D ldd by blast
  show ?thesis
    using old s5 l7 by blast
qed

subsection \<open>Food points\<close>

lemma set_pts_cases:
  "pts (set_pts v f) = (if 1 \<le> v \<and> v \<le> 65536 then v else 100)"
  by (simp add: set_pts_def PTS_MAX_def NBYTES_PTS_def PTS_DEFAULT_def)

text \<open>
  C5. The claim: after constructing a Food or assigning \<open>pts\<close>, \<open>1 \<le> pts \<le> 65535\<close>, and
  an integer outside \<open>[1, 65535]\<close> is replaced by the default 100. The code at
  \<open>pts = 65536\<close>: the setter tests \<^verbatim>\<open>0 < value <= Food.PTS_MAX\<close> with
  \<^verbatim>\<open>PTS_MAX = 2 ** 16\<close>, so 65536 is kept, by assignment and by construction. The
  value does not fit the \<^verbatim>\<open>NBYTES_PTS = 2\<close> bytes that \<^verbatim>\<open>Save._write_int\<close> gives it.
\<close>

theorem C5_pts_65536_kept:
  "pts (set_pts 65536 f) = 65536 \<and>
   Food_init (5, 5) (2, 2) 65536 = Inr \<lparr>px = 2, py = 2, pts = 65536\<rparr> \<and>
   \<not> fits NBYTES_PTS (pts (set_pts 65536 f))"
  by (simp add: set_pts_def PTS_MAX_def NBYTES_PTS_def Food_init_def Element_init_def in_range_def
      fits_def)

subsection \<open>Agent identifiers\<close>

lemma next_id_funpow:
  "k \<le> 65536 \<Longrightarrow> (next_id ^^ k) 0 = int k"
  by (induction k) (simp_all add: next_id_def MAX_ID_def NBYTES_ID_def)

text \<open>
  C6. The claim: ids lie in \<open>[1, 65535]\<close> and wrap to 1 after 65535. The code: the
  counter advances while \<^verbatim>\<open>nEntities < MAX_ID\<close> with \<^verbatim>\<open>MAX_ID = 2 ** 16\<close>, so after
  65535 creations the counter is 65535 and the next agent gets id 65536; the wrap to 1
  comes one creation later. The id 65536 does not fit the \<^verbatim>\<open>NBYTES_ID = 2\<close> bytes that
  \<^verbatim>\<open>Save._write_int\<close> gives it.
\<close>

theorem C6_id_65536_assigned:
  "(next_id ^^ 65535) 0 = 65535 \<and>
   map_sum id (\<lambda>(e, n). (ident e, n)) (Entity_init (5, 5) 65535 (2, 2) 200 0) = Inr (65536, 65536) \<and>
   next_id 65536 = 1 \<and>
   \<not> fits NBYTES_ID (next_id 65535)"
proof -
  have "(next_id ^^ 65535) 0 = int 65535"
    by (rule next_id_funpow) simp
  then show ?thesis
    by (simp add: Entity_init_def Element_init_def in_range_def next_id_def MAX_ID_def
        NBYTES_ID_def Let_def fits_def)
qed

end
